(* ===== verification/Prelude.thy ===== *)
theory Prelude
  imports Main
begin

text \<open>
  Shared vocabulary of the development.

  The program is asynchronous Python that raises exceptions and mutates the world around it
  (a database session, Redis, a log, the clock, the random source). A computation is therefore a
  function from the world it starts in to its outcome, \<open>Inl\<close> of an exception or \<open>Inr\<close> of a
  result, and the world it leaves behind. As in Python, raising does not undo the effects made
  before the raise: \<open>bindM\<close> keeps the world of the failing step. The section on outcomes holds
  the vocabulary the contracts of the ports are stated in.
\<close>

section \<open>Computations that raise and have effects\<close>

type_synonym ('e, 'w, 'a) io = "'w \<Rightarrow> ('e + 'a) \<times> 'w"

definition retM :: "'a \<Rightarrow> ('e, 'w, 'a) io" where
  "retM x w = (Inr x, w)"

definition raiseM :: "'e \<Rightarrow> ('e, 'w, 'a) io" where
  "raiseM e w = (Inl e, w)"

definition bindM :: "('e, 'w, 'a) io \<Rightarrow> ('a \<Rightarrow> ('e, 'w, 'b) io) \<Rightarrow> ('e, 'w, 'b) io" where
  "bindM m f w = (case m w of (Inl e, w') \<Rightarrow> (Inl e, w') | (Inr x, w') \<Rightarrow> f x w')"

definition thenM :: "('e, 'w, 'a) io \<Rightarrow> ('e, 'w, 'b) io \<Rightarrow> ('e, 'w, 'b) io" where
  "thenM m k = bindM m (\<lambda>_. k)"

text \<open>\<open>tryM m h\<close> is \<open>try: m / except: h\<close>; the handler re-raises what it does not catch.\<close>

definition tryM :: "('e, 'w, 'a) io \<Rightarrow> ('e \<Rightarrow> ('e, 'w, 'a) io) \<Rightarrow> ('e, 'w, 'a) io" where
  "tryM m h w = (case m w of (Inl e, w') \<Rightarrow> h e w' | (Inr x, w') \<Rightarrow> (Inr x, w'))"

text \<open>A pure computation that may raise, and a read of the world.\<close>

definition liftM :: "'e + 'a \<Rightarrow> ('e, 'w, 'a) io" where
  "liftM r w = (r, w)"

definition readM :: "('w \<Rightarrow> 'a) \<Rightarrow> ('e, 'w, 'a) io" where
  "readM f w = (Inr (f w), w)"

text \<open>An assignment to the world.\<close>

definition modifyM :: "('w \<Rightarrow> 'w) \<Rightarrow> ('e, 'w, unit) io" where
  "modifyM f w = (Inr (), f w)"

text \<open>\<open>try: m / finally: f\<close>: an exception of \<open>f\<close> replaces the outcome of \<open>m\<close>.\<close>

definition finallyM :: "('e, 'w, 'a) io \<Rightarrow> ('e, 'w, unit) io \<Rightarrow> ('e, 'w, 'a) io" where
  "finallyM m f w =
     (case m w of (r, w') \<Rightarrow> (case f w' of (Inl x, w'') \<Rightarrow> (Inl x, w'') | (Inr _, w'') \<Rightarrow> (r, w'')))"

named_theorems io_simps "evaluation of a computation from the outcomes of its steps"

lemma retM_run [io_simps, simp]: "retM x w = (Inr x, w)"
  by (simp add: retM_def)

lemma raiseM_run [io_simps, simp]: "raiseM e w = (Inl e, w)"
  by (simp add: raiseM_def)

lemma liftM_run [io_simps, simp]: "liftM r w = (r, w)"
  by (simp add: liftM_def)

lemma readM_run [io_simps, simp]: "readM f w = (Inr (f w), w)"
  by (simp add: readM_def)

lemmas [io_simps] = bindM_def thenM_def tryM_def

text \<open>The laws that make the sequencing independent of how a handler's lines are bracketed.\<close>

lemma bindM_retM: "bindM m retM = m"
proof
  fix w
  show "bindM m retM w = m w"
    by (simp add: bindM_def split: prod.split sum.split)
qed

lemma bindM_assoc: "bindM (bindM m f) g = bindM m (\<lambda>x. bindM (f x) g)"
proof
  fix w
  show "bindM (bindM m f) g w = bindM m (\<lambda>x. bindM (f x) g) w"
    by (simp add: bindM_def split: prod.split sum.split)
qed

section \<open>Outcomes\<close>

text \<open>
  \<open>yields out x Q\<close>: the outcome is the result \<open>x\<close> and the world left behind satisfies \<open>Q\<close>.
  The contracts of the ports are stated with it, and \<open>yieldsE\<close> turns a contract into the
  equation of one step; \<open>io_simps\<close> evaluates a use case from the equations of its steps.
\<close>

definition yields :: "('e + 'a) \<times> 'w \<Rightarrow> 'a \<Rightarrow> ('w \<Rightarrow> bool) \<Rightarrow> bool" where
  "yields out x Q \<longleftrightarrow> fst out = Inr x \<and> Q (snd out)"

definition raises :: "('e + 'a) \<times> 'w \<Rightarrow> 'e \<Rightarrow> ('w \<Rightarrow> bool) \<Rightarrow> bool" where
  "raises out e Q \<longleftrightarrow> fst out = Inl e \<and> Q (snd out)"

lemma yieldsE:
  assumes "yields out x Q"
  obtains w' where "out = (Inr x, w')" and "Q w'"
  using assms by (cases out) (auto simp: yields_def)

lemma raisesE:
  assumes "raises out e Q"
  obtains w' where "out = (Inl e, w')" and "Q w'"
  using assms by (cases out) (auto simp: raises_def)

lemma yieldsI [intro]: "Q w' \<Longrightarrow> yields (Inr x, w') x Q"
  by (simp add: yields_def)

lemma raisesI [intro]: "Q w' \<Longrightarrow> raises (Inl e, w') e Q"
  by (simp add: raises_def)

lemma yields_mono: "yields out x Q \<Longrightarrow> (\<And>w. Q w \<Longrightarrow> R w) \<Longrightarrow> yields out x R"
  by (simp add: yields_def)

section \<open>Lists\<close>

text \<open>The first element that satisfies a predicate, as \<open>find\<close>, and keyed lists of rows.\<close>

lemma find_Some_iff_distinct:
  assumes "distinct (map k xs)"
  shows "find (\<lambda>x. k x = i) xs = Some x \<longleftrightarrow> x \<in> set xs \<and> k x = i"
  using assms by (induction xs) auto

lemma find_None_key: "find (\<lambda>x. k x = i) xs = None \<longleftrightarrow> i \<notin> k ` set xs"
  by (auto simp: find_None_iff)

lemma find_append:
  "find P (xs @ ys) = (case find P xs of None \<Rightarrow> find P ys | Some x \<Rightarrow> Some x)"
  by (induction xs) auto

lemma find_map_key:
  assumes "\<And>x. k (f x) = k x"
  shows "find (\<lambda>x. k x = i) (map f xs) = map_option f (find (\<lambda>x. k x = i) xs)"
  by (induction xs) (auto simp: assms)

lemma filter_distinct_key:
  assumes "distinct (map k xs)"
  shows "filter (\<lambda>x. k x = i) xs = (case find (\<lambda>x. k x = i) xs of None \<Rightarrow> [] | Some x \<Rightarrow> [x])"
  using assms
proof (induction xs)
  case Nil
  then show ?case by simp
next
  case (Cons a xs)
  then show ?case
    by (cases "k a = i") (auto simp: filter_empty_conv find_None_key split: option.split)
qed

lemma last_take_nth:
  assumes "0 < n" and "n \<le> length xs"
  shows "last (take n xs) = xs ! (n - 1)"
  using assms by (subst last_conv_nth) auto

lemma sum_case_Inr_eq:
  "(case r of Inl e \<Rightarrow> Inl e | Inr x \<Rightarrow> f x) = Inr y \<longleftrightarrow> (\<exists>x. r = Inr x \<and> f x = Inr y)"
  by (cases r) auto

lemma sum_case_Inl_eq:
  "(case r of Inl e \<Rightarrow> Inl e | Inr x \<Rightarrow> f x) = Inl d \<longleftrightarrow>
   r = Inl d \<or> (\<exists>x. r = Inr x \<and> f x = Inl d)"
  by (cases r) auto

end
