(* ===== verification/Python_Text.thy ===== *)
theory Python_Text
  imports Prelude
begin

text \<open>
  What the program uses of Python's \<^verbatim>\<open>str\<close>.

  A value of type \<^typ>\<open>string\<close> stands for a \<^verbatim>\<open>str\<close> whose code points are below 256: the
  character with code \<open>n\<close> is the code point U+00\<open>n\<close>. On these strings the functions below are
  the ones of the standard library (CPython 3.12), the Latin-1 letters and white space included.
  Code points from 256 up are outside the model.
\<close>

section \<open>Characters\<close>

abbreviation code_point :: "char \<Rightarrow> nat" where
  "code_point c \<equiv> of_char c"

text \<open>\<open>str.isspace\<close>, which is also the class \<^verbatim>\<open>\s\<close> of a \<^verbatim>\<open>str\<close> pattern of \<^verbatim>\<open>re\<close>.\<close>

definition is_space :: "char \<Rightarrow> bool" where
  "is_space c = (let n = code_point c in
     9 \<le> n \<and> n \<le> 13 \<or> 28 \<le> n \<and> n \<le> 32 \<or> n = 133 \<or> n = 160)"

text \<open>\<open>str.lower\<close> on one character: A to Z and the Latin-1 capitals, which exclude U+00D7.\<close>

definition lower_char :: "char \<Rightarrow> char" where
  "lower_char c = (let n = code_point c in
     if 65 \<le> n \<and> n \<le> 90 \<or> 192 \<le> n \<and> n \<le> 222 \<and> n \<noteq> 215 then char_of (n + 32) else c)"

lemma code_point_less [simp]: "code_point c < 256"
  by simp

lemma code_point_char_of: "n < 256 \<Longrightarrow> code_point (char_of n) = n"
  by simp

lemma char_eq_iff_code: "c = d \<longleftrightarrow> code_point c = code_point d"
  by (metis char_of_char)

lemma code_point_lower:
  "code_point (lower_char c) =
   (let n = code_point c in
      if 65 \<le> n \<and> n \<le> 90 \<or> 192 \<le> n \<and> n \<le> 222 \<and> n \<noteq> 215 then n + 32 else n)"
  by (auto simp: lower_char_def Let_def code_point_char_of)

lemma lower_char_idem [simp]: "lower_char (lower_char c) = lower_char c"
  by (simp add: char_eq_iff_code code_point_lower Let_def)

lemma is_space_lower [simp]: "is_space (lower_char c) = is_space c"
  by (auto simp: is_space_def code_point_lower Let_def)

lemma lower_char_fixes:
  assumes "code_point d < 97"
  shows "lower_char c = d \<longleftrightarrow> c = d \<and> \<not> (65 \<le> code_point d \<and> code_point d \<le> 90)"
proof -
  have "lower_char c = d \<longleftrightarrow> code_point (lower_char c) = code_point d"
    by (rule char_eq_iff_code)
  also have "\<dots> \<longleftrightarrow>
      code_point c = code_point d \<and> \<not> (65 \<le> code_point d \<and> code_point d \<le> 90)"
    unfolding code_point_lower Let_def using assms by (simp del: of_char_eq_iff) linarith
  also have "code_point c = code_point d \<longleftrightarrow> c = d"
    by (rule char_eq_iff_code [symmetric])
  finally show ?thesis .
qed

lemma lower_char_at [simp]: "lower_char c = CHR ''@'' \<longleftrightarrow> c = CHR ''@''"
  by (subst lower_char_fixes) auto

lemma lower_char_dot [simp]: "lower_char c = CHR ''.'' \<longleftrightarrow> c = CHR ''.''"
  by (subst lower_char_fixes) auto

section \<open>Whole strings\<close>

definition lower :: "string \<Rightarrow> string" where
  "lower s = map lower_char s"

text \<open>\<open>strip_by P s\<close> removes the characters with \<open>P\<close> from both ends: \<open>s.strip()\<close> and
  \<open>s.strip(chars)\<close>.\<close>

definition strip_by :: "(char \<Rightarrow> bool) \<Rightarrow> string \<Rightarrow> string" where
  "strip_by P s = rev (dropWhile P (rev (dropWhile P s)))"

definition strip :: "string \<Rightarrow> string" where
  "strip s = strip_by is_space s"

lemma lower_idem [simp]: "lower (lower s) = lower s"
  by (simp add: lower_def)

lemma length_lower [simp]: "length (lower s) = length s"
  by (simp add: lower_def)

lemma strip_by_ends:
  "strip_by P s = [] \<or> \<not> P (hd (strip_by P s)) \<and> \<not> P (last (strip_by P s))"
proof (cases "dropWhile P s")
  case Nil
  have "strip_by P s = []" unfolding strip_by_def Nil by simp
  then show ?thesis ..
next
  case (Cons c t)
  then have c: "\<not> P c"
    by (metis hd_dropWhile list.sel(1) list.simps(3))
  have "dropWhile P (rev t @ [c]) \<noteq> []"
    using c by (simp add: dropWhile_eq_Nil_conv)
  moreover have "last (dropWhile P (rev t @ [c])) = c"
    using c by (simp add: dropWhile_append)
  moreover have "\<not> P (hd (dropWhile P (rev t @ [c])))"
    using calculation(1) by (rule hd_dropWhile)
  ultimately show ?thesis
    using c Cons by (simp add: strip_by_def hd_rev last_rev)
qed

lemma strip_by_fixpoint:
  assumes "s = [] \<or> \<not> P (hd s) \<and> \<not> P (last s)"
  shows "strip_by P s = s"
proof (cases s)
  case Nil
  then show ?thesis by (simp add: strip_by_def)
next
  case (Cons c t)
  then have "dropWhile P s = s"
    using assms by simp
  moreover have "dropWhile P (rev s) = rev s"
    using assms Cons by (metis dropWhile_eq_self_iff hd_rev list.distinct(1))
  ultimately show ?thesis by (simp add: strip_by_def)
qed

lemma strip_by_idem [simp]: "strip_by P (strip_by P s) = strip_by P s"
  by (rule strip_by_fixpoint) (rule strip_by_ends)

lemma strip_by_lower: "strip_by is_space (lower s) = lower (strip_by is_space s)"
  by (simp add: strip_by_def lower_def dropWhile_map rev_map comp_def)

lemma strip_lower_normal: "strip (lower (strip s)) = lower (strip s)"
  by (simp add: strip_def strip_by_lower)

lemma set_strip_by: "set (strip_by P s) \<subseteq> set s"
  by (auto simp: strip_by_def dest!: set_dropWhileD)

text \<open>\<open>s.replace(p, "")\<close> for a non-empty \<open>p\<close>: left to right, no overlaps.\<close>

function remove_all :: "string \<Rightarrow> string \<Rightarrow> string" where
  "remove_all p [] = []"
| "remove_all p (c # s) =
     (if p \<noteq> [] \<and> take (length p) (c # s) = p
      then remove_all p (drop (length p) (c # s))
      else c # remove_all p s)"
  by pat_completeness auto
termination
  by (relation "measure (\<lambda>(p, s). length s)") auto

declare remove_all.simps(2) [simp del]

lemma remove_all_absent:
  assumes "p \<noteq> []" and "hd p \<notin> set s"
  shows "remove_all p s = s"
  using assms
proof (induction s)
  case Nil
  then show ?case by simp
next
  case (Cons c s)
  have "take (length p) (c # s) \<noteq> p"
    using Cons.prems by (cases p) auto
  then show ?case
    using Cons by (simp add: remove_all.simps(2))
qed

lemma remove_all_single: "remove_all [d] s = filter (\<lambda>c. c \<noteq> d) s"
  by (induction s) (auto simp: remove_all.simps(2))

text \<open>\<open>p in s\<close>, \<open>s.startswith(p)\<close> and \<open>sep.join(xs)\<close>.\<close>

definition starts_with :: "string \<Rightarrow> string \<Rightarrow> bool" where
  "starts_with s p \<longleftrightarrow> take (length p) s = p"

fun contains_str :: "string \<Rightarrow> string \<Rightarrow> bool" where
  "contains_str p [] \<longleftrightarrow> p = []"
| "contains_str p (c # s) \<longleftrightarrow> take (length p) (c # s) = p \<or> contains_str p s"

fun join :: "string \<Rightarrow> string list \<Rightarrow> string" where
  "join sep [] = []"
| "join sep [x] = x"
| "join sep (x # y # xs) = x @ sep @ join sep (y # xs)"

lemma contains_str_iff: "contains_str p s \<longleftrightarrow> (\<exists>a b. s = a @ p @ b)"
proof (induction s)
  case Nil
  then show ?case by auto
next
  case (Cons c s)
  have "take (length p) (c # s) = p \<longleftrightarrow> (\<exists>b. c # s = p @ b)"
    by (metis append_eq_conv_conj append_take_drop_id)
  moreover have "(\<exists>a b. c # s = a @ p @ b) \<longleftrightarrow>
      (\<exists>b. c # s = p @ b) \<or> (\<exists>a b. s = a @ p @ b)"
    by (metis Cons_eq_append_conv append_Cons)
  ultimately show ?case
    using Cons.IH by simp
qed

section \<open>Numbers in text\<close>

definition digit_char :: "nat \<Rightarrow> char" where
  "digit_char d = char_of (48 + d)"

fun str_nat :: "nat \<Rightarrow> string" where
  "str_nat n = (if n < 10 then [digit_char n] else str_nat (n div 10) @ [digit_char (n mod 10)])"

declare str_nat.simps [simp del]

definition str_int :: "int \<Rightarrow> string" where
  "str_int i = (if i < 0 then CHR ''-'' # str_nat (nat (- i)) else str_nat (nat i))"

lemma str_nat_nonempty [simp]: "str_nat n \<noteq> []"
  by (subst str_nat.simps) simp

text \<open>\<open>len(s.encode())\<close>: UTF-8 takes two bytes for the code points U+0080 to U+00FF.\<close>

definition utf8_length :: "string \<Rightarrow> nat" where
  "utf8_length s = sum_list (map (\<lambda>c. if code_point c < 128 then 1 else 2) s)"

lemma utf8_length_ge: "length s \<le> utf8_length s"
  by (induction s) (auto simp: utf8_length_def)

text \<open>\<open>repr(s)\<close>: single quotes unless the text has a single quote and no double quote; backslash,
  the quote in use and the characters that are not printable are escaped.\<close>

definition hex_digit :: "nat \<Rightarrow> char" where
  "hex_digit d = (if d < 10 then char_of (48 + d) else char_of (87 + d))"

definition printable :: "char \<Rightarrow> bool" where
  "printable c = (let n = code_point c in 32 \<le> n \<and> n < 127 \<or> 160 < n \<and> n \<noteq> 173)"

definition repr_char :: "char \<Rightarrow> char \<Rightarrow> string" where
  "repr_char q c =
     (if c = q \<or> c = CHR 0x5C then [CHR 0x5C, c]
      else if c = CHR 0x09 then [CHR 0x5C, CHR ''t'']
      else if c = CHR 0x0A then [CHR 0x5C, CHR ''n'']
      else if c = CHR 0x0D then [CHR 0x5C, CHR ''r'']
      else if printable c then [c]
      else [CHR 0x5C, CHR ''x'', hex_digit (code_point c div 16), hex_digit (code_point c mod 16)])"

definition repr_str :: "string \<Rightarrow> string" where
  "repr_str s =
     (let q = (if CHR 0x27 \<in> set s \<and> CHR 0x22 \<notin> set s then CHR 0x22 else CHR 0x27)
      in q # concat (map (repr_char q) s) @ [q])"

lemma repr_char_printable:
  assumes "printable q"
  shows "list_all printable (repr_char q c)"
proof -
  have "code_point c div 16 < 16"
    using code_point_less [of c] by (simp add: less_mult_imp_div_less)
  moreover have "code_point c mod 16 < 16" by simp
  moreover have "d < 16 \<Longrightarrow> printable (hex_digit d)" for d
    by (simp add: hex_digit_def printable_def Let_def)
  ultimately show ?thesis
    using assms by (auto simp: repr_char_def printable_def)
qed

lemma repr_str_printable: "list_all printable (repr_str s)"
proof -
  define q where "q = (if CHR 0x27 \<in> set s \<and> CHR 0x22 \<notin> set s then CHR 0x22 else CHR 0x27)"
  have q: "printable q"
    by (simp add: q_def printable_def)
  have "list_all printable (concat (map (repr_char q) s))"
    using repr_char_printable [OF q] by (induction s) (simp_all add: list_all_append)
  with q show ?thesis
    by (simp add: repr_str_def q_def [symmetric])
qed

end
