(* ===== verification/Python_Re.thy ===== *)
theory Python_Re
  imports Python_Text
begin

text \<open>
  The fragment of Python's \<^verbatim>\<open>re\<close> the program uses: a pattern is a sequence of greedy repetitions
  of a character class (a literal is a class repeated exactly once) and the anchors \<^verbatim>\<open>$\<close>, which
  also matches before a final newline, and \<^verbatim>\<open>\Z\<close>. Matching backtracks: a repetition first takes
  as many characters as it can and gives them back one at a time. The anchor \<^verbatim>\<open>^\<close> holds at the
  position where \<^verbatim>\<open>match\<close> starts and is left out.
\<close>

datatype re_item =
    Rep "char \<Rightarrow> bool" nat "nat option"
  | Dollar
  | Eos

type_synonym re_pattern = "re_item list"

definition lit :: "char \<Rightarrow> re_item" where
  "lit c = Rep (\<lambda>d. d = c) 1 (Some 1)"

definition newline :: char where
  "newline = CHR 0x0A"

fun first_some :: "'a option list \<Rightarrow> 'a option" where
  "first_some [] = None"
| "first_some (None # xs) = first_some xs"
| "first_some (Some x # xs) = Some x"

text \<open>How many characters a greedy repetition can take at most.\<close>

definition rep_max :: "(char \<Rightarrow> bool) \<Rightarrow> nat option \<Rightarrow> string \<Rightarrow> nat" where
  "rep_max P hi s =
     (case hi of None \<Rightarrow> length (takeWhile P s) | Some h \<Rightarrow> min h (length (takeWhile P s)))"

text \<open>The text left over by the first match at the start of \<open>s\<close>, if there is one.\<close>

primrec re_run :: "re_pattern \<Rightarrow> string \<Rightarrow> string option" where
  "re_run [] s = Some s"
| "re_run (it # r) s =
     (case it of
        Rep P lo hi \<Rightarrow> first_some (map (\<lambda>k. re_run r (drop k s)) (rev [lo..<Suc (rep_max P hi s)]))
      | Dollar \<Rightarrow> (if s = [] \<or> s = [newline] then re_run r s else None)
      | Eos \<Rightarrow> (if s = [] then re_run r s else None))"

definition re_match :: "re_pattern \<Rightarrow> string \<Rightarrow> bool" where
  "re_match r s \<longleftrightarrow> re_run r s \<noteq> None"

definition re_fullmatch :: "re_pattern \<Rightarrow> string \<Rightarrow> bool" where
  "re_fullmatch r s \<longleftrightarrow> re_run (r @ [Eos]) s \<noteq> None"

section \<open>What a pattern matches\<close>

lemma first_some_None: "first_some xs = None \<longleftrightarrow> (\<forall>x \<in> set xs. x = None)"
  by (induction xs rule: first_some.induct) auto

lemma le_rep_max:
  "k \<le> rep_max P hi s \<longleftrightarrow>
   k \<le> length s \<and> list_all P (take k s) \<and> (\<forall>h. hi = Some h \<longrightarrow> k \<le> h)"
proof -
  have "k \<le> length (takeWhile P s) \<longleftrightarrow> k \<le> length s \<and> list_all P (take k s)"
  proof
    assume k: "k \<le> length (takeWhile P s)"
    then have "take k s = take k (takeWhile P s)"
      by (metis min.absorb1 take_take takeWhile_eq_take)
    then have "list_all P (take k s)"
      by (auto simp: list_all_iff dest: in_set_takeD set_takeWhileD)
    with k show "k \<le> length s \<and> list_all P (take k s)"
      using length_takeWhile_le [of P s] by simp
  next
    assume k: "k \<le> length s \<and> list_all P (take k s)"
    then have "takeWhile P (take k s @ drop k s) = take k s @ takeWhile P (drop k s)"
      by (intro takeWhile_append2) (auto simp: list_all_iff)
    then show "k \<le> length (takeWhile P s)"
      using k by simp
  qed
  then show ?thesis
    by (auto simp: rep_max_def split: option.splits)
qed

lemma re_run_Rep_count:
  "re_run (Rep P lo hi # r) s \<noteq> None \<longleftrightarrow>
   (\<exists>k. lo \<le> k \<and> k \<le> rep_max P hi s \<and> re_run r (drop k s) \<noteq> None)"
  by (auto simp: first_some_None less_Suc_eq_le simp del: upt_Suc)

lemma re_run_Rep:
  "re_run (Rep P lo hi # r) s \<noteq> None \<longleftrightarrow>
   (\<exists>u v. s = u @ v \<and> lo \<le> length u \<and> (\<forall>h. hi = Some h \<longrightarrow> length u \<le> h) \<and>
      list_all P u \<and> re_run r v \<noteq> None)"
proof
  assume "re_run (Rep P lo hi # r) s \<noteq> None"
  then obtain k where k: "lo \<le> k" "k \<le> rep_max P hi s" "re_run r (drop k s) \<noteq> None"
    unfolding re_run_Rep_count by blast
  then have "k \<le> length s" "list_all P (take k s)" "\<forall>h. hi = Some h \<longrightarrow> k \<le> h"
    by (simp_all add: le_rep_max)
  with k show "\<exists>u v. s = u @ v \<and> lo \<le> length u \<and> (\<forall>h. hi = Some h \<longrightarrow> length u \<le> h) \<and>
      list_all P u \<and> re_run r v \<noteq> None"
    by (intro exI [of _ "take k s"] exI [of _ "drop k s"]) auto
next
  assume "\<exists>u v. s = u @ v \<and> lo \<le> length u \<and> (\<forall>h. hi = Some h \<longrightarrow> length u \<le> h) \<and>
      list_all P u \<and> re_run r v \<noteq> None"
  then obtain u v where uv: "s = u @ v" "lo \<le> length u" "\<forall>h. hi = Some h \<longrightarrow> length u \<le> h"
      "list_all P u" "re_run r v \<noteq> None"
    by blast
  then have "length u \<le> rep_max P hi s"
    by (simp add: le_rep_max)
  with uv show "re_run (Rep P lo hi # r) s \<noteq> None"
    unfolding re_run_Rep_count by (intro exI [of _ "length u"]) simp
qed

lemma re_run_lit:
  "re_run (lit c # r) s \<noteq> None \<longleftrightarrow> (\<exists>v. s = c # v \<and> re_run r v \<noteq> None)"
proof -
  have "1 \<le> length u \<and> length u \<le> 1 \<and> list_all (\<lambda>d. d = c) u \<longleftrightarrow> u = [c]" for u
    by (cases u) auto
  then have "re_run (lit c # r) s \<noteq> None \<longleftrightarrow> (\<exists>u v. s = u @ v \<and> u = [c] \<and> re_run r v \<noteq> None)"
    unfolding lit_def re_run_Rep by (metis option.inject)
  then show ?thesis by simp
qed

lemma re_run_Dollar:
  "re_run [Dollar] s \<noteq> None \<longleftrightarrow> s = [] \<or> s = [newline]"
  by simp

lemma re_run_Eos: "re_run [Eos] s \<noteq> None \<longleftrightarrow> s = []"
  by simp

lemmas re_language = re_run_Rep re_run_lit re_run_Dollar re_run_Eos

lemma re_fullmatch_class:
  "re_fullmatch [Rep P lo (Some hi)] s \<longleftrightarrow> lo \<le> length s \<and> length s \<le> hi \<and> list_all P s"
  unfolding re_fullmatch_def append_Cons append_Nil re_run_Rep re_run_Eos by auto

end
