(* ===== verification/Python_Uuid.thy ===== *)
theory Python_Uuid
  imports Python_Text "HOL-Library.Word"
begin

text \<open>
  Python's \<^verbatim>\<open>uuid.UUID\<close>: a 128-bit value, printed in the 8-4-4-4-12 form and read back by the
  constructor \<^verbatim>\<open>UUID(text)\<close>, which is much more liberal than the printed form (URN prefixes,
  braces, hyphens anywhere, and whatever \<^verbatim>\<open>int(text, 16)\<close> accepts in 32 characters). The constructor
  raises \<^verbatim>\<open>ValueError\<close> where \<open>uuid_parse\<close> is \<open>None\<close>.
\<close>

type_synonym uuid = "128 word"

section \<open>Printing\<close>

fun hex_fixed :: "nat \<Rightarrow> nat \<Rightarrow> string" where
  "hex_fixed 0 n = []"
| "hex_fixed (Suc k) n = hex_fixed k (n div 16) @ [hex_digit (n mod 16)]"

definition uuid_str :: "uuid \<Rightarrow> string" where
  "uuid_str u = (let h = hex_fixed 32 (unat u) in
     take 8 h @ ''-'' @ take 4 (drop 8 h) @ ''-'' @ take 4 (drop 12 h) @ ''-'' @
     take 4 (drop 16 h) @ ''-'' @ drop 20 h)"

section \<open>Reading\<close>

text \<open>\<open>int(text, 16)\<close>: white space around, a sign, a prefix \<open>0x\<close> that one underscore may follow,
  and digits with single underscores between them.\<close>

definition is_int_space :: "char \<Rightarrow> bool" where
  "is_int_space c = (let n = code_point c in 9 \<le> n \<and> n \<le> 13 \<or> n = 32 \<or> n = 133 \<or> n = 160)"

definition hex_val :: "char \<Rightarrow> nat option" where
  "hex_val c = (let n = code_point c in
     if 48 \<le> n \<and> n \<le> 57 then Some (n - 48)
     else if 97 \<le> n \<and> n \<le> 102 then Some (n - 87)
     else if 65 \<le> n \<and> n \<le> 70 then Some (n - 55)
     else None)"

text \<open>The flag says that an underscore may not come next (at the start and after an underscore).\<close>

fun read_digits :: "nat \<Rightarrow> bool \<Rightarrow> string \<Rightarrow> nat option" where
  "read_digits acc sep [] = (if sep then None else Some acc)"
| "read_digits acc sep (c # s) =
     (if c = CHR ''_'' then (if sep then None else read_digits acc True s)
      else (case hex_val c of None \<Rightarrow> None | Some d \<Rightarrow> read_digits (16 * acc + d) False s))"

definition drop_hex_prefix :: "string \<Rightarrow> string" where
  "drop_hex_prefix s =
     (if starts_with s ''0x'' \<or> starts_with s ''0X''
      then (case drop 2 s of c # r \<Rightarrow> (if c = CHR ''_'' then r else c # r) | [] \<Rightarrow> [])
      else s)"

definition int_base16 :: "string \<Rightarrow> int option" where
  "int_base16 s =
     (case strip_by is_int_space s of
        [] \<Rightarrow> None
      | c # r \<Rightarrow>
          (if c = CHR ''-'' then map_option (\<lambda>n. - int n) (read_digits 0 True (drop_hex_prefix r))
           else if c = CHR ''+'' then map_option int (read_digits 0 True (drop_hex_prefix r))
           else map_option int (read_digits 0 True (drop_hex_prefix (c # r)))))"

definition uuid_parse :: "string \<Rightarrow> uuid option" where
  "uuid_parse s =
     (let h = remove_all ''uuid:'' (remove_all ''urn:'' s);
          h = remove_all ''-'' (strip_by (\<lambda>c. c \<in> {CHR ''{'', CHR ''}''}) h)
      in if length h \<noteq> 32 then None
         else case int_base16 h of
           None \<Rightarrow> None
         | Some i \<Rightarrow> (if 0 \<le> i \<and> i < 2 ^ 128 then Some (word_of_int i) else None))"

section \<open>The printed form\<close>

definition hex_chars :: "char set" where
  "hex_chars = hex_digit ` {0..<16}"

lemma code_point_hex_digit: "d < 16 \<Longrightarrow> code_point (hex_digit d) = (if d < 10 then 48 + d else 87 + d)"
  by (simp add: hex_digit_def)

lemma hex_digit_in [simp]: "d < 16 \<Longrightarrow> hex_digit d \<in> hex_chars"
  by (simp add: hex_chars_def)

lemma hex_val_digit [simp]: "d < 16 \<Longrightarrow> hex_val (hex_digit d) = Some d"
  by (auto simp: hex_val_def code_point_hex_digit Let_def)

lemma hex_chars_code:
  assumes "c \<in> hex_chars"
  shows "48 \<le> code_point c \<and> code_point c \<le> 57 \<or> 97 \<le> code_point c \<and> code_point c \<le> 102"
  using assms by (auto simp: hex_chars_def code_point_hex_digit split: if_splits)

lemma set_hex_fixed: "set (hex_fixed k n) \<subseteq> hex_chars"
  by (induction k n rule: hex_fixed.induct) auto

lemma length_hex_fixed [simp]: "length (hex_fixed k n) = k"
  by (induction k n rule: hex_fixed.induct) auto

lemma hex_chars_props:
  "\<forall>c \<in> hex_chars. hex_val c \<noteq> None \<and> c \<noteq> CHR ''_'' \<and> c \<noteq> CHR ''-'' \<and> c \<noteq> CHR ''+'' \<and>
     c \<noteq> CHR ''x'' \<and> c \<noteq> CHR ''X'' \<and> c \<noteq> CHR ''u'' \<and> c \<noteq> CHR ''{'' \<and> c \<noteq> CHR ''}'' \<and>
     c \<noteq> CHR '':'' \<and> \<not> is_int_space c \<and> \<not> is_space c"
  by (auto dest!: hex_chars_code simp: hex_val_def is_int_space_def is_space_def Let_def)

lemma read_digits_hex:
  assumes "set xs \<subseteq> hex_chars"
  shows "read_digits acc sep xs =
    (if xs = [] \<and> sep then None else Some (foldl (\<lambda>a c. 16 * a + the (hex_val c)) acc xs))"
  using assms
proof (induction xs arbitrary: acc sep)
  case Nil
  then show ?case by simp
next
  case (Cons c xs)
  then obtain d where "hex_val c = Some d" "c \<noteq> CHR ''_''"
    using hex_chars_props by fastforce
  with Cons show ?case by simp
qed

lemma foldl_hex_fixed:
  "foldl (\<lambda>a c. 16 * a + the (hex_val c)) acc (hex_fixed k n) = 16 ^ k * acc + n mod 16 ^ k"
proof (induction k n arbitrary: acc rule: hex_fixed.induct)
  case (1 n)
  then show ?case by simp
next
  case (2 k n)
  have "16 * (n div 16 mod 16 ^ k) + n mod 16 = n mod (16 * 16 ^ k)"
    using mod_mult2_eq [of n 16 "16 ^ k"] by simp
  with 2 show ?case by (simp add: algebra_simps)
qed

lemma drop_hex_prefix_hex:
  assumes "set s \<subseteq> hex_chars"
  shows "drop_hex_prefix s = s"
proof -
  have "CHR ''x'' \<notin> set s" "CHR ''X'' \<notin> set s"
    using assms hex_chars_props by blast+
  then have "take 2 s \<noteq> ''0x''" "take 2 s \<noteq> ''0X''"
    by (metis in_set_takeD list.set_intros)+
  then have "\<not> starts_with s ''0x''" "\<not> starts_with s ''0X''"
    by (simp_all add: starts_with_def numeral_2_eq_2)
  then show ?thesis by (simp add: drop_hex_prefix_def)
qed

lemma strip_by_absent: "\<forall>c \<in> set s. \<not> P c \<Longrightarrow> strip_by P s = s"
  by (rule strip_by_fixpoint) (cases s, auto)

lemma int_base16_hex_fixed:
  assumes "0 < k"
  shows "int_base16 (hex_fixed k n) = Some (int (n mod 16 ^ k))"
proof -
  let ?h = "hex_fixed k n"
  have "?h \<noteq> []"
    using assms by (metis length_0_conv length_hex_fixed not_gr_zero)
  then obtain c r where h: "?h = c # r"
    by (cases ?h) auto
  have "c \<in> hex_chars"
    using set_hex_fixed [of k n] h by auto
  then have "c \<noteq> CHR ''-''" "c \<noteq> CHR ''+''"
    using hex_chars_props by blast+
  moreover have "strip_by is_int_space ?h = ?h"
    using set_hex_fixed [of k n] hex_chars_props by (intro strip_by_absent) blast
  moreover have "read_digits 0 True (drop_hex_prefix ?h) = Some (n mod 16 ^ k)"
    using \<open>?h \<noteq> []\<close>
    by (simp add: drop_hex_prefix_hex [OF set_hex_fixed] read_digits_hex [OF set_hex_fixed]
        foldl_hex_fixed)
  ultimately show ?thesis
    by (simp add: int_base16_def h [symmetric]) (simp add: h)
qed

lemma five_groups:
  "take 8 h @ take 4 (drop 8 h) @ take 4 (drop 12 h) @ take 4 (drop 16 h) @ drop 20 h = h"
proof -
  have "take 4 (drop n h) @ drop (n + 4) h = drop n h" for n
    by (metis add.commute append_take_drop_id drop_drop)
  from this [of 8] this [of 12] this [of 16] show ?thesis
    by simp
qed

lemma set_uuid_str: "set (uuid_str u) \<subseteq> insert (CHR ''-'') hex_chars"
  using set_hex_fixed [of 32 "unat u"]
  by (auto simp: uuid_str_def Let_def dest!: in_set_takeD in_set_dropD)

lemma length_uuid_str [simp]: "length (uuid_str u) = 36"
  by (simp add: uuid_str_def Let_def)

lemma uuid_str_compact: "filter (\<lambda>c. c \<noteq> CHR ''-'') (uuid_str u) = hex_fixed 32 (unat u)"
proof -
  let ?h = "hex_fixed 32 (unat u)"
  have "CHR ''-'' \<notin> set ?h"
    using set_hex_fixed hex_chars_props by blast
  then have keep: "filter (\<lambda>c. c \<noteq> CHR ''-'') t = t" if "set t \<subseteq> set ?h" for t
    using that by (auto simp: filter_id_conv)
  have "set (take m (drop n ?h)) \<subseteq> set ?h" for m n
    using set_take_subset set_drop_subset by (rule subset_trans)
  then have "filter (\<lambda>c. c \<noteq> CHR ''-'') (take m (drop n ?h)) = take m (drop n ?h)"
      "filter (\<lambda>c. c \<noteq> CHR ''-'') (take m ?h) = take m ?h"
      "filter (\<lambda>c. c \<noteq> CHR ''-'') (drop n ?h) = drop n ?h" for m n
    by (simp_all add: keep set_take_subset set_drop_subset)
  then show ?thesis
    by (simp add: uuid_str_def Let_def five_groups)
qed

lemma uuid_parse_str [simp]: "uuid_parse (uuid_str u) = Some u"
proof -
  have set: "set (uuid_str u) \<subseteq> insert (CHR ''-'') hex_chars"
    by (rule set_uuid_str)
  then have "CHR ''u'' \<notin> set (uuid_str u)"
    using hex_chars_props by blast
  then have "remove_all ''uuid:'' (remove_all ''urn:'' (uuid_str u)) = uuid_str u"
    by (simp add: remove_all_absent)
  moreover have "strip_by (\<lambda>c. c \<in> {CHR ''{'', CHR ''}''}) (uuid_str u) = uuid_str u"
  proof (rule strip_by_absent, rule ballI)
    fix c assume "c \<in> set (uuid_str u)"
    then have "c = CHR ''-'' \<or> c \<in> hex_chars"
      using set by blast
    then show "c \<notin> {CHR ''{'', CHR ''}''}"
      using hex_chars_props by auto
  qed
  ultimately have "uuid_parse (uuid_str u) =
      (case int_base16 (hex_fixed 32 (unat u)) of None \<Rightarrow> None
       | Some i \<Rightarrow> (if 0 \<le> i \<and> i < 2 ^ 128 then Some (word_of_int i) else None))"
    unfolding uuid_parse_def Let_def remove_all_single uuid_str_compact
    by (simp add: remove_all_single uuid_str_compact)
  moreover have "unat u < 16 ^ 32"
    using unsigned_less [of u] by simp
  ultimately show ?thesis
    by (simp add: int_base16_hex_fixed)
qed

lemma uuid_str_inject [simp]: "uuid_str u = uuid_str v \<longleftrightarrow> u = v"
  by (metis option.inject uuid_parse_str)

lemma uuid_str_no_colon: "CHR '':'' \<notin> set (uuid_str u)"
  using set_uuid_str [of u] hex_chars_props by blast

end
