(* ===== verification/Domain_Errors.thy ===== *)
theory Domain_Errors
  imports Prelude
begin

text \<open>
  The exceptions of the program: the domain errors (\<^verbatim>\<open>app/domain/shared/exceptions.py\<close>,
  \<^verbatim>\<open>app/domain/users/exceptions.py\<close>, \<^verbatim>\<open>app/domain/auth/exceptions.py\<close>) with their class hierarchy
  and default messages, and the exceptions of other layers that the code raises, catches or maps.
\<close>

section \<open>Domain errors\<close>

datatype domain_class =
    DomainError
  | ValidationError
  | UserNotFoundError
  | EmailAlreadyExistsError
  | InvalidCredentialsError
  | InvalidTokenError
  | TokenExpiredError

text \<open>The direct base class within the hierarchy, and the part of the method resolution order that
  is made of domain errors (\<^verbatim>\<open>Exception\<close>, \<^verbatim>\<open>BaseException\<close> and \<^verbatim>\<open>object\<close> follow).\<close>

fun base_class :: "domain_class \<Rightarrow> domain_class option" where
  "base_class DomainError = None"
| "base_class ValidationError = Some DomainError"
| "base_class UserNotFoundError = Some DomainError"
| "base_class EmailAlreadyExistsError = Some DomainError"
| "base_class InvalidCredentialsError = Some DomainError"
| "base_class InvalidTokenError = Some DomainError"
| "base_class TokenExpiredError = Some InvalidTokenError"

fun class_depth :: "domain_class \<Rightarrow> nat" where
  "class_depth DomainError = 0"
| "class_depth TokenExpiredError = 2"
| "class_depth _ = 1"

function domain_mro :: "domain_class \<Rightarrow> domain_class list" where
  "domain_mro c = c # (case base_class c of None \<Rightarrow> [] | Some b \<Rightarrow> domain_mro b)"
  by pat_completeness auto
termination
proof (relation "measure class_depth")
  fix c b
  assume "base_class c = Some b"
  then show "(b, c) \<in> measure class_depth"
    by (cases c) auto
qed simp

declare domain_mro.simps [simp del]

definition domain_subclass :: "domain_class \<Rightarrow> domain_class \<Rightarrow> bool" where
  "domain_subclass c d \<longleftrightarrow> d \<in> set (domain_mro c)"

fun default_message :: "domain_class \<Rightarrow> string" where
  "default_message DomainError = ''A domain error occurred.''"
| "default_message ValidationError = ''Validation failed.''"
| "default_message UserNotFoundError = ''User not found.''"
| "default_message EmailAlreadyExistsError = ''A user with this email already exists.''"
| "default_message InvalidCredentialsError = ''Invalid email or password.''"
| "default_message InvalidTokenError = ''Invalid token.''"
| "default_message TokenExpiredError = ''Token has expired.''"

section \<open>All exceptions\<close>

text \<open>
  One entry of \<^verbatim>\<open>RequestValidationError.errors()\<close>: the path of the offending value, whose parts are
  names or list positions, the message and the machine-readable kind.
\<close>

datatype loc_part = Loc_Name string | Loc_Index int

record issue =
  issue_loc :: "loc_part list"
  issue_msg :: string
  issue_type :: string

text \<open>
  \<open>Domain\<close> is an instance of a domain error class with its message. \<open>Http_Exception\<close> is FastAPI's
  \<^verbatim>\<open>HTTPException\<close> with status, detail and headers, \<open>Request_Validation\<close> its \<^verbatim>\<open>RequestValidationError\<close>,
  \<open>Integrity_Error\<close> SQLAlchemy's with the text of the driver's error, and \<open>Python_Error\<close> any other
  exception, by its class name.
\<close>

datatype exn =
    Domain domain_class string
  | Http_Exception int string "(string \<times> string) list option"
  | Request_Validation "issue list"
  | Integrity_Error string
  | Python_Error string

text \<open>\<^verbatim>\<open>DomainError.__init__\<close>: the class's message unless one is given. Raising the class itself
  gives none.\<close>

definition domain_error_init :: "domain_class \<Rightarrow> string option \<Rightarrow> exn" where
  "domain_error_init cls message =
     Domain cls (case message of None \<Rightarrow> default_message cls | Some m \<Rightarrow> m)"

abbreviation raised :: "domain_class \<Rightarrow> exn" where
  "raised cls \<equiv> domain_error_init cls None"

text \<open>\<open>isinstance(e, cls)\<close> for a domain error class.\<close>

fun is_domain :: "domain_class \<Rightarrow> exn \<Rightarrow> bool" where
  "is_domain cls (Domain c m) = domain_subclass c cls"
| "is_domain cls _ = False"

lemma domain_mro_eqs [simp]:
  "domain_mro DomainError = [DomainError]"
  "domain_mro ValidationError = [ValidationError, DomainError]"
  "domain_mro UserNotFoundError = [UserNotFoundError, DomainError]"
  "domain_mro EmailAlreadyExistsError = [EmailAlreadyExistsError, DomainError]"
  "domain_mro InvalidCredentialsError = [InvalidCredentialsError, DomainError]"
  "domain_mro InvalidTokenError = [InvalidTokenError, DomainError]"
  "domain_mro TokenExpiredError = [TokenExpiredError, InvalidTokenError, DomainError]"
  by (simp_all add: domain_mro.simps)

lemma domain_error_init_simps [simp]:
  "domain_error_init cls None = Domain cls (default_message cls)"
  "domain_error_init cls (Some m) = Domain cls m"
  by (simp_all add: domain_error_init_def)

text \<open>The classes are ordered by inheritance, under \<open>DomainError\<close>.\<close>

instantiation domain_class :: order_top
begin

definition less_eq_domain_class :: "domain_class \<Rightarrow> domain_class \<Rightarrow> bool" where
  "less_eq_domain_class c d \<longleftrightarrow> domain_subclass c d"

definition less_domain_class :: "domain_class \<Rightarrow> domain_class \<Rightarrow> bool" where
  "less_domain_class c d \<longleftrightarrow> domain_subclass c d \<and> \<not> domain_subclass d c"

definition top_domain_class :: domain_class where
  "top_domain_class = DomainError"

instance
proof
  fix a b c :: domain_class
  show "a \<le> a" "a \<le> top"
    by (cases a; simp add: less_eq_domain_class_def top_domain_class_def domain_subclass_def)+
  show "a < b \<longleftrightarrow> a \<le> b \<and> \<not> b \<le> a"
    by (simp add: less_eq_domain_class_def less_domain_class_def)
  show "a \<le> b \<Longrightarrow> b \<le> c \<Longrightarrow> a \<le> c"
    by (cases a; cases b) (auto simp: less_eq_domain_class_def domain_subclass_def)
  show "a \<le> b \<Longrightarrow> b \<le> a \<Longrightarrow> a = b"
    by (cases a; cases b) (simp_all add: less_eq_domain_class_def domain_subclass_def)
qed

end

lemma domain_subclass_refl [simp]: "domain_subclass c c"
  by (rule order_refl [of c, unfolded less_eq_domain_class_def])

lemma is_domain_root: "is_domain DomainError e \<longleftrightarrow> (\<exists>c m. e = Domain c m)"
  using top_greatest [where 'a = domain_class]
  by (cases e) (simp_all add: less_eq_domain_class_def top_domain_class_def)

end
