(* ===== verification/Value_Objects.thy ===== *)
theory Value_Objects
  imports Python_Re Python_Uuid Domain_Errors
begin

text \<open>
  The value objects of the Users domain (\<^verbatim>\<open>app/domain/users/value_objects.py\<close>). Each Python class
  validates in its initialiser, so an instance exists only if the smart constructor returned it:
  \<open>email_new\<close>, \<open>hashed_password_new\<close> and \<open>user_id_from_str\<close> are those initialisers, and
  \<open>email_wf\<close> and \<open>hashed_password_wf\<close> say that a value is one they return.
\<close>

section \<open>User ids\<close>

datatype user_id = UserId (uid_value: uuid)

text \<open>\<open>UserId.from_str\<close>; for a \<^verbatim>\<open>str\<close> argument \<^verbatim>\<open>UUID\<close> raises only \<^verbatim>\<open>ValueError\<close>.\<close>

definition user_id_from_str :: "string \<Rightarrow> exn + user_id" where
  "user_id_from_str raw =
     (case uuid_parse raw of
        None \<Rightarrow> Inl (domain_error_init ValidationError (Some ''Invalid user id.''))
      | Some u \<Rightarrow> Inr (UserId u))"

definition user_id_str :: "user_id \<Rightarrow> string" where
  "user_id_str i = uuid_str (uid_value i)"

section \<open>Email addresses\<close>

datatype email = Email (email_value: string)

definition address_char :: "char \<Rightarrow> bool" where
  "address_char c \<longleftrightarrow> c \<noteq> CHR ''@'' \<and> \<not> is_space c"

definition email_re :: re_pattern where
  "email_re =
     [Rep address_char 1 None, lit (CHR ''@''), Rep address_char 1 None, lit (CHR ''.''),
      Rep address_char 1 None, Dollar]"

definition email_new :: "string \<Rightarrow> exn + email" where
  "email_new value =
     (let normalised = lower (strip value) in
      if \<not> re_match email_re normalised
      then Inl (domain_error_init ValidationError
                  (Some (''Invalid email address: '' @ repr_str value)))
      else Inr (Email normalised))"

definition email_wf :: "email \<Rightarrow> bool" where
  "email_wf e \<longleftrightarrow> email_new (email_value e) = Inr e"

section \<open>Hashed passwords\<close>

datatype hashed_password = HashedPassword (hp_value: string)

definition hashed_password_new :: "string \<Rightarrow> exn + hashed_password" where
  "hashed_password_new value =
     (if value = [] then
        Inl (domain_error_init ValidationError (Some ''Hashed password must not be empty.''))
      else Inr (HashedPassword value))"

definition hashed_password_wf :: "hashed_password \<Rightarrow> bool" where
  "hashed_password_wf h \<longleftrightarrow> hp_value h \<noteq> []"

section \<open>What the initialisers accept\<close>

lemma user_id_roundtrip [simp]: "user_id_from_str (user_id_str i) = Inr i"
  by (simp add: user_id_from_str_def user_id_str_def)

lemma user_id_from_str_error:
  "user_id_from_str raw = Inl e \<Longrightarrow> is_domain ValidationError e"
  by (auto simp: user_id_from_str_def split: option.splits)

text \<open>
  A text that does not end in white space matches the pattern exactly when it is a local part, one
  \<open>@\<close>, and a domain with a dot that is neither its first nor its last character, all without
  further \<open>@\<close> and without white space. The final newline that \<^verbatim>\<open>$\<close> would allow cannot occur.
\<close>

lemma email_re_language:
  "re_match email_re s \<longleftrightarrow>
   (\<exists>l d t e. s = l @ CHR ''@'' # d @ CHR ''.'' # t @ e \<and> (e = [] \<or> e = [newline]) \<and>
      l \<noteq> [] \<and> d \<noteq> [] \<and> t \<noteq> [] \<and>
      list_all address_char l \<and> list_all address_char d \<and> list_all address_char t)"
  (is "?L \<longleftrightarrow> ?R")
proof
  assume ?L
  then obtain l v where 1: "s = l @ v" "1 \<le> length l" "list_all address_char l"
      "re_run (tl email_re) v \<noteq> None"
    unfolding re_match_def email_re_def re_run_Rep by auto
  from 1(4) obtain v2 where 2: "v = CHR ''@'' # v2" "re_run (tl (tl email_re)) v2 \<noteq> None"
    unfolding email_re_def list.sel re_run_lit by auto
  from 2(2) obtain d v3 where 3: "v2 = d @ v3" "1 \<le> length d" "list_all address_char d"
      "re_run (tl (tl (tl email_re))) v3 \<noteq> None"
    unfolding email_re_def list.sel re_run_Rep by auto
  from 3(4) obtain v4 where 4: "v3 = CHR ''.'' # v4" "re_run (tl (tl (tl (tl email_re)))) v4 \<noteq> None"
    unfolding email_re_def list.sel re_run_lit by auto
  from 4(2) obtain t e where 5: "v4 = t @ e" "1 \<le> length t" "list_all address_char t"
      "e = [] \<or> e = [newline]"
    unfolding email_re_def list.sel re_run_Rep re_run_Dollar by auto
  from 1 2 3 4 5 show ?R
    by (intro exI [of _ l] exI [of _ d] exI [of _ t] exI [of _ e]) auto
next
  assume ?R
  then obtain l d t e where s: "s = l @ CHR ''@'' # d @ CHR ''.'' # t @ e" "e = [] \<or> e = [newline]"
      "1 \<le> length l" "1 \<le> length d" "1 \<le> length t"
      "list_all address_char l" "list_all address_char d" "list_all address_char t"
    by (metis One_nat_def Suc_leI length_greater_0_conv)
  have "re_run [Rep address_char 1 None, Dollar] (t @ e) \<noteq> None"
    unfolding re_run_Rep re_run_Dollar using s by blast
  then have "re_run (lit (CHR ''.'') # [Rep address_char 1 None, Dollar]) (CHR ''.'' # t @ e) \<noteq> None"
    unfolding re_run_lit by blast
  then have "re_run (Rep address_char 1 None # lit (CHR ''.'') # [Rep address_char 1 None, Dollar])
      (d @ CHR ''.'' # t @ e) \<noteq> None"
    unfolding re_run_Rep [of _ _ _ "lit _ # _"] using s by blast
  then have "re_run (lit (CHR ''@'') # Rep address_char 1 None # lit (CHR ''.'')
      # [Rep address_char 1 None, Dollar]) (CHR ''@'' # d @ CHR ''.'' # t @ e) \<noteq> None"
    unfolding re_run_lit [of _ "Rep _ _ _ # lit _ # _"] by blast
  then show ?L
    unfolding re_match_def email_re_def re_run_Rep [of _ _ _ "lit _ # Rep _ _ _ # lit _ # _"]
    using s by blast
qed

lemma email_re_stripped:
  assumes "s = [] \<or> \<not> is_space (last s)"
  shows "re_match email_re s \<longleftrightarrow>
   (\<exists>l d t. s = l @ CHR ''@'' # d @ CHR ''.'' # t \<and> l \<noteq> [] \<and> d \<noteq> [] \<and> t \<noteq> [] \<and>
      list_all address_char l \<and> list_all address_char d \<and> list_all address_char t)"
proof -
  have "is_space newline"
    by (simp add: newline_def is_space_def)
  then have "s \<noteq> x @ y # z @ u # w @ [newline]" for x y z u w
    using assms by auto
  then show ?thesis
    unfolding email_re_language by (metis append.right_neutral)
qed

lemma lower_strip_ends: "lower (strip s) = [] \<or> \<not> is_space (last (lower (strip s)))"
proof -
  have "lower (strip s) = strip_by is_space (lower s)"
    by (simp add: strip_def strip_by_lower)
  then show ?thesis
    using strip_by_ends [of is_space "lower s"] by auto
qed

lemma email_new_Inr_iff:
  "email_new raw = Inr e \<longleftrightarrow> e = Email (lower (strip raw)) \<and> re_match email_re (lower (strip raw))"
  by (auto simp: email_new_def Let_def)

lemma email_new_Inl:
  "email_new raw = Inl x \<Longrightarrow> x = Domain ValidationError (''Invalid email address: '' @ repr_str raw)"
  by (auto simp: email_new_def Let_def split: if_splits)

lemma lower_strip_normal [simp]: "lower (strip (lower (strip s))) = lower (strip s)"
  by (simp add: strip_lower_normal)

lemma email_new_wf: "email_new raw = Inr e \<Longrightarrow> email_wf e"
  by (simp add: email_wf_def email_new_Inr_iff)

lemma email_wf_eq: "email_wf e \<Longrightarrow> email_new (email_value e) = Inr e"
  by (simp add: email_wf_def)

lemma hashed_password_new_Inr_iff:
  "hashed_password_new v = Inr h \<longleftrightarrow> h = HashedPassword v \<and> v \<noteq> []"
  by (auto simp: hashed_password_new_def)

lemma hashed_password_wf_eq: "hashed_password_wf h \<Longrightarrow> hashed_password_new (hp_value h) = Inr h"
  by (simp add: hashed_password_wf_def hashed_password_new_def)

end
