(* ===== verification/Python_Time.thy ===== *)
theory Python_Time
  imports Prelude
begin

text \<open>
  Python's \<^verbatim>\<open>datetime\<close> and \<^verbatim>\<open>timedelta\<close> at their resolution of a microsecond, the system clock
  (\<^verbatim>\<open>app/infrastructure/clock.py\<close>) and the time-zone normalisation at the persistence boundary
  (\<^verbatim>\<open>app/infrastructure/database/mappers/tz.py\<close>).

  A datetime is the reading of a wall clock, in microseconds from 1970-01-01T00:00:00 of that
  reading, with the offset of its zone from UTC when it is aware and without one when it is naive.
  The limits of the type (years 1 to 9999) are not modelled: integers are unbounded.
\<close>

record datetime =
  wall :: int
  tzinfo :: "int option"

definition utc :: "int \<Rightarrow> datetime" where
  "utc us = \<lparr>wall = us, tzinfo = Some 0\<rparr>"

definition is_aware :: "datetime \<Rightarrow> bool" where
  "is_aware d \<longleftrightarrow> tzinfo d \<noteq> None"

definition is_utc :: "datetime \<Rightarrow> bool" where
  "is_utc d \<longleftrightarrow> tzinfo d = Some 0"

text \<open>The microseconds from the epoch, \<^verbatim>\<open>timestamp() * 10**6\<close>. A naive value is read in the local
  zone of the process, here UTC.\<close>

definition timestamp_us :: "datetime \<Rightarrow> int" where
  "timestamp_us d = wall d - (case tzinfo d of None \<Rightarrow> 0 | Some off \<Rightarrow> off)"

text \<open>\<open>d <= e\<close>; comparing an aware with a naive datetime is a \<^verbatim>\<open>TypeError\<close> (\<open>None\<close>).\<close>

definition dt_le :: "datetime \<Rightarrow> datetime \<Rightarrow> bool option" where
  "dt_le d e =
     (case (tzinfo d, tzinfo e) of
        (None, None) \<Rightarrow> Some (wall d \<le> wall e)
      | (Some a, Some b) \<Rightarrow> Some (wall d - a \<le> wall e - b)
      | _ \<Rightarrow> None)"

definition dt_add :: "datetime \<Rightarrow> int \<Rightarrow> datetime" where
  "dt_add d us = d\<lparr>wall := wall d + us\<rparr>"

definition us_per_second :: int where
  "us_per_second = 1000000"

definition timedelta_minutes :: "int \<Rightarrow> int" where
  "timedelta_minutes n = n * 60 * us_per_second"

definition timedelta_days :: "int \<Rightarrow> int" where
  "timedelta_days n = n * 86400 * us_per_second"

text \<open>\<open>int(d.timestamp())\<close> truncates towards zero.\<close>

definition int_timestamp :: "datetime \<Rightarrow> int" where
  "int_timestamp d = (let us = timestamp_us d in
     if 0 \<le> us then us div us_per_second else - ((- us) div us_per_second))"

text \<open>\<open>as_utc\<close>: naive values read from the database are taken as UTC.\<close>

definition as_utc :: "datetime \<Rightarrow> datetime" where
  "as_utc value = (if tzinfo value \<noteq> None then value else value\<lparr>tzinfo := Some 0\<rparr>)"

lemma is_aware_as_utc [simp]: "is_aware (as_utc d)"
  by (simp add: as_utc_def is_aware_def)

lemma as_utc_aware [simp]: "is_aware d \<Longrightarrow> as_utc d = d"
  by (auto simp: as_utc_def is_aware_def)

lemma as_utc_idem [simp]: "as_utc (as_utc d) = as_utc d"
  by simp

lemma is_utc_aware: "is_utc d \<Longrightarrow> is_aware d"
  by (simp add: is_utc_def is_aware_def)

lemma is_utc_utc [simp]: "is_utc (utc us)"
  by (simp add: is_utc_def utc_def)

lemma is_utc_dt_add [simp]: "is_utc (dt_add d us) = is_utc d"
  by (simp add: is_utc_def dt_add_def)

lemma is_aware_dt_add [simp]: "is_aware (dt_add d us) = is_aware d"
  by (simp add: is_aware_def dt_add_def)

lemma timestamp_us_dt_add [simp]: "timestamp_us (dt_add d us) = timestamp_us d + us"
  by (simp add: timestamp_us_def dt_add_def)

lemma dt_le_aware:
  "is_aware d \<Longrightarrow> is_aware e \<Longrightarrow> dt_le d e = Some (timestamp_us d \<le> timestamp_us e)"
  by (auto simp: dt_le_def is_aware_def timestamp_us_def)

lemma dt_le_None: "dt_le d e = None \<longleftrightarrow> is_aware d \<noteq> is_aware e"
  by (auto simp: dt_le_def is_aware_def split: option.splits)

lemma int_timestamp_bounds:
  assumes "0 \<le> timestamp_us d"
  shows "int_timestamp d * us_per_second \<le> timestamp_us d"
    and "timestamp_us d < (int_timestamp d + 1) * us_per_second"
  using assms by (simp_all add: int_timestamp_def us_per_second_def Let_def)

lemma int_timestamp_mono: "0 \<le> us \<Longrightarrow> int_timestamp d \<le> int_timestamp (dt_add d us)"
proof -
  assume us: "0 \<le> us"
  let ?t = "timestamp_us d"
  show ?thesis
  proof (cases "0 \<le> ?t")
    case True
    then show ?thesis
      using us by (simp add: int_timestamp_def Let_def us_per_second_def zdiv_mono1)
  next
    case False
    have "- (- ?t div us_per_second) \<le> 0"
      using False by (simp add: us_per_second_def pos_imp_zdiv_nonneg_iff)
    moreover have "0 \<le> ?t + us \<Longrightarrow> 0 \<le> (?t + us) div us_per_second"
      by (simp add: us_per_second_def pos_imp_zdiv_nonneg_iff)
    moreover have "- (?t + us) div us_per_second \<le> - ?t div us_per_second"
      using us by (simp add: us_per_second_def zdiv_mono1)
    ultimately show ?thesis
      using False by (auto simp: int_timestamp_def Let_def)
  qed
qed

end
