(* ===== verification/Entities.thy ===== *)
theory Entities
  imports Value_Objects Python_Time
begin

text \<open>
  The aggregates: the building blocks of \<^verbatim>\<open>app/domain/shared/entity.py\<close>, the \<^verbatim>\<open>User\<close> aggregate with
  its domain event (\<^verbatim>\<open>app/domain/users/entities.py\<close>, \<^verbatim>\<open>events.py\<close>) and the server-side state of an
  issued refresh token (\<^verbatim>\<open>app/domain/auth/entities.py\<close>).
\<close>

section \<open>Entities and aggregate roots\<close>

text \<open>
  \<^verbatim>\<open>Entity.__eq__\<close>: an operand of another class is \<^verbatim>\<open>NotImplemented\<close> (\<open>None\<close>); here the operand is
  \<open>Inl\<close> of an instance of the same class or \<open>Inr\<close> of anything else. \<^verbatim>\<open>Entity.__hash__\<close> hashes the
  pair of the class name and the identity.
\<close>

definition entity_eq :: "('e \<Rightarrow> 'i) \<Rightarrow> 'e \<Rightarrow> 'e + 'x \<Rightarrow> bool option" where
  "entity_eq identity self other =
     (case other of Inr _ \<Rightarrow> None | Inl o' \<Rightarrow> Some (identity self = identity o'))"

definition entity_hash_key :: "string \<Rightarrow> ('e \<Rightarrow> 'i) \<Rightarrow> 'e \<Rightarrow> string \<times> 'i" where
  "entity_hash_key cls identity self = (cls, identity self)"

datatype domain_event =
  UserRegistered (event_user_id: uuid) (event_email: string) (event_occurred_at: datetime)

record aggregate_root =
  agg_events :: "domain_event list"

definition record_event :: "domain_event \<Rightarrow> 'a aggregate_root_scheme \<Rightarrow> 'a aggregate_root_scheme" where
  "record_event event a = a\<lparr>agg_events := agg_events a @ [event]\<rparr>"

definition pull_events :: "'a aggregate_root_scheme \<Rightarrow> domain_event list \<times> 'a aggregate_root_scheme" where
  "pull_events a = (agg_events a, a\<lparr>agg_events := []\<rparr>)"

section \<open>The User aggregate\<close>

record user = aggregate_root +
  usr_id :: user_id
  usr_email :: email
  usr_hashed_password :: hashed_password
  usr_is_active :: bool
  usr_created_at :: datetime

definition user_identity :: "user \<Rightarrow> user_id" where
  "user_identity u = usr_id u"

definition user_create :: "user_id \<Rightarrow> email \<Rightarrow> hashed_password \<Rightarrow> datetime \<Rightarrow> user" where
  "user_create user_id email hashed_password created_at =
     record_event (UserRegistered (uid_value user_id) (email_value email) created_at)
       \<lparr>agg_events = [], usr_id = user_id, usr_email = email, usr_hashed_password = hashed_password,
        usr_is_active = True, usr_created_at = created_at\<rparr>"

definition user_deactivate :: "user \<Rightarrow> user" where
  "user_deactivate u = u\<lparr>usr_is_active := False\<rparr>"

definition user_change_password :: "hashed_password \<Rightarrow> user \<Rightarrow> user" where
  "user_change_password hashed_password u = u\<lparr>usr_hashed_password := hashed_password\<rparr>"

text \<open>The type invariant of a user whose parts came out of the value objects' initialisers and the
  clock, and the lengths the columns of the users table hold.\<close>

definition user_wf :: "user \<Rightarrow> bool" where
  "user_wf u \<longleftrightarrow> email_wf (usr_email u) \<and> hashed_password_wf (usr_hashed_password u) \<and>
     is_utc (usr_created_at u)"

definition user_fits :: "user \<Rightarrow> bool" where
  "user_fits u \<longleftrightarrow> length (email_value (usr_email u)) \<le> 320 \<and>
     length (hp_value (usr_hashed_password u)) \<le> 255"

lemma user_create_wf:
  assumes "email_wf em" "hashed_password_wf h" "is_utc d"
  shows "user_wf (user_create i em h d)"
  using assms by (simp add: user_wf_def user_create_def record_event_def)

lemma user_change_password_wf:
  assumes "user_wf u" "hashed_password_wf h"
  shows "user_wf (user_change_password h u)"
  using assms by (simp add: user_wf_def user_change_password_def)

lemma user_deactivate_wf: "user_wf u \<Longrightarrow> user_wf (user_deactivate u)"
  by (simp add: user_wf_def user_deactivate_def)

lemma pull_events_twice: "fst (pull_events (snd (pull_events a))) = []"
  by (simp add: pull_events_def)

lemma entity_eq_hash:
  "entity_eq identity a (Inl b) = Some True \<Longrightarrow>
   entity_hash_key cls identity a = entity_hash_key cls identity b"
  by (simp add: entity_eq_def entity_hash_key_def)

lemmas user_defs = user_create_def user_change_password_def user_deactivate_def record_event_def
  pull_events_def

section \<open>Refresh-token records\<close>

record refresh_token_record =
  rt_jti :: uuid
  rt_user_id :: user_id
  rt_family_id :: uuid
  rt_expires_at :: datetime
  rt_revoked_at :: "datetime option"

definition is_revoked :: "refresh_token_record \<Rightarrow> bool" where
  "is_revoked r \<longleftrightarrow> rt_revoked_at r \<noteq> None"

definition revoke :: "datetime \<Rightarrow> refresh_token_record \<Rightarrow> refresh_token_record" where
  "revoke at r = (if rt_revoked_at r = None then r\<lparr>rt_revoked_at := Some at\<rparr> else r)"

definition token_wf :: "refresh_token_record \<Rightarrow> bool" where
  "token_wf r \<longleftrightarrow> is_utc (rt_expires_at r) \<and> (\<forall>d. rt_revoked_at r = Some d \<longrightarrow> is_utc d)"

lemma is_revoked_revoke [simp]: "is_revoked (revoke at r)"
  by (simp add: is_revoked_def revoke_def)

lemma revoke_revoked [simp]: "is_revoked r \<Longrightarrow> revoke at r = r"
  by (auto simp: is_revoked_def revoke_def)

lemma revoke_fields [simp]:
  "rt_jti (revoke at r) = rt_jti r"
  "rt_user_id (revoke at r) = rt_user_id r"
  "rt_family_id (revoke at r) = rt_family_id r"
  "rt_expires_at (revoke at r) = rt_expires_at r"
  by (simp_all add: revoke_def)

lemma revoke_wf: "token_wf r \<Longrightarrow> is_utc at \<Longrightarrow> token_wf (revoke at r)"
  by (auto simp: token_wf_def revoke_def)

end
