(* ===== verification/Ports.thy ===== *)
theory Ports
  imports Entities
begin

text \<open>
  The ports of the application layer and what they promise.

  The world of a request has three parts: the store the unit of work is built on, the cache the
  rate limiter is built on, and the environment (clock, random source, password-hashing runs, log).
  The \<^verbatim>\<open>Protocol\<close> classes of \<^verbatim>\<open>app/application/shared/interfaces.py\<close> and of the domain's
  \<^verbatim>\<open>repositories.py\<close> files are records of operations; a use case takes them as arguments, as the
  handlers' constructors do. The contracts the use cases rely on are locales over these records.
  They speak of an account store, the abstract content of the database, in two versions: what
  the running transaction would commit (\<open>view\<close>) and what is committed (\<open>durable\<close>).
\<close>

section \<open>The environment\<close>

datatype log_entry = Log_Entry (log_level: string) (log_event: string) (log_fields: "(string \<times> string) list")

text \<open>
  The successive readings of the system clock and the successive values of \<^verbatim>\<open>uuid4\<close> are given by
  feeds, with the number used up so far; \<open>salt_draws\<close> counts the random salts of the password
  hasher and \<open>argon_runs\<close> the (deliberately expensive) hash computations.
\<close>

record env =
  clock_feed :: "nat \<Rightarrow> datetime"
  clock_reads :: nat
  uuid_feed :: "nat \<Rightarrow> uuid"
  uuid_draws :: nat
  salt_draws :: nat
  argon_runs :: nat
  logs :: "log_entry list"

definition env_ok :: "env \<Rightarrow> bool" where
  "env_ok e \<longleftrightarrow> (\<forall>n. is_utc (clock_feed e n))"

lemma env_ok_frame [simp]:
  "env_ok (e\<lparr>clock_reads := n\<rparr>) = env_ok e" "env_ok (e\<lparr>uuid_draws := n\<rparr>) = env_ok e"
  "env_ok (e\<lparr>argon_runs := n\<rparr>) = env_ok e" "env_ok (e\<lparr>salt_draws := n\<rparr>) = env_ok e"
  "env_ok (e\<lparr>logs := l\<rparr>) = env_ok e"
  by (simp_all add: env_ok_def)

definition uuid4 :: "(exn, env, uuid) io" where
  "uuid4 e = (Inr (uuid_feed e (uuid_draws e)), e\<lparr>uuid_draws := Suc (uuid_draws e)\<rparr>)"

definition log_at :: "string \<Rightarrow> string \<Rightarrow> (string \<times> string) list \<Rightarrow> (exn, env, unit) io" where
  "log_at level event attrs e = (Inr (), e\<lparr>logs := logs e @ [Log_Entry level event attrs]\<rparr>)"

record ('s, 'r) world =
  store :: 's
  cache :: 'r
  env :: env

definition on_store :: "(exn, 's, 'a) io \<Rightarrow> (exn, ('s, 'r) world, 'a) io" where
  "on_store m w = (case m (store w) of (r, s) \<Rightarrow> (r, w\<lparr>store := s\<rparr>))"

definition on_cache :: "(exn, 'r, 'a) io \<Rightarrow> (exn, ('s, 'r) world, 'a) io" where
  "on_cache m w = (case m (cache w) of (r, c) \<Rightarrow> (r, w\<lparr>cache := c\<rparr>))"

definition on_env :: "(exn, env, 'a) io \<Rightarrow> (exn, ('s, 'r) world, 'a) io" where
  "on_env m w = (case m (env w) of (r, e) \<Rightarrow> (r, w\<lparr>env := e\<rparr>))"

lemmas [io_simps] = on_store_def on_cache_def on_env_def uuid4_def log_at_def

section \<open>The ports\<close>

type_synonym clock = "(exn, env, datetime) io"

type_synonym event_dispatcher = "domain_event list \<Rightarrow> (exn, env, unit) io"

record password_hasher =
  ph_hash :: "string \<Rightarrow> (exn, env, string) io"
  ph_verify :: "string \<Rightarrow> string \<Rightarrow> (exn, env, bool) io"

record rate_limit_decision =
  rl_allowed :: bool
  rl_retry_after_seconds :: int

type_synonym 'r rate_limiter = "string \<Rightarrow> int \<Rightarrow> int \<Rightarrow> (exn, 'r, rate_limit_decision) io"

datatype token_type = Access | Refresh

record token_payload =
  tp_subject :: string
  tp_token_type :: token_type
  tp_token_id :: uuid

record issued_token =
  it_token :: string
  it_expires_at :: datetime

record token_service =
  ts_create_access_token :: "string \<Rightarrow> (exn, env, string) io"
  ts_create_refresh_token :: "string \<Rightarrow> uuid \<Rightarrow> (exn, env, issued_token) io"
  ts_decode :: "string \<Rightarrow> (exn, env, token_payload) io"

record 's user_repository =
  ur_add :: "user \<Rightarrow> (exn, 's, unit) io"
  ur_update :: "user \<Rightarrow> (exn, 's, unit) io"
  ur_get_by_id :: "user_id \<Rightarrow> (exn, 's, user option) io"
  ur_get_by_email :: "email \<Rightarrow> (exn, 's, user option) io"
  ur_exists_by_email :: "email \<Rightarrow> (exn, 's, bool) io"

record 's refresh_token_repository =
  rr_add :: "refresh_token_record \<Rightarrow> (exn, 's, unit) io"
  rr_update :: "refresh_token_record \<Rightarrow> (exn, 's, unit) io"
  rr_get_by_jti :: "uuid \<Rightarrow> (exn, 's, refresh_token_record option) io"
  rr_revoke_family :: "uuid \<Rightarrow> datetime \<Rightarrow> (exn, 's, unit) io"
  rr_revoke_all_for_user :: "user_id \<Rightarrow> datetime \<Rightarrow> (exn, 's, unit) io"

record 's unit_of_work =
  uow_users :: "'s user_repository"
  uow_refresh_tokens :: "'s refresh_token_repository"
  uow_commit :: "(exn, 's, unit) io"
  uow_rollback :: "(exn, 's, unit) io"

section \<open>The account store\<close>

record account_store =
  st_users :: "uuid \<Rightarrow> user option"
  st_tokens :: "uuid \<Rightarrow> refresh_token_record option"

text \<open>A stored user carries no pending events.\<close>

definition stored :: "user \<Rightarrow> user" where
  "stored u = u\<lparr>agg_events := []\<rparr>"

definition put_user :: "user \<Rightarrow> account_store \<Rightarrow> account_store" where
  "put_user u st = st\<lparr>st_users := (st_users st)(uid_value (usr_id u) \<mapsto> stored u)\<rparr>"

definition put_token :: "refresh_token_record \<Rightarrow> account_store \<Rightarrow> account_store" where
  "put_token r st = st\<lparr>st_tokens := (st_tokens st)(rt_jti r \<mapsto> r)\<rparr>"

definition revoke_where ::
  "(refresh_token_record \<Rightarrow> bool) \<Rightarrow> datetime \<Rightarrow> account_store \<Rightarrow> account_store" where
  "revoke_where P at st =
     st\<lparr>st_tokens := (\<lambda>j. map_option (\<lambda>r. if P r then revoke at r else r) (st_tokens st j))\<rparr>"

definition has_email :: "account_store \<Rightarrow> email \<Rightarrow> user \<Rightarrow> bool" where
  "has_email st e u \<longleftrightarrow> st_users st (uid_value (usr_id u)) = Some u \<and> usr_email u = e"

definition email_taken :: "account_store \<Rightarrow> email \<Rightarrow> bool" where
  "email_taken st e \<longleftrightarrow> (\<exists>i u. st_users st i = Some u \<and> usr_email u = e)"

text \<open>
  The integrity of a store: rows under their keys and well formed, one user per email address, and
  every refresh token owned by an existing user.
\<close>

definition wf_store :: "account_store \<Rightarrow> bool" where
  "wf_store st \<longleftrightarrow>
     (\<forall>i u. st_users st i = Some u \<longrightarrow>
        uid_value (usr_id u) = i \<and> user_wf u \<and> user_fits u \<and> agg_events u = []) \<and>
     (\<forall>i j u v. st_users st i = Some u \<longrightarrow> st_users st j = Some v \<longrightarrow>
        usr_email u = usr_email v \<longrightarrow> i = j) \<and>
     (\<forall>j r. st_tokens st j = Some r \<longrightarrow>
        rt_jti r = j \<and> token_wf r \<and> st_users st (uid_value (rt_user_id r)) \<noteq> None)"

lemma stored_fields [simp]:
  "usr_id (stored u) = usr_id u" "usr_email (stored u) = usr_email u"
  "usr_hashed_password (stored u) = usr_hashed_password u"
  "usr_is_active (stored u) = usr_is_active u" "usr_created_at (stored u) = usr_created_at u"
  "agg_events (stored u) = []"
  by (simp_all add: stored_def)

lemma stored_wf [simp]: "user_wf (stored u) = user_wf u" "user_fits (stored u) = user_fits u"
  by (simp_all add: user_wf_def user_fits_def)

lemma put_user_simps [simp]:
  "st_users (put_user u st) = (st_users st)(uid_value (usr_id u) \<mapsto> stored u)"
  "st_tokens (put_user u st) = st_tokens st"
  by (simp_all add: put_user_def)

lemma put_token_simps [simp]:
  "st_users (put_token r st) = st_users st"
  "st_tokens (put_token r st) = (st_tokens st)(rt_jti r \<mapsto> r)"
  by (simp_all add: put_token_def)

lemma revoke_where_simps [simp]:
  "st_users (revoke_where P at st) = st_users st"
  "st_tokens (revoke_where P at st) j =
     map_option (\<lambda>r. if P r then revoke at r else r) (st_tokens st j)"
  by (simp_all add: revoke_where_def)

lemma wf_storeD:
  assumes "wf_store st"
  shows "st_users st i = Some u \<Longrightarrow> uid_value (usr_id u) = i"
    and "st_users st i = Some u \<Longrightarrow> user_wf u"
    and "st_users st i = Some u \<Longrightarrow> user_fits u"
    and "st_users st i = Some u \<Longrightarrow> agg_events u = []"
    and "st_users st i = Some u \<Longrightarrow> st_users st j = Some v \<Longrightarrow> usr_email u = usr_email v \<Longrightarrow> i = j"
    and "st_tokens st j = Some r \<Longrightarrow> rt_jti r = j"
    and "st_tokens st j = Some r \<Longrightarrow> token_wf r"
    and "st_tokens st j = Some r \<Longrightarrow> st_users st (uid_value (rt_user_id r)) \<noteq> None"
  using assms unfolding wf_store_def by blast+

lemma wf_put_user_new:
  assumes "wf_store st" and "user_wf u" and "user_fits u" and "\<not> email_taken st (usr_email u)"
  shows "wf_store (put_user u st)"
  using assms unfolding wf_store_def email_taken_def by (auto; metis)

lemma wf_put_user_same_email:
  assumes "wf_store st" and "user_wf u" and "user_fits u"
    and "st_users st (uid_value (usr_id u)) = Some u0" and "usr_email u = usr_email u0"
  shows "wf_store (put_user u st)"
  using assms by (auto simp: wf_store_def)

lemma wf_put_token:
  assumes "wf_store st" and "token_wf r" and "st_users st (uid_value (rt_user_id r)) \<noteq> None"
  shows "wf_store (put_token r st)"
  using assms by (auto simp: wf_store_def)

lemma wf_revoke_where:
  assumes "wf_store st" and "is_utc at"
  shows "wf_store (revoke_where P at st)"
  using assms by (auto simp: wf_store_def revoke_wf)

lemma has_email_iff_taken:
  "wf_store st \<Longrightarrow> (\<exists>u. has_email st e u) \<longleftrightarrow> email_taken st e"
  unfolding has_email_def email_taken_def by (metis wf_storeD(1))

lemma has_email_unique: "wf_store st \<Longrightarrow> has_email st e u \<Longrightarrow> has_email st e v \<Longrightarrow> u = v"
  unfolding has_email_def by (metis option.inject wf_storeD(5))

text \<open>The refresh tokens of a store that can still be used, ignoring expiry.\<close>

definition live_token :: "account_store \<Rightarrow> uuid \<Rightarrow> refresh_token_record \<Rightarrow> bool" where
  "live_token st j r \<longleftrightarrow> st_tokens st j = Some r \<and> \<not> is_revoked r"

section \<open>The contracts\<close>

text \<open>What a repository call leaves behind: a session that is still in order, whose transaction has
  moved by \<open>g\<close> and whose committed content is untouched.\<close>

definition moved ::
  "('s \<Rightarrow> bool) \<Rightarrow> ('s \<Rightarrow> 'a) \<Rightarrow> ('s \<Rightarrow> 'a) \<Rightarrow> ('a \<Rightarrow> 'a) \<Rightarrow> 's \<Rightarrow> 's \<Rightarrow> bool" where
  "moved ok view durable g s s' \<longleftrightarrow> ok s' \<and> view s' = g (view s) \<and> durable s' = durable s"

text \<open>
  Reads are promised only for a transaction without writes: the session does not flush pending
  changes before a query. A revocation of many tokens is one statement executed at once, so it is
  promised only while no change of a token is pending.
\<close>

locale unit_of_work_laws =
  fixes U :: "'s unit_of_work"
    and ok :: "'s \<Rightarrow> bool"
    and view :: "'s \<Rightarrow> account_store"
    and durable :: "'s \<Rightarrow> account_store"
  assumes wf_view: "ok s \<Longrightarrow> wf_store (view s)"
    and wf_durable: "ok s \<Longrightarrow> wf_store (durable s)"
    and get_by_id: "ok s \<Longrightarrow> view s = durable s \<Longrightarrow>
      yields (ur_get_by_id (uow_users U) i s) (st_users (durable s) (uid_value i))
        (moved ok view durable id s)"
    and get_by_email: "ok s \<Longrightarrow> view s = durable s \<Longrightarrow>
      \<exists>r. yields (ur_get_by_email (uow_users U) em s) r (moved ok view durable id s) \<and>
          (\<forall>u. r = Some u \<longleftrightarrow> has_email (durable s) em u)"
    and exists_by_email: "ok s \<Longrightarrow> view s = durable s \<Longrightarrow>
      yields (ur_exists_by_email (uow_users U) em s) (email_taken (durable s) em)
        (moved ok view durable id s)"
    and add_user: "ok s \<Longrightarrow> st_users (view s) (uid_value (usr_id u)) = None \<Longrightarrow>
      wf_store (put_user u (view s)) \<Longrightarrow>
      yields (ur_add (uow_users U) u s) () (moved ok view durable (put_user u) s)"
    and update_user: "ok s \<Longrightarrow> view s = durable s \<Longrightarrow>
      st_users (view s) (uid_value (usr_id u)) = Some u0 \<Longrightarrow>
      usr_created_at u = usr_created_at u0 \<Longrightarrow> wf_store (put_user u (view s)) \<Longrightarrow>
      yields (ur_update (uow_users U) u s) () (moved ok view durable (put_user u) s)"
    and get_by_jti: "ok s \<Longrightarrow> view s = durable s \<Longrightarrow>
      yields (rr_get_by_jti (uow_refresh_tokens U) j s) (st_tokens (durable s) j)
        (moved ok view durable id s)"
    and add_token: "ok s \<Longrightarrow> st_tokens (view s) (rt_jti r) = None \<Longrightarrow>
      wf_store (put_token r (view s)) \<Longrightarrow>
      yields (rr_add (uow_refresh_tokens U) r s) () (moved ok view durable (put_token r) s)"
    and update_token: "ok s \<Longrightarrow> view s = durable s \<Longrightarrow>
      st_tokens (view s) (rt_jti r) = Some r0 \<Longrightarrow> r = r0\<lparr>rt_revoked_at := rt_revoked_at r\<rparr> \<Longrightarrow>
      token_wf r \<Longrightarrow>
      yields (rr_update (uow_refresh_tokens U) r s) () (moved ok view durable (put_token r) s)"
    and revoke_family: "ok s \<Longrightarrow> st_tokens (view s) = st_tokens (durable s) \<Longrightarrow> is_utc at \<Longrightarrow>
      yields (rr_revoke_family (uow_refresh_tokens U) f at s) ()
        (moved ok view durable (revoke_where (\<lambda>r. rt_family_id r = f) at) s)"
    and revoke_all_for_user:
      "ok s \<Longrightarrow> st_tokens (view s) = st_tokens (durable s) \<Longrightarrow> is_utc at \<Longrightarrow>
      yields (rr_revoke_all_for_user (uow_refresh_tokens U) i at s) ()
        (moved ok view durable (revoke_where (\<lambda>r. rt_user_id r = i) at) s)"
    and commit: "ok s \<Longrightarrow>
      yields (uow_commit U s) () (\<lambda>s'. ok s' \<and> view s' = view s \<and> durable s' = view s)"
    and rollback: "ok s \<Longrightarrow>
      yields (uow_rollback U s) () (\<lambda>s'. ok s' \<and> view s' = durable s \<and> durable s' = durable s)"

text \<open>
  Password hashing: \<open>matches p h\<close> says that the stored text \<open>h\<close> verifies the password \<open>p\<close>; a hash is
  one computation, and so is a verification against a text the hasher knows.
\<close>

locale password_hasher_laws =
  fixes H :: password_hasher
    and matches :: "string \<Rightarrow> string \<Rightarrow> bool"
    and known :: "string \<Rightarrow> bool"
  assumes hash_run: "\<exists>h n. ph_hash H p e =
      (Inr h, e\<lparr>argon_runs := Suc (argon_runs e), salt_draws := n\<rparr>) \<and>
      known h \<and> matches p h \<and> h \<noteq> [] \<and> length h \<le> 255"
    and verify_run: "known h \<Longrightarrow>
      ph_verify H p h e = (Inr (matches p h), e\<lparr>argon_runs := Suc (argon_runs e)\<rparr>)"

text \<open>
  Token service: issuing and decoding read the clock and draw identifiers, and nothing else; an
  issued refresh token decodes to its subject and identifier while it is \<open>fresh\<close>.
\<close>

locale token_service_laws =
  fixes T :: token_service
    and fresh :: "issued_token \<Rightarrow> env \<Rightarrow> bool"
  assumes create_access_run: "env_ok e \<Longrightarrow>
      \<exists>tok n m. ts_create_access_token T sub e = (Inr tok, e\<lparr>clock_reads := n, uuid_draws := m\<rparr>)"
    and create_refresh_run: "env_ok e \<Longrightarrow>
      \<exists>it n. ts_create_refresh_token T sub j e = (Inr it, e\<lparr>clock_reads := n\<rparr>) \<and>
        is_utc (it_expires_at it)"
    and decode_run: "\<exists>n. snd (ts_decode T tok e) = e\<lparr>clock_reads := n\<rparr>"
    and decode_issued: "ts_create_refresh_token T sub j e = (Inr it, e') \<Longrightarrow> fresh it e2 \<Longrightarrow>
      fst (ts_decode T (it_token it) e2) =
        Inr \<lparr>tp_subject = sub, tp_token_type = Refresh, tp_token_id = j\<rparr>"
    and decode_errors: "fst (ts_decode T tok e) = Inl x \<Longrightarrow> is_domain InvalidTokenError x"

locale clock_laws =
  fixes C :: clock
  assumes now_run: "env_ok e \<Longrightarrow> \<exists>d n. C e = (Inr d, e\<lparr>clock_reads := n\<rparr>) \<and> is_utc d"

text \<open>Everything the authentication use cases rely on.\<close>

locale auth_ports =
  unit_of_work_laws U ok view durable + password_hasher_laws H matches known +
  token_service_laws T fresh + clock_laws C
  for U :: "'s unit_of_work" and ok :: "'s \<Rightarrow> bool" and view :: "'s \<Rightarrow> account_store"
    and durable :: "'s \<Rightarrow> account_store" and H :: password_hasher
    and matches :: "string \<Rightarrow> string \<Rightarrow> bool" and known :: "string \<Rightarrow> bool"
    and T :: token_service and fresh :: "issued_token \<Rightarrow> env \<Rightarrow> bool" and C :: clock

end
