(* ===== verification/Use_Cases_Users.thy ===== *)
theory Use_Cases_Users
  imports Ports
begin

text \<open>
  The write-side use cases of the Users domain: registration
  (\<^verbatim>\<open>app/application/users/commands/create_user.py\<close>) and the change of the current user's password
  (\<^verbatim>\<open>change_password.py\<close>). The lemmas in the context \<open>auth_ports\<close> say what each does to the account
  store under the contracts of the ports, branch by branch.
\<close>

record user_view =
  uv_id :: uuid
  uv_email :: string
  uv_is_active :: bool
  uv_created_at :: datetime

section \<open>Registration\<close>

text \<open>\<^verbatim>\<open>UserId.new\<close>, of the value objects, and the registration handler.\<close>

definition user_id_new :: "(exn, env, user_id) io" where
  "user_id_new = bindM uuid4 (\<lambda>u. retM (UserId u))"

lemma user_id_new_run [io_simps]:
  "user_id_new e = (Inr (UserId (uuid_feed e (uuid_draws e))), e\<lparr>uuid_draws := Suc (uuid_draws e)\<rparr>)"
  by (simp add: user_id_new_def bindM_def uuid4_def)

record create_user_command =
  cu_email :: string
  cu_password :: string

definition create_user_execute ::
  "'s unit_of_work \<Rightarrow> password_hasher \<Rightarrow> clock \<Rightarrow> event_dispatcher \<Rightarrow> create_user_command \<Rightarrow>
   (exn, ('s, 'r) world, user_view) io" where
  "create_user_execute U H C D command =
     bindM (liftM (email_new (cu_email command))) (\<lambda>email.
     bindM (on_store (ur_exists_by_email (uow_users U) email)) (\<lambda>taken.
     if taken then raiseM (raised EmailAlreadyExistsError) else
     bindM (on_env user_id_new) (\<lambda>user_id.
     bindM (on_env (ph_hash H (cu_password command))) (\<lambda>h.
     bindM (liftM (hashed_password_new h)) (\<lambda>hashed.
     bindM (on_env C) (\<lambda>now.
     let user = user_create user_id email hashed now in
     thenM (on_store (ur_add (uow_users U) user))
     (thenM (on_store (uow_commit U))
     (let (events, user) = pull_events user in
      thenM (on_env (D events))
        (retM \<lparr>uv_id = uid_value (usr_id user), uv_email = email_value (usr_email user),
               uv_is_active = usr_is_active user, uv_created_at = usr_created_at user\<rparr>)))))))))"

section \<open>Change of password\<close>

record change_password_command =
  cp_user_id :: uuid
  cp_current_password :: string
  cp_new_password :: string

definition change_password_execute ::
  "'s unit_of_work \<Rightarrow> password_hasher \<Rightarrow> clock \<Rightarrow> change_password_command \<Rightarrow>
   (exn, ('s, 'r) world, unit) io" where
  "change_password_execute U H C command =
     bindM (on_store (ur_get_by_id (uow_users U) (UserId (cp_user_id command)))) (\<lambda>found.
     case found of
       None \<Rightarrow> raiseM (raised UserNotFoundError)
     | Some user \<Rightarrow>
         bindM (on_env (ph_verify H (cp_current_password command)
                          (hp_value (usr_hashed_password user)))) (\<lambda>matched.
         if \<not> matched then raiseM (raised InvalidCredentialsError) else
         bindM (on_env (ph_hash H (cp_new_password command))) (\<lambda>h.
         bindM (liftM (hashed_password_new h)) (\<lambda>hashed.
         let user = user_change_password hashed user in
         thenM (on_store (ur_update (uow_users U) user))
         (bindM (on_env C) (\<lambda>now.
          thenM (on_store (rr_revoke_all_for_user (uow_refresh_tokens U) (usr_id user) now))
          (on_store (uow_commit U))))))))"

section \<open>Registration under the contracts\<close>

text \<open>The world of a request that starts: a session in order, nothing written yet.\<close>

definition clean ::
  "('s \<Rightarrow> bool) \<Rightarrow> ('s \<Rightarrow> account_store) \<Rightarrow> ('s \<Rightarrow> account_store) \<Rightarrow> ('s, 'r) world \<Rightarrow> bool" where
  "clean ok view durable w \<longleftrightarrow>
     ok (store w) \<and> view (store w) = durable (store w) \<and> env_ok (env w)"

text \<open>How every use case ends: no change pending, \<open>st\<close> committed, the
  cache, the log and the sources of time and identifiers untouched.\<close>

definition settled ::
  "('s \<Rightarrow> bool) \<Rightarrow> ('s \<Rightarrow> account_store) \<Rightarrow> ('s \<Rightarrow> account_store) \<Rightarrow> ('s, 'r) world \<Rightarrow>
   account_store \<Rightarrow> ('s, 'r) world \<Rightarrow> bool" where
  "settled ok view durable w st w' \<longleftrightarrow>
     clean ok view durable w' \<and> durable (store w') = st \<and>
     cache w' = cache w \<and> logs (env w') = logs (env w) \<and>
     clock_feed (env w') = clock_feed (env w) \<and> uuid_feed (env w') = uuid_feed (env w)"

lemma settledI [intro?]:
  assumes "ok s'" "view s' = st" "durable s' = st" "env_ok e'" "logs e' = logs (env w)"
    "clock_feed e' = clock_feed (env w)" "uuid_feed e' = uuid_feed (env w)"
  shows "settled ok view durable w st (w\<lparr>store := s', env := e'\<rparr>)"
    and "settled ok view durable w st (w\<lparr>env := e', store := s'\<rparr>)"
  using assms by (simp_all add: settled_def clean_def)

definition next_uuid :: "env \<Rightarrow> uuid" where
  "next_uuid e = uuid_feed e (uuid_draws e)"

text \<open>Without any contract: nothing is dispatched unless the commit succeeded.\<close>

lemma create_user_no_dispatch_without_commit:
  fixes U :: "'s unit_of_work" and w :: "('s, 'r) world"
  assumes "\<And>s. \<exists>x s'. uow_commit U s = (Inl x, s')"
  shows "create_user_execute U H C D1 c w = create_user_execute U H C D2 c w"
proof -
  have "thenM (on_store (uow_commit U)) k1 v = thenM (on_store (uow_commit U)) k2 v"
    for k1 k2 :: "(exn, ('s, 'r) world, user_view) io" and v
  proof -
    obtain x s' where "uow_commit U (store v) = (Inl x, s')"
      using assms by blast
    then show ?thesis
      by (simp add: io_simps)
  qed
  then obtain K where "\<And>k :: (exn, ('s, 'r) world, user_view) io. thenM (on_store (uow_commit U)) k = K"
    by blast
  then show ?thesis
    unfolding create_user_execute_def Let_def by (simp cong: if_cong)
qed

context auth_ports
begin

lemma create_user_invalid_email:
  assumes "email_new (cu_email c) = Inl x"
  shows "create_user_execute U H C D c w = (Inl x, w)"
  using assms by (simp add: create_user_execute_def io_simps)

lemma clean_parts:
  assumes "clean ok view durable w"
  shows "ok (store w)" "view (store w) = durable (store w)" "env_ok (env w)"
    "wf_store (durable (store w))"
  using assms wf_durable by (simp_all add: clean_def)

text \<open>A read keeps the session in order; what a request that only read leaves behind is settled.\<close>

lemma moved_id:
  assumes "clean ok view durable w" and "moved ok view durable id (store w) s'"
  shows "ok s'" "view s' = durable (store w)" "durable s' = durable (store w)"
  using assms by (simp_all add: moved_def clean_def)

lemma create_user_duplicate:
  assumes clean: "clean ok view durable w" and em: "email_new (cu_email c) = Inr em"
    and taken: "email_taken (durable (store w)) em"
  shows "raises (create_user_execute U H C D c w) (raised EmailAlreadyExistsError)
    (settled ok view durable w (durable (store w)))"
proof -
  note ok = clean_parts [OF clean]
  obtain s' where s': "ur_exists_by_email (uow_users U) em (store w) = (Inr True, s')"
      "moved ok view durable id (store w) s'"
    using exists_by_email [OF ok(1,2), of em] taken by (auto elim: yieldsE)
  have "settled ok view durable w (durable (store w)) (w\<lparr>store := s'\<rparr>)"
    using moved_id [OF clean s'(2)] ok(3) by (simp add: settled_def clean_def)
  with s'(1) em show ?thesis
    by (simp add: raises_def create_user_execute_def io_simps)
qed

lemma create_user_registers:
  assumes clean: "clean ok view durable w"
    and em: "email_new (cu_email c) = Inr em" "length (email_value em) \<le> 320"
    and free: "\<not> email_taken (durable (store w)) em"
      "st_users (durable (store w)) (next_uuid (env w)) = None"
  shows "\<exists>u w'.
    usr_id u = UserId (next_uuid (env w)) \<and> usr_email u = em \<and> usr_is_active u \<and>
    known (hp_value (usr_hashed_password u)) \<and>
    matches (cu_password c) (hp_value (usr_hashed_password u)) \<and>
    settled ok view durable w (put_user u (durable (store w))) w' \<and>
    create_user_execute U H C D c w =
      thenM (on_env (D [UserRegistered (next_uuid (env w)) (email_value em) (usr_created_at u)]))
        (retM \<lparr>uv_id = next_uuid (env w), uv_email = email_value em, uv_is_active = True,
               uv_created_at = usr_created_at u\<rparr>) w'"
proof -
  let ?s = "store w" and ?e = "env w"
  have ok: "ok ?s" and view: "view ?s = durable ?s" and env: "env_ok ?e"
    using clean by (simp_all add: clean_def)
  obtain s1 where s1: "ur_exists_by_email (uow_users U) em ?s = (Inr False, s1)"
      "moved ok view durable id ?s s1"
    using exists_by_email [OF ok view, of em] free(1) by (auto elim: yieldsE)
  define e1 where "e1 = ?e\<lparr>uuid_draws := Suc (uuid_draws ?e)\<rparr>"
  obtain h n where h: "ph_hash H (cu_password c) e1 =
      (Inr h, e1\<lparr>argon_runs := Suc (argon_runs e1), salt_draws := n\<rparr>)"
      "known h" "matches (cu_password c) h" "h \<noteq> []" "length h \<le> 255"
    using hash_run [of "cu_password c" e1] by blast
  define e2 where "e2 = e1\<lparr>argon_runs := Suc (argon_runs e1), salt_draws := n\<rparr>"
  have "env_ok e2"
    using env by (simp add: e1_def e2_def)
  from now_run [OF this] obtain now m where now: "C e2 = (Inr now, e2\<lparr>clock_reads := m\<rparr>)" "is_utc now"
    by blast
  define u where "u = user_create (UserId (next_uuid ?e)) em (HashedPassword h) now"
  have u: "user_wf u" "user_fits u"
    using em now(2) h(4,5) email_new_wf [OF em(1)]
    by (simp_all add: u_def user_wf_def user_fits_def user_create_def record_event_def
        hashed_password_wf_def)
  have id: "uid_value (usr_id u) = next_uuid ?e" and mail: "usr_email u = em"
    by (simp_all add: u_def user_create_def record_event_def)
  have ok1: "ok s1" "view s1 = durable ?s" "durable s1 = durable ?s"
    using s1(2) view by (simp_all add: moved_def)
  have "wf_store (put_user u (view s1))"
    using wf_put_user_new [OF wf_durable [OF ok] u] free(1) by (simp add: ok1 mail)
  from add_user [OF ok1(1) _ this] obtain s2 where
    s2: "ur_add (uow_users U) u s1 = (Inr (), s2)" "moved ok view durable (put_user u) s1 s2"
    using free(2) by (auto simp: id ok1 elim: yieldsE)
  obtain s3 where s3: "uow_commit U s2 = (Inr (), s3)" "ok s3" "view s3 = view s2" "durable s3 = view s2"
    using commit [of s2] s2(2) by (auto simp: moved_def elim: yieldsE)
  let ?event = "UserRegistered (next_uuid ?e) (email_value em) (usr_created_at u)"
  have pull: "pull_events u = ([?event], stored u)"
    by (simp add: u_def user_defs stored_def)
  have active: "usr_is_active u" "usr_id u = UserId (next_uuid ?e)"
    by (simp_all add: u_def user_create_def record_event_def)
  have "uuid_feed ?e (uuid_draws ?e) = next_uuid ?e"
    by (simp add: next_uuid_def)
  with s1 h(1,4) now(1) s2(1) s3(1) em(1) have
    "create_user_execute U H C D c w =
      thenM (on_env (D [?event]))
        (retM \<lparr>uv_id = next_uuid ?e, uv_email = email_value em, uv_is_active = True,
               uv_created_at = usr_created_at u\<rparr>) (w\<lparr>store := s3, env := e2\<lparr>clock_reads := m\<rparr>\<rparr>)"
    by (simp add: create_user_execute_def io_simps e1_def [symmetric] e2_def [symmetric]
        u_def [symmetric] hashed_password_new_def pull active mail)
  moreover have "known (hp_value (usr_hashed_password u))"
      "matches (cu_password c) (hp_value (usr_hashed_password u))"
    using h(2,3) by (simp_all add: u_def user_create_def record_event_def)
  moreover have "settled ok view durable w (put_user u (durable ?s))
      (w\<lparr>store := s3, env := e2\<lparr>clock_reads := m\<rparr>\<rparr>)"
    using s2(2) s3(2-4) ok1 env by (intro settledI) (simp_all add: moved_def e1_def e2_def)
  ultimately show ?thesis
    using mail active by blast
qed

text \<open>Change of password: the three refusals leave the committed content alone; success replaces the
  password and revokes every refresh token of the user, and nothing else.\<close>

lemma load_user:
  assumes "clean ok view durable w"
  obtains s' where "ur_get_by_id (uow_users U) i (store w) =
      (Inr (st_users (durable (store w)) (uid_value i)), s')"
    and "moved ok view durable id (store w) s'"
    and "ok s'" "view s' = durable (store w)" "durable s' = durable (store w)"
  using get_by_id [OF clean_parts(1,2) [OF assms], of i] moved_id [OF assms]
  by (metis yieldsE)

lemma change_password_unknown_user:
  assumes clean: "clean ok view durable w"
    and none: "st_users (durable (store w)) (cp_user_id c) = None"
  shows "raises (change_password_execute U H C c w) (raised UserNotFoundError)
    (settled ok view durable w (durable (store w)))"
proof -
  obtain s' where "ur_get_by_id (uow_users U) (UserId (cp_user_id c)) (store w) = (Inr None, s')"
      "ok s'" "view s' = durable (store w)" "durable s' = durable (store w)"
    using load_user [OF clean, of "UserId (cp_user_id c)"] none by (metis user_id.sel)
  with clean_parts(3) [OF clean] show ?thesis
    by (simp add: raises_def change_password_execute_def io_simps settled_def clean_def)
qed

lemma change_password_wrong_current:
  assumes clean: "clean ok view durable w"
    and u: "st_users (durable (store w)) (cp_user_id c) = Some u"
      "known (hp_value (usr_hashed_password u))"
      "\<not> matches (cp_current_password c) (hp_value (usr_hashed_password u))"
  shows "raises (change_password_execute U H C c w) (raised InvalidCredentialsError)
    (settled ok view durable w (durable (store w)))"
proof -
  obtain s' where "ur_get_by_id (uow_users U) (UserId (cp_user_id c)) (store w) = (Inr (Some u), s')"
      "ok s'" "view s' = durable (store w)" "durable s' = durable (store w)"
    using load_user [OF clean, of "UserId (cp_user_id c)"] u(1) by (metis user_id.sel)
  with clean_parts(3) [OF clean] verify_run [OF u(2)] u(3) show ?thesis
    by (simp add: raises_def change_password_execute_def io_simps settled_def clean_def)
qed

lemma change_password_succeeds:
  assumes clean: "clean ok view durable w"
    and user: "st_users (durable (store w)) (cp_user_id c) = Some u"
    and pw: "known (hp_value (usr_hashed_password u))"
      "matches (cp_current_password c) (hp_value (usr_hashed_password u))"
  shows "\<exists>h now. known h \<and> matches (cp_new_password c) h \<and> is_utc now \<and>
    yields (change_password_execute U H C c w) ()
      (settled ok view durable w (revoke_where (\<lambda>r. rt_user_id r = usr_id u) now
        (put_user (user_change_password (HashedPassword h) u) (durable (store w)))))"
proof -
  let ?s = "store w" and ?e = "env w"
  have ok: "ok ?s" and view: "view ?s = durable ?s" and env: "env_ok ?e"
    using clean by (simp_all add: clean_def)
  note wf = wf_storeD [OF wf_durable [OF ok]]
  have id: "uid_value (usr_id u) = cp_user_id c"
    using wf(1) [OF user] .
  obtain s1 where s1: "ur_get_by_id (uow_users U) (UserId (cp_user_id c)) ?s = (Inr (Some u), s1)"
      "moved ok view durable id ?s s1"
    using get_by_id [OF ok view, of "UserId (cp_user_id c)"] user by (auto elim: yieldsE)
  define e1 where "e1 = ?e\<lparr>argon_runs := Suc (argon_runs ?e)\<rparr>"
  have e1: "ph_verify H (cp_current_password c) (hp_value (usr_hashed_password u)) ?e = (Inr True, e1)"
    using verify_run [OF pw(1), of "cp_current_password c" ?e] pw(2) by (simp add: e1_def)
  obtain h n where h: "ph_hash H (cp_new_password c) e1 =
      (Inr h, e1\<lparr>argon_runs := Suc (argon_runs e1), salt_draws := n\<rparr>)"
      "known h" "matches (cp_new_password c) h" "h \<noteq> []" "length h \<le> 255"
    using hash_run [of "cp_new_password c" e1] by blast
  define e2 where "e2 = e1\<lparr>argon_runs := Suc (argon_runs e1), salt_draws := n\<rparr>"
  define u' where "u' = user_change_password (HashedPassword h) u"
  have u': "usr_id u' = usr_id u" "usr_email u' = usr_email u" "usr_created_at u' = usr_created_at u"
      "user_wf u'" "user_fits u'"
    using wf(2,3) [OF user] h(4,5)
    by (simp_all add: u'_def user_change_password_def user_wf_def user_fits_def hashed_password_wf_def)
  have ok1: "ok s1" "view s1 = durable ?s" "durable s1 = durable ?s"
    using s1(2) view by (simp_all add: moved_def)
  have "wf_store (put_user u' (view s1))"
    using wf_put_user_same_email [OF wf_durable [OF ok] u'(4,5), of u] user id u' by (simp add: ok1)
  with update_user [OF ok1(1), of u' u] obtain s2 where
    s2: "ur_update (uow_users U) u' s1 = (Inr (), s2)" "moved ok view durable (put_user u') s1 s2"
    using user id u' by (auto simp: ok1 elim: yieldsE)
  have ok2: "ok s2" "view s2 = put_user u' (durable ?s)" "durable s2 = durable ?s"
    using s2(2) ok1 by (simp_all add: moved_def)
  have "env_ok e2"
    using env by (simp add: e1_def e2_def)
  from now_run [OF this] obtain now m where now: "C e2 = (Inr now, e2\<lparr>clock_reads := m\<rparr>)" "is_utc now"
    by blast
  obtain s3 where s3: "rr_revoke_all_for_user (uow_refresh_tokens U) (usr_id u) now s2 = (Inr (), s3)"
      "moved ok view durable (revoke_where (\<lambda>r. rt_user_id r = usr_id u) now) s2 s3"
    using revoke_all_for_user [OF ok2(1) _ now(2), of "usr_id u"] by (auto simp: ok2 elim: yieldsE)
  obtain s4 where s4: "uow_commit U s3 = (Inr (), s4)" "ok s4" "view s4 = view s3" "durable s4 = view s3"
    using commit [of s3] s3(2) by (auto simp: moved_def elim: yieldsE)
  have "change_password_execute U H C c w = (Inr (), w\<lparr>store := s4, env := e2\<lparr>clock_reads := m\<rparr>\<rparr>)"
    using s1(1) e1 h(1,4) s2(1) now(1) s3(1) s4(1)
    by (simp add: change_password_execute_def io_simps hashed_password_new_def Let_def u'(1)
        e2_def [symmetric] u'_def [symmetric])
  moreover have "settled ok view durable w
      (revoke_where (\<lambda>r. rt_user_id r = usr_id u) now (put_user u' (durable ?s)))
      (w\<lparr>store := s4, env := e2\<lparr>clock_reads := m\<rparr>\<rparr>)"
    using s3(2) s4 ok2 env by (intro settledI) (simp_all add: moved_def e1_def e2_def)
  ultimately show ?thesis
    using h(2,3) now(2) unfolding u'_def by (metis yieldsI)
qed

end

end
