(* ===== verification/Use_Cases_Auth.thy ===== *)
theory Use_Cases_Auth
  imports Use_Cases_Users
begin

text \<open>
  The authentication use cases: login (\<^verbatim>\<open>app/application/auth/commands/login.py\<close>), refresh with
  rotation and replay detection (\<^verbatim>\<open>refresh_token.py\<close>) and logout (\<^verbatim>\<open>logout.py\<close>). The lemmas in the
  context \<open>auth_ports\<close> give the effect of every branch on the account store.
\<close>

datatype token_kind_literal = Bearer

record token_pair =
  pair_access_token :: string
  pair_refresh_token :: string
  pair_token_type :: token_kind_literal

text \<open>\<open>user is None or not user.is_active\<close>, as the user that may go on.\<close>

definition active_user :: "user option \<Rightarrow> user option" where
  "active_user found =
     (case found of None \<Rightarrow> None | Some u \<Rightarrow> if usr_is_active u then Some u else None)"

section \<open>Login\<close>

record login_command =
  lc_email :: string
  lc_password :: string

definition login_execute ::
  "'s unit_of_work \<Rightarrow> password_hasher \<Rightarrow> token_service \<Rightarrow> login_command \<Rightarrow>
   (exn, ('s, 'r) world, token_pair) io" where
  "login_execute U H T command =
     bindM (tryM (liftM (email_new (lc_email command)))
              (\<lambda>x. if is_domain ValidationError x then raiseM (raised InvalidCredentialsError)
                   else raiseM x)) (\<lambda>email.
     bindM (on_store (ur_get_by_email (uow_users U) email)) (\<lambda>found.
     case active_user found of
       None \<Rightarrow>
         thenM (on_env (ph_hash H (lc_password command)))
           (raiseM (raised InvalidCredentialsError))
     | Some user \<Rightarrow>
         bindM (on_env (ph_verify H (lc_password command) (hp_value (usr_hashed_password user))))
           (\<lambda>matched.
         if \<not> matched then raiseM (raised InvalidCredentialsError) else
         let subject = user_id_str (usr_id user) in
         bindM (on_env uuid4) (\<lambda>jti.
         bindM (on_env (ts_create_refresh_token T subject jti)) (\<lambda>issued.
         bindM (on_env uuid4) (\<lambda>family_id.
         thenM (on_store (rr_add (uow_refresh_tokens U)
                  \<lparr>rt_jti = jti, rt_user_id = usr_id user, rt_family_id = family_id,
                   rt_expires_at = it_expires_at issued, rt_revoked_at = None\<rparr>))
         (thenM (on_store (uow_commit U))
         (bindM (on_env (ts_create_access_token T subject)) (\<lambda>access.
          retM \<lparr>pair_access_token = access, pair_refresh_token = it_token issued,
                pair_token_type = Bearer\<rparr>))))))))) "

section \<open>Refresh\<close>

record refresh_token_command =
  rc_refresh_token :: string

definition refresh_execute ::
  "'s unit_of_work \<Rightarrow> token_service \<Rightarrow> clock \<Rightarrow> refresh_token_command \<Rightarrow>
   (exn, ('s, 'r) world, token_pair) io" where
  "refresh_execute U T C command =
     bindM (on_env (ts_decode T (rc_refresh_token command))) (\<lambda>payload.
     if tp_token_type payload \<noteq> Refresh then raiseM (raised InvalidTokenError) else
     bindM (on_store (rr_get_by_jti (uow_refresh_tokens U) (tp_token_id payload))) (\<lambda>found.
     case found of
       None \<Rightarrow> raiseM (raised InvalidTokenError)
     | Some record \<Rightarrow>
         bindM (on_env C) (\<lambda>now.
         if is_revoked record then
           thenM (on_store (rr_revoke_family (uow_refresh_tokens U) (rt_family_id record) now))
           (thenM (on_store (uow_commit U))
           (raiseM (raised InvalidTokenError)))
         else (case dt_le (rt_expires_at record) now of
           None \<Rightarrow> raiseM (Python_Error ''TypeError'')
         | Some True \<Rightarrow> raiseM (raised TokenExpiredError)
         | Some False \<Rightarrow>
             bindM (tryM (liftM (user_id_from_str (tp_subject payload)))
                      (\<lambda>x. if is_domain ValidationError x then raiseM (raised InvalidTokenError)
                           else raiseM x)) (\<lambda>user_id.
             bindM (on_store (ur_get_by_id (uow_users U) user_id)) (\<lambda>found.
             case active_user found of
               None \<Rightarrow> raiseM (raised InvalidTokenError)
             | Some user \<Rightarrow>
                 let subject = user_id_str (usr_id user); record = revoke now record in
                 thenM (on_store (rr_update (uow_refresh_tokens U) record))
                 (bindM (on_env uuid4) (\<lambda>new_jti.
                  bindM (on_env (ts_create_refresh_token T subject new_jti)) (\<lambda>issued.
                  thenM (on_store (rr_add (uow_refresh_tokens U)
                           \<lparr>rt_jti = new_jti, rt_user_id = usr_id user,
                            rt_family_id = rt_family_id record,
                            rt_expires_at = it_expires_at issued, rt_revoked_at = None\<rparr>))
                  (thenM (on_store (uow_commit U))
                  (bindM (on_env (ts_create_access_token T subject)) (\<lambda>access.
                   retM \<lparr>pair_access_token = access, pair_refresh_token = it_token issued,
                         pair_token_type = Bearer\<rparr>))))))))))))"

section \<open>Logout\<close>

record logout_command =
  lo_refresh_token :: string

definition logout_execute ::
  "'s unit_of_work \<Rightarrow> token_service \<Rightarrow> clock \<Rightarrow> logout_command \<Rightarrow>
   (exn, ('s, 'r) world, unit) io" where
  "logout_execute U T C command =
     bindM (on_env (ts_decode T (lo_refresh_token command))) (\<lambda>payload.
     if tp_token_type payload \<noteq> Refresh then raiseM (raised InvalidTokenError) else
     bindM (on_store (rr_get_by_jti (uow_refresh_tokens U) (tp_token_id payload))) (\<lambda>found.
     case found of
       None \<Rightarrow> retM ()
     | Some record \<Rightarrow>
         bindM (on_env C) (\<lambda>now.
         thenM (on_store (rr_revoke_family (uow_refresh_tokens U) (rt_family_id record) now))
         (on_store (uow_commit U)))))"

section \<open>Login under the contracts\<close>

lemma active_user_Some: "active_user f = Some u \<longleftrightarrow> f = Some u \<and> usr_is_active u"
  by (auto simp: active_user_def split: option.splits if_splits)

text \<open>The account a login is for: the active user with the address and a matching password.\<close>

definition login_user ::
  "(string \<Rightarrow> string \<Rightarrow> bool) \<Rightarrow> account_store \<Rightarrow> login_command \<Rightarrow> user \<Rightarrow> bool" where
  "login_user matches st c u \<longleftrightarrow>
     (\<exists>em. email_new (lc_email c) = Inr em \<and> has_email st em u \<and> usr_is_active u \<and>
        matches (lc_password c) (hp_value (usr_hashed_password u)))"

definition all_known :: "(string \<Rightarrow> bool) \<Rightarrow> account_store \<Rightarrow> bool" where
  "all_known known st \<longleftrightarrow>
     (\<forall>i u. st_users st i = Some u \<longrightarrow> known (hp_value (usr_hashed_password u)))"

text \<open>The clock is read once more after a token has been decoded: that reading decides expiry.\<close>

definition refresh_now :: "token_service \<Rightarrow> clock \<Rightarrow> string \<Rightarrow> ('s, 'r) world \<Rightarrow> exn + datetime" where
  "refresh_now T C tok w = fst (C (snd (ts_decode T tok (env w))))"

definition successor :: "refresh_token_record \<Rightarrow> user \<Rightarrow> uuid \<Rightarrow> datetime \<Rightarrow> refresh_token_record" where
  "successor r u j d =
     \<lparr>rt_jti = j, rt_user_id = usr_id u, rt_family_id = rt_family_id r,
      rt_expires_at = d, rt_revoked_at = None\<rparr>"

definition first_token :: "user \<Rightarrow> uuid \<Rightarrow> uuid \<Rightarrow> datetime \<Rightarrow> refresh_token_record" where
  "first_token u j f d =
     \<lparr>rt_jti = j, rt_user_id = usr_id u, rt_family_id = f, rt_expires_at = d, rt_revoked_at = None\<rparr>"

definition next_family :: "env \<Rightarrow> uuid" where
  "next_family e = uuid_feed e (Suc (uuid_draws e))"

context auth_ports
begin

lemma settled_env:
  assumes "clean ok view durable w" and "env_ok e'" and "logs e' = logs (env w)"
    and "clock_feed e' = clock_feed (env w)" and "uuid_feed e' = uuid_feed (env w)"
  shows "settled ok view durable w (durable (store w)) (w\<lparr>env := e'\<rparr>)"
  using assms by (simp add: settled_def clean_def)

lemma login_malformed:
  assumes "email_new (lc_email c) = Inl x"
  shows "login_execute U H T c w = (Inl (raised InvalidCredentialsError), w)"
  using email_new_Inl [OF assms] assms by (simp add: login_execute_def io_simps)

text \<open>Whatever the reason for a refusal, the answer is the same and one hash has been computed.\<close>

lemma login_refused:
  assumes clean: "clean ok view durable w" and known: "all_known known (durable (store w))"
    and em: "email_new (lc_email c) = Inr em"
    and no: "\<nexists>u. login_user matches (durable (store w)) c u"
  shows "raises (login_execute U H T c w) (raised InvalidCredentialsError)
    (\<lambda>w'. settled ok view durable w (durable (store w)) w' \<and>
          argon_runs (env w') = Suc (argon_runs (env w)))"
proof -
  note ok = clean_parts [OF clean]
  obtain r s' where r: "ur_get_by_email (uow_users U) em (store w) = (Inr r, s')"
      "moved ok view durable id (store w) s'" "\<And>u. r = Some u \<longleftrightarrow> has_email (durable (store w)) em u"
    using get_by_email [OF ok(1,2), of em] by (auto elim!: yieldsE)
  note s' = moved_id [OF clean r(2)]
  show ?thesis
  proof (cases "active_user r")
    case None
    obtain h n where "ph_hash H (lc_password c) (env w) =
        (Inr h, (env w)\<lparr>argon_runs := Suc (argon_runs (env w)), salt_draws := n\<rparr>)"
      using hash_run by blast
    with r(1) s' ok(3) em None show ?thesis
      by (simp add: raises_def login_execute_def io_simps settled_def clean_def)
  next
    case (Some u)
    then have u: "has_email (durable (store w)) em u" "usr_is_active u"
      using r(3) by (simp_all add: active_user_Some)
    then have "\<not> matches (lc_password c) (hp_value (usr_hashed_password u))"
      using no em by (auto simp: login_user_def)
    moreover have "known (hp_value (usr_hashed_password u))"
      using known u(1) by (auto simp: all_known_def has_email_def)
    ultimately have "ph_verify H (lc_password c) (hp_value (usr_hashed_password u)) (env w) =
        (Inr False, (env w)\<lparr>argon_runs := Suc (argon_runs (env w))\<rparr>)"
      by (simp add: verify_run)
    with r(1) s' ok(3) em Some show ?thesis
      by (simp add: raises_def login_execute_def io_simps settled_def clean_def)
  qed
qed

lemma login_succeeds:
  assumes clean: "clean ok view durable w" and known: "all_known known (durable (store w))"
    and user: "login_user matches (durable (store w)) c u"
    and new: "st_tokens (durable (store w)) (next_uuid (env w)) = None"
  shows "\<exists>it access.
    is_utc (it_expires_at it) \<and>
    (\<forall>e2. fresh it e2 \<longrightarrow> fst (ts_decode T (it_token it) e2) =
       Inr \<lparr>tp_subject = user_id_str (usr_id u), tp_token_type = Refresh,
            tp_token_id = next_uuid (env w)\<rparr>) \<and>
    yields (login_execute U H T c w)
      \<lparr>pair_access_token = access, pair_refresh_token = it_token it, pair_token_type = Bearer\<rparr>
      (\<lambda>w'. settled ok view durable w (put_token (first_token u (next_uuid (env w))
              (next_family (env w)) (it_expires_at it)) (durable (store w))) w' \<and>
            argon_runs (env w') = Suc (argon_runs (env w)))"
proof -
  let ?s = "store w" and ?e = "env w" and ?sub = "user_id_str (usr_id u)"
  note ok = clean_parts [OF clean]
  obtain em where em: "email_new (lc_email c) = Inr em" "has_email (durable ?s) em u"
      "usr_is_active u" "matches (lc_password c) (hp_value (usr_hashed_password u))"
    using user by (auto simp: login_user_def)
  have stored: "st_users (durable ?s) (uid_value (usr_id u)) = Some u"
    using em(2) by (simp add: has_email_def)
  obtain f s1 where r: "ur_get_by_email (uow_users U) em ?s = (Inr f, s1)"
      "moved ok view durable id ?s s1" "f = Some u"
    using get_by_email [OF ok(1,2), of em] em(2) by (auto elim!: yieldsE)
  note ok1 = moved_id [OF clean r(2)]
  define e1 where "e1 = ?e\<lparr>argon_runs := Suc (argon_runs ?e)\<rparr>"
  have e1: "ph_verify H (lc_password c) (hp_value (usr_hashed_password u)) ?e = (Inr True, e1)"
    using known stored em(4) by (simp add: all_known_def e1_def verify_run)
  define e2 where "e2 = e1\<lparr>uuid_draws := Suc (uuid_draws e1)\<rparr>"
  have "env_ok e2"
    using ok(3) by (simp add: e1_def e2_def)
  from create_refresh_run [OF this] obtain it n where
    it: "ts_create_refresh_token T ?sub (next_uuid ?e) e2 = (Inr it, e2\<lparr>clock_reads := n\<rparr>)"
      "is_utc (it_expires_at it)"
    by blast
  define e3 where "e3 = e2\<lparr>clock_reads := n, uuid_draws := Suc (uuid_draws e2)\<rparr>"
  define r where "r = first_token u (next_uuid ?e) (next_family ?e) (it_expires_at it)"
  have r_fields: "rt_jti r = next_uuid ?e" "rt_user_id r = usr_id u" "rt_revoked_at r = None"
      "rt_expires_at r = it_expires_at it"
    by (simp_all add: r_def first_token_def)
  have "wf_store (put_token r (view s1))"
    using ok(4) it(2) stored by (intro wf_put_token) (simp_all add: ok1 token_wf_def r_fields)
  with add_token [OF ok1(1), of r] obtain s2 where
    s2: "rr_add (uow_refresh_tokens U) r s1 = (Inr (), s2)" "moved ok view durable (put_token r) s1 s2"
    using new by (auto simp: ok1 r_fields elim: yieldsE)
  obtain s3 where s3: "uow_commit U s2 = (Inr (), s3)" "ok s3" "view s3 = view s2" "durable s3 = view s2"
    using commit [of s2] s2(2) by (auto simp: moved_def elim: yieldsE)
  have e3: "env_ok e3"
    using ok(3) by (simp add: e1_def e2_def e3_def)
  from create_access_run [OF this] obtain access k m where
    access: "ts_create_access_token T ?sub e3 = (Inr access, e3\<lparr>clock_reads := k, uuid_draws := m\<rparr>)"
    by blast
  have feed: "uuid_feed e1 (uuid_draws e1) = next_uuid ?e"
      "uuid_feed (e2\<lparr>clock_reads := n\<rparr>) (uuid_draws (e2\<lparr>clock_reads := n\<rparr>)) =
        uuid_feed ?e (Suc (uuid_draws ?e))"
    by (simp_all add: next_uuid_def e1_def e2_def)
  let ?w = "w\<lparr>store := s3, env := e3\<lparr>clock_reads := k, uuid_draws := m\<rparr>\<rparr>"
  have run: "login_execute U H T c w =
      (Inr \<lparr>pair_access_token = access, pair_refresh_token = it_token it, pair_token_type = Bearer\<rparr>, ?w)"
    using em(1,3) r(1,3) e1 it(1) s2(1) s3(1) access feed
    by (simp add: login_execute_def io_simps active_user_def Let_def e2_def [symmetric]
        e3_def [symmetric] r_def first_token_def next_family_def)
  have "settled ok view durable w (put_token r (durable ?s)) ?w"
      "argon_runs (env ?w) = Suc (argon_runs (env w))"
    using s2(2) s3 ok1 e3
    by (auto simp: settled_def clean_def moved_def e1_def e2_def e3_def)
  with run have "yields (login_execute U H T c w)
      \<lparr>pair_access_token = access, pair_refresh_token = it_token it, pair_token_type = Bearer\<rparr>
      (\<lambda>w'. settled ok view durable w (put_token r (durable ?s)) w' \<and>
            argon_runs (env w') = Suc (argon_runs (env w)))"
    by (simp add: yields_def)
  with decode_issued [OF it(1)] it(2) show ?thesis
    unfolding r_def by blast
qed

section \<open>Refresh under the contracts\<close>

lemma decode_step:
  assumes "clean ok view durable w" and "fst (ts_decode T tok (env w)) = r"
  obtains n where "ts_decode T tok (env w) = (r, (env w)\<lparr>clock_reads := n\<rparr>)"
    and "env_ok ((env w)\<lparr>clock_reads := n\<rparr>)"
  using decode_run [of tok "env w"] assms by (metis clean_parts(3) env_ok_frame(1) prod.collapse)

lemma refresh_undecodable:
  assumes "clean ok view durable w" and "fst (ts_decode T (rc_refresh_token c) (env w)) = Inl x"
  shows "raises (refresh_execute U T C c w) x (settled ok view durable w (durable (store w)))"
proof -
  obtain n where "ts_decode T (rc_refresh_token c) (env w) = (Inl x, (env w)\<lparr>clock_reads := n\<rparr>)"
      "env_ok ((env w)\<lparr>clock_reads := n\<rparr>)"
    using decode_step [OF assms] .
  then show ?thesis
    by (simp add: raises_def refresh_execute_def io_simps settled_env assms(1))
qed

lemma refresh_wrong_type:
  assumes "clean ok view durable w" and "fst (ts_decode T (rc_refresh_token c) (env w)) = Inr p"
    and "tp_token_type p \<noteq> Refresh"
  shows "raises (refresh_execute U T C c w) (raised InvalidTokenError)
    (settled ok view durable w (durable (store w)))"
proof -
  obtain n where "ts_decode T (rc_refresh_token c) (env w) = (Inr p, (env w)\<lparr>clock_reads := n\<rparr>)"
      "env_ok ((env w)\<lparr>clock_reads := n\<rparr>)"
    using decode_step [OF assms(1,2)] .
  then show ?thesis
    by (simp add: raises_def refresh_execute_def io_simps settled_env assms(1,3))
qed

text \<open>The common prefix of the remaining branches: decode, then look the record up.\<close>

lemma decode_and_lookup:
  assumes clean: "clean ok view durable w" and p: "fst (ts_decode T tok (env w)) = Inr p"
  obtains n s1 where "ts_decode T tok (env w) = (Inr p, (env w)\<lparr>clock_reads := n\<rparr>)"
    and "rr_get_by_jti (uow_refresh_tokens U) (tp_token_id p) (store w) =
      (Inr (st_tokens (durable (store w)) (tp_token_id p)), s1)"
    and "ok s1" "view s1 = durable (store w)" "durable s1 = durable (store w)"
    and "env_ok ((env w)\<lparr>clock_reads := n\<rparr>)"
  using decode_step [OF clean p] get_by_jti [OF clean_parts(1,2) [OF clean]] moved_id [OF clean]
  by (metis yieldsE)

lemma refresh_unknown_jti:
  assumes "clean ok view durable w" and "fst (ts_decode T (rc_refresh_token c) (env w)) = Inr p"
    and "tp_token_type p = Refresh" and "st_tokens (durable (store w)) (tp_token_id p) = None"
  shows "raises (refresh_execute U T C c w) (raised InvalidTokenError)
    (settled ok view durable w (durable (store w)))"
proof -
  obtain n s1 where "ts_decode T (rc_refresh_token c) (env w) = (Inr p, (env w)\<lparr>clock_reads := n\<rparr>)"
      "rr_get_by_jti (uow_refresh_tokens U) (tp_token_id p) (store w) = (Inr None, s1)"
      "ok s1" "view s1 = durable (store w)" "durable s1 = durable (store w)"
      "env_ok ((env w)\<lparr>clock_reads := n\<rparr>)"
    using decode_and_lookup [OF assms(1,2)] assms(4) by metis
  then show ?thesis
    by (simp add: raises_def refresh_execute_def io_simps settled_def clean_def assms(3))
qed

text \<open>A revoked token means it was used before: every token of its family is revoked, and that is
  committed although the request fails.\<close>

lemma refresh_replayed:
  assumes clean: "clean ok view durable w"
    and p: "fst (ts_decode T (rc_refresh_token c) (env w)) = Inr p" "tp_token_type p = Refresh"
    and r: "st_tokens (durable (store w)) (tp_token_id p) = Some r" "is_revoked r"
  shows "\<exists>now. is_utc now \<and>
    raises (refresh_execute U T C c w) (raised InvalidTokenError)
      (settled ok view durable w
        (revoke_where (\<lambda>x. rt_family_id x = rt_family_id r) now (durable (store w))))"
proof -
  obtain n s1 where n: "ts_decode T (rc_refresh_token c) (env w) = (Inr p, (env w)\<lparr>clock_reads := n\<rparr>)"
    and s1: "rr_get_by_jti (uow_refresh_tokens U) (tp_token_id p) (store w) = (Inr (Some r), s1)"
      "ok s1" "view s1 = durable (store w)" "durable s1 = durable (store w)"
    and e1: "env_ok ((env w)\<lparr>clock_reads := n\<rparr>)"
    using decode_and_lookup [OF clean p(1)] r(1) by metis
  obtain now m where now: "C ((env w)\<lparr>clock_reads := n\<rparr>) = (Inr now, (env w)\<lparr>clock_reads := m\<rparr>)"
      "is_utc now"
    using now_run [OF e1] by auto
  obtain s2 where s2: "rr_revoke_family (uow_refresh_tokens U) (rt_family_id r) now s1 = (Inr (), s2)"
      "moved ok view durable (revoke_where (\<lambda>x. rt_family_id x = rt_family_id r) now) s1 s2"
    using revoke_family [OF s1(2) _ now(2), of "rt_family_id r"] s1(3,4) by (auto elim: yieldsE)
  obtain s3 where s3: "uow_commit U s2 = (Inr (), s3)" "ok s3" "view s3 = view s2" "durable s3 = view s2"
    using commit [of s2] s2(2) by (auto simp: moved_def elim: yieldsE)
  have "raises (refresh_execute U T C c w) (raised InvalidTokenError)
      (settled ok view durable w
        (revoke_where (\<lambda>x. rt_family_id x = rt_family_id r) now (durable (store w))))"
    using n s1 e1 now(1) s2 s3 p(2) r(2)
    by (simp add: raises_def refresh_execute_def io_simps settled_def clean_def moved_def)
  with now(2) show ?thesis
    by blast
qed

text \<open>The refusals of a live record: expired, or without an active user behind the subject.\<close>

lemma read_now:
  assumes "refresh_now T C tok w = Inr now" and "ts_decode T tok (env w) = (r, (env w)\<lparr>clock_reads := n\<rparr>)"
    and "env_ok ((env w)\<lparr>clock_reads := n\<rparr>)"
  obtains m where "C ((env w)\<lparr>clock_reads := n\<rparr>) = (Inr now, (env w)\<lparr>clock_reads := m\<rparr>)"
    and "is_utc now"
  using assms now_run [OF assms(3)] by (auto simp: refresh_now_def)

lemma refresh_expired:
  assumes clean: "clean ok view durable w"
    and p: "fst (ts_decode T (rc_refresh_token c) (env w)) = Inr p" "tp_token_type p = Refresh"
    and r: "st_tokens (durable (store w)) (tp_token_id p) = Some r" "\<not> is_revoked r"
    and now: "refresh_now T C (rc_refresh_token c) w = Inr now"
      "timestamp_us (rt_expires_at r) \<le> timestamp_us now"
  shows "raises (refresh_execute U T C c w) (raised TokenExpiredError)
    (settled ok view durable w (durable (store w)))"
proof -
  obtain n s1 where n: "ts_decode T (rc_refresh_token c) (env w) = (Inr p, (env w)\<lparr>clock_reads := n\<rparr>)"
    and s1: "rr_get_by_jti (uow_refresh_tokens U) (tp_token_id p) (store w) = (Inr (Some r), s1)"
      "ok s1" "view s1 = durable (store w)" "durable s1 = durable (store w)"
    and e1: "env_ok ((env w)\<lparr>clock_reads := n\<rparr>)"
    using decode_and_lookup [OF clean p(1)] r(1) by metis
  obtain m where m: "C ((env w)\<lparr>clock_reads := n\<rparr>) = (Inr now, (env w)\<lparr>clock_reads := m\<rparr>)" "is_utc now"
    using read_now [OF now(1) n e1] .
  have "is_utc (rt_expires_at r)"
    using wf_storeD(7) [OF clean_parts(4) [OF clean] r(1)] by (simp add: token_wf_def)
  then have "dt_le (rt_expires_at r) now = Some True"
    using m(2) now(2) by (simp add: dt_le_aware is_utc_aware)
  with n s1 e1 m(1) p(2) r(2) show ?thesis
    by (simp add: raises_def refresh_execute_def io_simps settled_def clean_def)
qed

lemma refresh_no_user:
  assumes clean: "clean ok view durable w"
    and p: "fst (ts_decode T (rc_refresh_token c) (env w)) = Inr p" "tp_token_type p = Refresh"
    and r: "st_tokens (durable (store w)) (tp_token_id p) = Some r" "\<not> is_revoked r"
    and now: "refresh_now T C (rc_refresh_token c) w = Inr now"
      "\<not> timestamp_us (rt_expires_at r) \<le> timestamp_us now"
    and no: "\<And>i. user_id_from_str (tp_subject p) = Inr i \<Longrightarrow>
      active_user (st_users (durable (store w)) (uid_value i)) = None"
  shows "raises (refresh_execute U T C c w) (raised InvalidTokenError)
    (settled ok view durable w (durable (store w)))"
proof -
  obtain n s1 where n: "ts_decode T (rc_refresh_token c) (env w) = (Inr p, (env w)\<lparr>clock_reads := n\<rparr>)"
    and s1: "rr_get_by_jti (uow_refresh_tokens U) (tp_token_id p) (store w) = (Inr (Some r), s1)"
      "ok s1" "view s1 = durable (store w)" "durable s1 = durable (store w)"
    and e1: "env_ok ((env w)\<lparr>clock_reads := n\<rparr>)"
    using decode_and_lookup [OF clean p(1)] r(1) by metis
  obtain m where m: "C ((env w)\<lparr>clock_reads := n\<rparr>) = (Inr now, (env w)\<lparr>clock_reads := m\<rparr>)" "is_utc now"
    using read_now [OF now(1) n e1] .
  have "is_utc (rt_expires_at r)"
    using wf_storeD(7) [OF clean_parts(4) [OF clean] r(1)] by (simp add: token_wf_def)
  then have le: "dt_le (rt_expires_at r) now = Some False"
    using m(2) now(2) by (simp add: dt_le_aware is_utc_aware)
  show ?thesis
  proof (cases "user_id_from_str (tp_subject p)")
    case (Inl x)
    with n s1 e1 m(1) le p(2) r(2) user_id_from_str_error [OF Inl] show ?thesis
      by (simp add: raises_def refresh_execute_def io_simps settled_def clean_def)
  next
    case (Inr i)
    obtain s2 where "ur_get_by_id (uow_users U) i s1 = (Inr (st_users (durable (store w)) (uid_value i)), s2)"
        "ok s2" "view s2 = durable (store w)" "durable s2 = durable (store w)"
      using get_by_id [OF s1(2), of i] s1(3,4) by (auto simp: moved_def elim: yieldsE)
    with n s1 e1 m(1) le p(2) r(2) Inr no [OF Inr] show ?thesis
      by (simp add: raises_def refresh_execute_def io_simps settled_def clean_def)
  qed
qed

text \<open>The success: the old token is revoked and its successor, of the same family, added, in one commit.\<close>

lemma refresh_rotates:
  assumes clean: "clean ok view durable w"
    and p: "fst (ts_decode T (rc_refresh_token c) (env w)) = Inr p" "tp_token_type p = Refresh"
    and r: "st_tokens (durable (store w)) (tp_token_id p) = Some r" "\<not> is_revoked r"
    and now: "refresh_now T C (rc_refresh_token c) w = Inr now"
      "\<not> timestamp_us (rt_expires_at r) \<le> timestamp_us now"
    and user: "user_id_from_str (tp_subject p) = Inr i"
      "st_users (durable (store w)) (uid_value i) = Some u" "usr_is_active u"
    and new: "st_tokens (durable (store w)) (next_uuid (env w)) = None"
  shows "\<exists>it access.
    is_utc (it_expires_at it) \<and>
    (\<forall>e2. fresh it e2 \<longrightarrow> fst (ts_decode T (it_token it) e2) =
       Inr \<lparr>tp_subject = user_id_str (usr_id u), tp_token_type = Refresh,
            tp_token_id = next_uuid (env w)\<rparr>) \<and>
    yields (refresh_execute U T C c w)
      \<lparr>pair_access_token = access, pair_refresh_token = it_token it, pair_token_type = Bearer\<rparr>
      (settled ok view durable w
        (put_token (successor r u (next_uuid (env w)) (it_expires_at it))
          (put_token (revoke now r) (durable (store w)))))"
proof -
  let ?st = "durable (store w)" and ?sub = "user_id_str (usr_id u)" and ?j = "next_uuid (env w)"
  note ok = clean_parts [OF clean]
  note wf = wf_storeD [OF ok(4)]
  obtain n s1 where n: "ts_decode T (rc_refresh_token c) (env w) = (Inr p, (env w)\<lparr>clock_reads := n\<rparr>)"
    and s1: "rr_get_by_jti (uow_refresh_tokens U) (tp_token_id p) (store w) = (Inr (Some r), s1)"
      "ok s1" "view s1 = ?st" "durable s1 = ?st"
    and e1: "env_ok ((env w)\<lparr>clock_reads := n\<rparr>)"
    using decode_and_lookup [OF clean p(1)] r(1) by metis
  obtain m where m: "C ((env w)\<lparr>clock_reads := n\<rparr>) = (Inr now, (env w)\<lparr>clock_reads := m\<rparr>)" "is_utc now"
    using read_now [OF now(1) n e1] .
  have tok: "token_wf r" "rt_jti r = tp_token_id p"
    using wf(6,7) [OF r(1)] by simp_all
  have le: "dt_le (rt_expires_at r) now = Some False"
    using m(2) now(2) tok(1) by (simp add: token_wf_def dt_le_aware is_utc_aware)
  have id: "uid_value (usr_id u) = uid_value i"
    using wf(1) [OF user(2)] .
  obtain s2 where s2: "ur_get_by_id (uow_users U) i s1 = (Inr (Some u), s2)"
      "ok s2" "view s2 = ?st" "durable s2 = ?st"
    using get_by_id [OF s1(2), of i] s1(3,4) user(2) by (auto simp: moved_def elim: yieldsE)
  define old where "old = revoke now r"
  have old: "rt_jti old = tp_token_id p" "old = r\<lparr>rt_revoked_at := rt_revoked_at old\<rparr>" "token_wf old"
      "rt_family_id old = rt_family_id r" "rt_user_id old = rt_user_id r"
    using tok revoke_wf [OF tok(1) m(2)] by (simp_all add: old_def)
  obtain s3 where s3: "rr_update (uow_refresh_tokens U) old s2 = (Inr (), s3)"
      "moved ok view durable (put_token old) s2 s3"
    using update_token [OF s2(2) _ _ old(2,3)] r(1) old(1) s2(3,4) by (auto elim: yieldsE)
  define e2 where "e2 = (env w)\<lparr>clock_reads := m, uuid_draws := Suc (uuid_draws (env w))\<rparr>"
  have "env_ok e2"
    using ok(3) by (simp add: e2_def)
  from create_refresh_run [OF this] obtain it k where
    it: "ts_create_refresh_token T ?sub ?j e2 = (Inr it, e2\<lparr>clock_reads := k\<rparr>)"
      "is_utc (it_expires_at it)"
    by blast
  define new_r where "new_r = successor r u ?j (it_expires_at it)"
  have ne: "?j \<noteq> tp_token_id p"
    using new r(1) by auto
  have v3: "view s3 = put_token old ?st" "durable s3 = ?st" "ok s3"
    using s3(2) s2 by (simp_all add: moved_def)
  have "wf_store (put_token old ?st)"
    using wf(8) [OF r(1)] by (intro wf_put_token ok(4) old(3)) (simp add: old(5))
  then have "wf_store (put_token new_r (view s3))"
    using it(2) user(2) id unfolding v3(1)
    by (simp add: wf_put_token token_wf_def new_r_def successor_def)
  moreover have "st_tokens (view s3) (rt_jti new_r) = None"
    using new ne old(1) by (simp add: v3 new_r_def successor_def)
  ultimately obtain s4 where s4: "rr_add (uow_refresh_tokens U) new_r s3 = (Inr (), s4)"
      "moved ok view durable (put_token new_r) s3 s4"
    using add_token [OF v3(3), of new_r] by (auto elim: yieldsE)
  obtain s5 where s5: "uow_commit U s4 = (Inr (), s5)" "ok s5" "view s5 = view s4" "durable s5 = view s4"
    using commit [of s4] s4(2) by (auto simp: moved_def elim: yieldsE)
  have e3: "env_ok (e2\<lparr>clock_reads := k\<rparr>)"
    using \<open>env_ok e2\<close> by simp
  obtain access x y where
    access: "ts_create_access_token T ?sub (e2\<lparr>clock_reads := k\<rparr>) =
      (Inr access, e2\<lparr>clock_reads := k, clock_reads := x, uuid_draws := y\<rparr>)"
    using create_access_run [OF e3] by blast
  let ?w = "w\<lparr>store := s5, env := e2\<lparr>clock_reads := k, clock_reads := x, uuid_draws := y\<rparr>\<rparr>"
  have "uuid_feed (env w) (uuid_draws (env w)) = ?j"
    by (simp add: next_uuid_def)
  with n s1(1) m(1) le p(2) r(2) user(1,3) s2(1) s3(1) it(1) s4(1) s5(1) access old(4)
  have run: "refresh_execute U T C c w =
      (Inr \<lparr>pair_access_token = access, pair_refresh_token = it_token it, pair_token_type = Bearer\<rparr>, ?w)"
    by (simp add: refresh_execute_def io_simps active_user_def Let_def old_def [symmetric]
        e2_def [symmetric] new_r_def successor_def)
  have "settled ok view durable w (put_token new_r (put_token old ?st)) ?w"
    using s4(2) s5 v3 ok(3)
    by (simp add: settled_def clean_def moved_def e2_def)
  with run have "yields (refresh_execute U T C c w)
      \<lparr>pair_access_token = access, pair_refresh_token = it_token it, pair_token_type = Bearer\<rparr>
      (settled ok view durable w (put_token new_r (put_token old ?st)))"
    by (simp add: yields_def)
  with decode_issued [OF it(1)] it(2) show ?thesis
    unfolding new_r_def old_def by blast
qed

section \<open>Logout under the contracts\<close>

lemma logout_undecodable:
  assumes "clean ok view durable w" and "fst (ts_decode T (lo_refresh_token c) (env w)) = Inl x"
  shows "raises (logout_execute U T C c w) x (settled ok view durable w (durable (store w)))"
proof -
  obtain n where "ts_decode T (lo_refresh_token c) (env w) = (Inl x, (env w)\<lparr>clock_reads := n\<rparr>)"
      "env_ok ((env w)\<lparr>clock_reads := n\<rparr>)"
    using decode_step [OF assms] .
  then show ?thesis
    by (simp add: raises_def logout_execute_def io_simps settled_env assms(1))
qed

lemma logout_wrong_type:
  assumes "clean ok view durable w" and "fst (ts_decode T (lo_refresh_token c) (env w)) = Inr p"
    and "tp_token_type p \<noteq> Refresh"
  shows "raises (logout_execute U T C c w) (raised InvalidTokenError)
    (settled ok view durable w (durable (store w)))"
proof -
  obtain n where "ts_decode T (lo_refresh_token c) (env w) = (Inr p, (env w)\<lparr>clock_reads := n\<rparr>)"
      "env_ok ((env w)\<lparr>clock_reads := n\<rparr>)"
    using decode_step [OF assms(1,2)] .
  then show ?thesis
    by (simp add: raises_def logout_execute_def io_simps settled_env assms(1,3))
qed

lemma logout_unknown_jti:
  assumes "clean ok view durable w" and "fst (ts_decode T (lo_refresh_token c) (env w)) = Inr p"
    and "tp_token_type p = Refresh" and "st_tokens (durable (store w)) (tp_token_id p) = None"
  shows "yields (logout_execute U T C c w) () (settled ok view durable w (durable (store w)))"
proof -
  obtain n s1 where "ts_decode T (lo_refresh_token c) (env w) = (Inr p, (env w)\<lparr>clock_reads := n\<rparr>)"
      "rr_get_by_jti (uow_refresh_tokens U) (tp_token_id p) (store w) = (Inr None, s1)"
      "ok s1" "view s1 = durable (store w)" "durable s1 = durable (store w)"
      "env_ok ((env w)\<lparr>clock_reads := n\<rparr>)"
    using decode_and_lookup [OF assms(1,2)] assms(4) by metis
  then show ?thesis
    by (simp add: yields_def logout_execute_def io_simps settled_def clean_def assms(3))
qed

lemma logout_revokes:
  assumes clean: "clean ok view durable w"
    and p: "fst (ts_decode T (lo_refresh_token c) (env w)) = Inr p" "tp_token_type p = Refresh"
    and r: "st_tokens (durable (store w)) (tp_token_id p) = Some r"
  shows "\<exists>now. is_utc now \<and>
    yields (logout_execute U T C c w) ()
      (settled ok view durable w
        (revoke_where (\<lambda>x. rt_family_id x = rt_family_id r) now (durable (store w))))"
proof -
  obtain n s1 where n: "ts_decode T (lo_refresh_token c) (env w) = (Inr p, (env w)\<lparr>clock_reads := n\<rparr>)"
    and s1: "rr_get_by_jti (uow_refresh_tokens U) (tp_token_id p) (store w) = (Inr (Some r), s1)"
      "ok s1" "view s1 = durable (store w)" "durable s1 = durable (store w)"
    and e1: "env_ok ((env w)\<lparr>clock_reads := n\<rparr>)"
    using decode_and_lookup [OF clean p(1)] r by metis
  obtain now m where now: "C ((env w)\<lparr>clock_reads := n\<rparr>) = (Inr now, (env w)\<lparr>clock_reads := m\<rparr>)"
      "is_utc now"
    using now_run [OF e1] by auto
  obtain s2 where s2: "rr_revoke_family (uow_refresh_tokens U) (rt_family_id r) now s1 = (Inr (), s2)"
      "moved ok view durable (revoke_where (\<lambda>x. rt_family_id x = rt_family_id r) now) s1 s2"
    using revoke_family [OF s1(2) _ now(2), of "rt_family_id r"] s1(3,4) by (auto elim: yieldsE)
  obtain s3 where s3: "uow_commit U s2 = (Inr (), s3)" "ok s3" "view s3 = view s2" "durable s3 = view s2"
    using commit [of s2] s2(2) by (auto simp: moved_def elim: yieldsE)
  have "yields (logout_execute U T C c w) ()
      (settled ok view durable w
        (revoke_where (\<lambda>x. rt_family_id x = rt_family_id r) now (durable (store w))))"
    using n s1 e1 now(1) s2 s3 p(2)
    by (simp add: yields_def logout_execute_def io_simps settled_def clean_def moved_def)
  with now(2) show ?thesis
    by blast
qed

end

end
