(* ===== verification/Auth_Spec.thy ===== *)
theory Auth_Spec
  imports Use_Cases_Auth
begin

text \<open>
  What the authentication use cases promise, as functions of the committed account store: the
  decision each takes and the store each leaves. The lemmas in \<open>auth_ports\<close> are the refinement: the
  handlers, run over any ports that keep their contracts, take these decisions and leave these
  stores. The section on families draws the consequences for the refresh tokens of one login.
\<close>

section \<open>Refresh\<close>

datatype refresh_decision =
    Refused exn
  | Replayed refresh_token_record
  | Rotated refresh_token_record user

definition token_owner :: "account_store \<Rightarrow> token_payload \<Rightarrow> user option" where
  "token_owner st p =
     (case user_id_from_str (tp_subject p) of
        Inl _ \<Rightarrow> None
      | Inr i \<Rightarrow> active_user (st_users st (uid_value i)))"

definition refresh_decision :: "account_store \<Rightarrow> exn + token_payload \<Rightarrow> datetime \<Rightarrow> refresh_decision" where
  "refresh_decision st decoded now =
     (case decoded of
        Inl x \<Rightarrow> Refused x
      | Inr p \<Rightarrow>
          if tp_token_type p \<noteq> Refresh then Refused (raised InvalidTokenError)
          else (case st_tokens st (tp_token_id p) of
            None \<Rightarrow> Refused (raised InvalidTokenError)
          | Some r \<Rightarrow>
              if is_revoked r then Replayed r
              else if timestamp_us (rt_expires_at r) \<le> timestamp_us now
              then Refused (raised TokenExpiredError)
              else (case token_owner st p of
                None \<Rightarrow> Refused (raised InvalidTokenError)
              | Some u \<Rightarrow> Rotated r u)))"

definition revoke_family :: "uuid \<Rightarrow> datetime \<Rightarrow> account_store \<Rightarrow> account_store" where
  "revoke_family f at = revoke_where (\<lambda>r. rt_family_id r = f) at"

definition rotate ::
  "refresh_token_record \<Rightarrow> user \<Rightarrow> datetime \<Rightarrow> uuid \<Rightarrow> datetime \<Rightarrow> account_store \<Rightarrow> account_store" where
  "rotate r u now j expires_at st =
     put_token (successor r u j expires_at) (put_token (revoke now r) st)"

text \<open>The answer and the store left by a refresh that decided \<open>d\<close>, in the world \<open>w\<close>.\<close>

definition refresh_outcome ::
  "token_service \<Rightarrow> (issued_token \<Rightarrow> env \<Rightarrow> bool) \<Rightarrow> (account_store \<Rightarrow> ('s, 'r) world \<Rightarrow> bool) \<Rightarrow>
   account_store \<Rightarrow> uuid \<Rightarrow> refresh_decision \<Rightarrow> (exn + token_pair) \<times> ('s, 'r) world \<Rightarrow> bool" where
  "refresh_outcome T fresh left st j d out =
     (case d of
        Refused x \<Rightarrow> raises out x (left st)
      | Replayed r \<Rightarrow>
          \<exists>now. is_utc now \<and>
            raises out (raised InvalidTokenError) (left (revoke_family (rt_family_id r) now st))
      | Rotated r u \<Rightarrow>
          \<exists>now it access. is_utc now \<and> is_utc (it_expires_at it) \<and>
            (\<forall>e. fresh it e \<longrightarrow> fst (ts_decode T (it_token it) e) =
               Inr \<lparr>tp_subject = user_id_str (usr_id u), tp_token_type = Refresh, tp_token_id = j\<rparr>) \<and>
            yields out
              \<lparr>pair_access_token = access, pair_refresh_token = it_token it, pair_token_type = Bearer\<rparr>
              (left (rotate r u now j (it_expires_at it) st)))"

lemma token_owner_Some:
  "token_owner st p = Some u \<longleftrightarrow>
   (\<exists>i. user_id_from_str (tp_subject p) = Inr i \<and> st_users st (uid_value i) = Some u \<and> usr_is_active u)"
  by (auto simp: token_owner_def active_user_Some split: sum.split)

context auth_ports
begin

lemma now_of_clean:
  assumes "clean ok view durable w" and "refresh_now T C tok w = Inr now"
  shows "is_utc now"
proof -
  obtain n where "snd (ts_decode T tok (env w)) = (env w)\<lparr>clock_reads := n\<rparr>"
    using decode_run by blast
  with assms now_run [of "(env w)\<lparr>clock_reads := n\<rparr>"] show ?thesis
    by (auto simp: refresh_now_def clean_def)
qed

lemma refresh_refines:
  assumes clean: "clean ok view durable w"
    and now: "refresh_now T C tok w = Inr now"
    and new: "st_tokens (durable (store w)) (next_uuid (env w)) = None"
  shows "refresh_outcome T fresh (\<lambda>st. settled ok view durable w st) (durable (store w))
    (next_uuid (env w))
    (refresh_decision (durable (store w)) (fst (ts_decode T tok (env w))) now)
    (refresh_execute U T C \<lparr>rc_refresh_token = tok\<rparr> w)"
proof -
  let ?c = "\<lparr>rc_refresh_token = tok\<rparr>" and ?st = "durable (store w)"
  show ?thesis
  proof (cases "fst (ts_decode T tok (env w))")
    case (Inl x)
    with refresh_undecodable [OF clean, of ?c x] show ?thesis
      by (simp add: refresh_outcome_def refresh_decision_def)
  next
    case p: (Inr p)
    show ?thesis
    proof (cases "tp_token_type p = Refresh")
      case False
      with refresh_wrong_type [OF clean, of ?c p] p show ?thesis
        by (simp add: refresh_outcome_def refresh_decision_def)
    next
      case ty: True
      show ?thesis
      proof (cases "st_tokens ?st (tp_token_id p)")
        case None
        with refresh_unknown_jti [OF clean, of ?c p] p ty show ?thesis
          by (simp add: refresh_outcome_def refresh_decision_def)
      next
        case r: (Some r)
        consider "is_revoked r"
          | "\<not> is_revoked r" "timestamp_us (rt_expires_at r) \<le> timestamp_us now"
          | "\<not> is_revoked r" "\<not> timestamp_us (rt_expires_at r) \<le> timestamp_us now" "token_owner ?st p = None"
          | u where "\<not> is_revoked r" "\<not> timestamp_us (rt_expires_at r) \<le> timestamp_us now"
              "token_owner ?st p = Some u"
          by (cases "token_owner ?st p") auto
        then show ?thesis
        proof cases
          case 1
          with refresh_replayed [OF clean, of ?c p r] p ty r show ?thesis
            by (simp add: refresh_outcome_def refresh_decision_def revoke_family_def)
        next
          case 2
          with refresh_expired [OF clean, of ?c p r now] p ty r now show ?thesis
            by (simp add: refresh_outcome_def refresh_decision_def)
        next
          case 3
          then have "\<And>i. user_id_from_str (tp_subject p) = Inr i \<Longrightarrow>
              active_user (st_users ?st (uid_value i)) = None"
            by (simp add: token_owner_def)
          with refresh_no_user [OF clean, of ?c p r now] p ty r now 3 show ?thesis
            by (simp add: refresh_outcome_def refresh_decision_def)
        next
          case 4
          then obtain i where i: "user_id_from_str (tp_subject p) = Inr i"
              "st_users ?st (uid_value i) = Some u" "usr_is_active u"
            by (auto simp: token_owner_Some)
          have d: "refresh_decision ?st (fst (ts_decode T tok (env w))) now = Rotated r u"
            using p ty r 4 by (simp add: refresh_decision_def)
          have "fst (ts_decode T (rc_refresh_token ?c) (env w)) = Inr p"
              "refresh_now T C (rc_refresh_token ?c) w = Inr now"
            using p now by simp_all
          from refresh_rotates [OF clean this(1) ty r 4(1) this(2) 4(2) i new] now_of_clean [OF clean now]
          show ?thesis
            unfolding d refresh_outcome_def rotate_def refresh_decision.case by blast
        qed
      qed
    qed
  qed
qed

end

section \<open>Logout\<close>

definition logout_target :: "account_store \<Rightarrow> exn + token_payload \<Rightarrow> exn + refresh_token_record option" where
  "logout_target st decoded =
     (case decoded of
        Inl x \<Rightarrow> Inl x
      | Inr p \<Rightarrow> if tp_token_type p \<noteq> Refresh then Inl (raised InvalidTokenError)
                 else Inr (st_tokens st (tp_token_id p)))"

definition logout_outcome ::
  "(account_store \<Rightarrow> ('s, 'r) world \<Rightarrow> bool) \<Rightarrow> account_store \<Rightarrow> exn + refresh_token_record option \<Rightarrow>
   (exn + unit) \<times> ('s, 'r) world \<Rightarrow> bool" where
  "logout_outcome left st d out =
     (case d of
        Inl x \<Rightarrow> raises out x (left st)
      | Inr None \<Rightarrow> yields out () (left st)
      | Inr (Some r) \<Rightarrow>
          \<exists>now. is_utc now \<and> yields out () (left (revoke_family (rt_family_id r) now st)))"

context auth_ports
begin

lemma logout_refines:
  assumes clean: "clean ok view durable w"
  shows "logout_outcome (\<lambda>st. settled ok view durable w st) (durable (store w))
    (logout_target (durable (store w)) (fst (ts_decode T tok (env w))))
    (logout_execute U T C \<lparr>lo_refresh_token = tok\<rparr> w)"
proof -
  let ?c = "\<lparr>lo_refresh_token = tok\<rparr>" and ?st = "durable (store w)"
  show ?thesis
  proof (cases "fst (ts_decode T tok (env w))")
    case (Inl x)
    with logout_undecodable [OF clean, of ?c x] show ?thesis
      by (simp add: logout_outcome_def logout_target_def)
  next
    case p: (Inr p)
    show ?thesis
    proof (cases "tp_token_type p = Refresh")
      case False
      with logout_wrong_type [OF clean, of ?c p] p show ?thesis
        by (simp add: logout_outcome_def logout_target_def)
    next
      case ty: True
      show ?thesis
      proof (cases "st_tokens ?st (tp_token_id p)")
        case None
        with logout_unknown_jti [OF clean, of ?c p] p ty show ?thesis
          by (simp add: logout_outcome_def logout_target_def)
      next
        case (Some r)
        with logout_revokes [OF clean, of ?c p r] p ty show ?thesis
          by (simp add: logout_outcome_def logout_target_def revoke_family_def)
      qed
    qed
  qed
qed

end

end
