(* ===== verification/System.thy ===== *)
theory System
  imports Auth_Spec
begin

text \<open>
  The system as a state machine: every request that commits takes the account store one step
  further. \<open>auth_step\<close> has one rule per way a handler commits; the refinement lemmas show that the
  handlers take no other steps, and the invariants hold in every store that can be reached.
\<close>

section \<open>The steps\<close>

definition new_family :: "account_store \<Rightarrow> uuid \<Rightarrow> bool" where
  "new_family st f \<longleftrightarrow> (\<forall>j r. st_tokens st j = Some r \<longrightarrow> rt_family_id r \<noteq> f)"

inductive auth_step :: "account_store \<Rightarrow> account_store \<Rightarrow> bool" where
  registration:
    "user_wf u \<Longrightarrow> user_fits u \<Longrightarrow> \<not> email_taken st (usr_email u) \<Longrightarrow>
     st_users st (uid_value (usr_id u)) = None \<Longrightarrow> auth_step st (put_user u st)"
| password_change:
    "st_users st i = Some u \<Longrightarrow> hashed_password_wf h \<Longrightarrow> length (hp_value h) \<le> 255 \<Longrightarrow> is_utc now \<Longrightarrow>
     auth_step st (revoke_where (\<lambda>r. rt_user_id r = usr_id u) now
       (put_user (user_change_password h u) st))"
| login:
    "st_users st i = Some u \<Longrightarrow> usr_is_active u \<Longrightarrow> st_tokens st j = None \<Longrightarrow> new_family st f \<Longrightarrow>
     is_utc d \<Longrightarrow> auth_step st (put_token (first_token u j f d) st)"
| rotation:
    "live_token st i r \<Longrightarrow> st_users st k = Some u \<Longrightarrow> usr_is_active u \<Longrightarrow> st_tokens st j = None \<Longrightarrow>
     is_utc now \<Longrightarrow> is_utc d \<Longrightarrow> auth_step st (rotate r u now j d st)"
| revocation:
    "is_utc now \<Longrightarrow> auth_step st (revoke_family f now st)"

inductive_cases auth_stepE: "auth_step st st'"

text \<open>The stores reached from the empty one.\<close>

definition empty_store :: account_store where
  "empty_store = \<lparr>st_users = Map.empty, st_tokens = Map.empty\<rparr>"

inductive reachable :: "account_store \<Rightarrow> bool" where
  init: "reachable empty_store"
| step: "reachable st \<Longrightarrow> auth_step st st' \<Longrightarrow> reachable st'"

section \<open>Well-formed stores\<close>

lemma auth_step_wf:
  assumes "auth_step st st'" and "wf_store st"
  shows "wf_store st'"
  using assms
proof (cases rule: auth_step.cases)
  case (registration u)
  then show ?thesis using assms(2) by (simp add: wf_put_user_new)
next
  case (password_change i u h now)
  note wf = wf_storeD [OF assms(2)]
  have "wf_store (put_user (user_change_password h u) st)"
    using wf(1-3) [OF password_change(2)] password_change(2-4)
    by (intro wf_put_user_same_email [OF assms(2), where ?u0.0 = u])
       (simp_all add: user_wf_def user_fits_def user_change_password_def)
  then show ?thesis
    using password_change by (simp add: wf_revoke_where)
next
  case (login i u j f d)
  then show ?thesis
    using wf_storeD(1) [OF assms(2) login(2)]
    by (simp add: wf_put_token assms(2) token_wf_def first_token_def)
next
  case (rotation i r k u j now d)
  note wf = wf_storeD [OF assms(2)]
  have r: "st_tokens st i = Some r"
    using rotation(2) by (simp add: live_token_def)
  have "wf_store (put_token (revoke now r) st)"
    using wf(7,8) [OF r] rotation(6) by (simp add: wf_put_token assms(2) revoke_wf)
  then show ?thesis
    using wf(1) [OF rotation(3)] rotation
    by (simp add: rotate_def wf_put_token token_wf_def successor_def)
next
  case (revocation now f)
  then show ?thesis
    using assms(2) by (simp add: revoke_family_def wf_revoke_where)
qed

lemma empty_store_wf: "wf_store empty_store"
  by (simp add: wf_store_def empty_store_def)

lemma reachable_wf: "reachable st \<Longrightarrow> wf_store st"
  by (induction rule: reachable.induct) (auto intro: auth_step_wf empty_store_wf)

section \<open>Families of refresh tokens\<close>

text \<open>A family is the chain of rotations of one login. It has at most one usable token; a family
  without a usable token never gets one again.\<close>

definition family_live :: "account_store \<Rightarrow> uuid \<Rightarrow> uuid \<Rightarrow> bool" where
  "family_live st f j \<longleftrightarrow> (\<exists>r. live_token st j r \<and> rt_family_id r = f)"

definition one_live_token :: "account_store \<Rightarrow> bool" where
  "one_live_token st \<longleftrightarrow> (\<forall>f i j. family_live st f i \<longrightarrow> family_live st f j \<longrightarrow> i = j)"

definition family_dead :: "account_store \<Rightarrow> uuid \<Rightarrow> bool" where
  "family_dead st f \<longleftrightarrow> \<not> new_family st f \<and> (\<forall>j. \<not> family_live st f j)"

lemma family_live_iff:
  "family_live st f j \<longleftrightarrow>
   (\<exists>r. st_tokens st j = Some r \<and> rt_revoked_at r = None \<and> rt_family_id r = f)"
  by (auto simp: family_live_def live_token_def is_revoked_def)

lemma family_live_put_user [simp]: "family_live (put_user u st) f j = family_live st f j"
  by (simp add: family_live_iff)

lemma family_live_revoke_where:
  "family_live (revoke_where P at st) f j \<longleftrightarrow>
   (\<exists>r. st_tokens st j = Some r \<and> rt_revoked_at r = None \<and> rt_family_id r = f \<and> \<not> P r)"
  by (cases "st_tokens st j") (auto simp: family_live_iff revoke_def)

lemma family_live_first:
  assumes "st_tokens st j = None" and "new_family st f"
  shows "family_live (put_token (first_token u j f d) st) g i \<longleftrightarrow>
    (if i = j then g = f else family_live st g i)"
  using assms by (auto simp: family_live_iff first_token_def)

lemma family_live_rotate:
  assumes "wf_store st" and "live_token st i r" and "st_tokens st j = None"
  shows "family_live (rotate r u now j d st) g k \<longleftrightarrow>
    (if k = j then g = rt_family_id r else if k = i then False else family_live st g k)"
proof -
  have "rt_jti r = i" "rt_revoked_at r = None" "i \<noteq> j"
    using assms wf_storeD(6) [OF assms(1)] by (auto simp: live_token_def is_revoked_def)
  then show ?thesis
    by (auto simp: family_live_iff rotate_def successor_def revoke_def)
qed

lemma auth_step_one_live:
  assumes "auth_step st st'" and "wf_store st" and "one_live_token st"
  shows "one_live_token st'"
  using assms(1)
proof (cases rule: auth_step.cases)
  case (registration u)
  then show ?thesis using assms(3) by (simp add: one_live_token_def)
next
  case (password_change i u h now)
  then show ?thesis
    using assms(3) unfolding one_live_token_def password_change(1) family_live_revoke_where
    by (simp add: family_live_iff) blast
next
  case (login i u j f d)
  have "\<And>k. \<not> family_live st f k"
    using login(5) by (auto simp: new_family_def family_live_iff)
  then show ?thesis
    using assms(3) unfolding one_live_token_def login(1) family_live_first [OF login(4,5)]
    by (metis (full_types))
next
  case (rotation i r k u j now d)
  have "family_live st (rt_family_id r) i"
    using rotation(2) by (auto simp: family_live_def)
  then show ?thesis
    using assms(3) unfolding one_live_token_def rotation(1) family_live_rotate [OF assms(2) rotation(2,5)]
    by (metis (full_types))
next
  case (revocation now f)
  then show ?thesis
    using assms(3) unfolding one_live_token_def revocation(1) revoke_family_def family_live_revoke_where
    by (simp add: family_live_iff) blast
qed

lemma reachable_one_live: "reachable st \<Longrightarrow> one_live_token st"
proof (induction rule: reachable.induct)
  case init
  then show ?case by (simp add: one_live_token_def family_live_iff empty_store_def)
next
  case (step st st')
  then show ?case by (blast intro: auth_step_one_live reachable_wf)
qed

text \<open>What no step undoes.\<close>

lemma auth_step_used:
  assumes "auth_step st st'" and "\<not> new_family st f" and "wf_store st"
  shows "\<not> new_family st' f"
proof -
  obtain i r where r: "st_tokens st i = Some r" "rt_family_id r = f"
    using assms(2) by (auto simp: new_family_def)
  have jti: "rt_jti r = i"
    using wf_storeD(6) [OF assms(3) r(1)] .
  have "\<exists>q. st_tokens st' i = Some q \<and> rt_family_id q = f"
    using assms(1)
  proof (cases rule: auth_step.cases)
    case (rotation i' r' k u j now d)
    have "rt_jti r' = i'" "st_tokens st i' = Some r'"
      using wf_storeD(6) [OF assms(3)] rotation(2) by (auto simp: live_token_def)
    with rotation r show ?thesis
      by (cases "i = i'") (auto simp: rotate_def successor_def)
  qed (use r in \<open>auto simp: first_token_def revoke_family_def\<close>)
  then show ?thesis
    by (auto simp: new_family_def)
qed

lemma auth_step_dead:
  assumes "auth_step st st'" and "wf_store st" and "family_dead st f"
  shows "family_dead st' f"
proof -
  have dead: "\<And>j. \<not> family_live st f j" and used: "\<not> new_family st f"
    using assms(3) by (auto simp: family_dead_def)
  have "\<not> family_live st' f j" for j
    using assms(1)
  proof (cases rule: auth_step.cases)
    case (registration u)
    then show ?thesis using dead by simp
  next
    case (password_change i u h now)
    then show ?thesis
      using dead unfolding password_change(1) family_live_revoke_where by (auto simp: family_live_iff)
  next
    case (login i u j' g d)
    then show ?thesis
      using dead used unfolding login(1) family_live_first [OF login(4,5)] by auto
  next
    case (rotation i r k u j' now d)
    have "family_live st (rt_family_id r) i"
      using rotation(2) by (auto simp: family_live_def)
    then show ?thesis
      using dead unfolding rotation(1) family_live_rotate [OF assms(2) rotation(2,5)] by auto
  next
    case (revocation now g)
    then show ?thesis
      using dead unfolding revocation(1) revoke_family_def family_live_revoke_where
      by (auto simp: family_live_iff)
  qed
  with auth_step_used [OF assms(1) used assms(2)] show ?thesis
    by (simp add: family_dead_def)
qed

text \<open>A revoked record is final: no step changes it, its time of revocation included.\<close>

lemma auth_step_revoked:
  assumes "auth_step st st'" and "wf_store st" and "st_tokens st j = Some r" and "is_revoked r"
  shows "st_tokens st' j = Some r"
  using assms(1)
proof (cases rule: auth_step.cases)
  case (rotation i q k u j' now d)
  have "rt_jti q = i" "st_tokens st i = Some q" "\<not> is_revoked q"
    using wf_storeD(6) [OF assms(2)] rotation(2) by (auto simp: live_token_def)
  with rotation assms(3,4) show ?thesis
    by (auto simp: rotate_def successor_def)
qed (use assms(3,4) in \<open>auto simp: first_token_def revoke_family_def\<close>)

text \<open>A user keeps the id, the address and the time of creation.\<close>

lemma auth_step_user:
  assumes "auth_step st st'" and "wf_store st" and "st_users st i = Some u"
  shows "\<exists>v. st_users st' i = Some v \<and> usr_id v = usr_id u \<and> usr_email v = usr_email u \<and>
    usr_created_at v = usr_created_at u \<and> usr_is_active v = usr_is_active u"
  using assms(1)
proof (cases rule: auth_step.cases)
  case (registration q)
  then show ?thesis using assms(3) by auto
next
  case (password_change k q h now)
  have "uid_value (usr_id q) = k"
    using wf_storeD(1) [OF assms(2) password_change(2)] .
  with password_change assms(3) show ?thesis
    by (auto simp: user_change_password_def)
qed (use assms(3) in \<open>auto simp: rotate_def revoke_family_def\<close>)

text \<open>Invariants along any sequence of requests.\<close>

lemma steps_wf:
  assumes "auth_step\<^sup>*\<^sup>* st st'" and "wf_store st"
  shows "wf_store st'"
  using assms by (induction rule: rtranclp.induct) (auto intro: auth_step_wf)

lemma steps_dead:
  assumes "auth_step\<^sup>*\<^sup>* st st'" and "wf_store st" and "family_dead st f"
  shows "family_dead st' f"
  using assms by (induction rule: rtranclp.induct) (auto intro: auth_step_dead steps_wf)

lemma steps_revoked:
  assumes "auth_step\<^sup>*\<^sup>* st st'" and "wf_store st" and "st_tokens st j = Some r" and "is_revoked r"
  shows "st_tokens st' j = Some r"
  using assms by (induction rule: rtranclp.induct) (auto intro: auth_step_revoked steps_wf)

section \<open>The handlers take these steps\<close>

text \<open>The identifiers a request is about to draw are unused; \<^verbatim>\<open>uuid4\<close> makes a clash as unlikely as
  guessing 122 random bits.\<close>

definition fresh_ids :: "account_store \<Rightarrow> env \<Rightarrow> bool" where
  "fresh_ids st e \<longleftrightarrow>
     st_users st (next_uuid e) = None \<and> st_tokens st (next_uuid e) = None \<and> new_family st (next_family e)"

text \<open>A request takes one step or none.\<close>

definition steps_to :: "account_store \<Rightarrow> account_store \<Rightarrow> bool" where
  "steps_to st st' \<longleftrightarrow> st' = st \<or> auth_step st st'"

definition left_by ::
  "('s \<Rightarrow> bool) \<Rightarrow> ('s \<Rightarrow> account_store) \<Rightarrow> ('s \<Rightarrow> account_store) \<Rightarrow> ('s, 'r) world \<Rightarrow> account_store \<Rightarrow> bool" where
  "left_by ok view durable w st \<longleftrightarrow> clean ok view durable w \<and> steps_to st (durable (store w))"

context auth_ports
begin

lemma refresh_step:
  assumes clean: "clean ok view durable w" and ids: "fresh_ids (durable (store w)) (env w)"
  shows "left_by ok view durable (snd (refresh_execute U T C \<lparr>rc_refresh_token = tok\<rparr> w))
    (durable (store w))"
proof -
  let ?st = "durable (store w)"
  obtain n where "snd (ts_decode T tok (env w)) = (env w)\<lparr>clock_reads := n\<rparr>"
    using decode_run by blast
  then obtain now where now: "refresh_now T C tok w = Inr now"
    using now_run [of "(env w)\<lparr>clock_reads := n\<rparr>"] clean by (auto simp: refresh_now_def clean_def)
  have new: "st_tokens ?st (next_uuid (env w)) = None"
    using ids by (simp add: fresh_ids_def)
  note out = refresh_refines [OF clean now new]
  show ?thesis
  proof (cases "refresh_decision ?st (fst (ts_decode T tok (env w))) now")
    case (Refused x)
    with out show ?thesis
      by (simp add: refresh_outcome_def raises_def settled_def left_by_def steps_to_def)
  next
    case (Replayed r)
    with out show ?thesis
      by (auto simp: refresh_outcome_def raises_def settled_def left_by_def steps_to_def
          intro: auth_step.revocation)
  next
    case (Rotated r u)
    have "\<exists>p. live_token ?st (tp_token_id p) r \<and> token_owner ?st p = Some u"
      using Rotated by (auto simp: refresh_decision_def live_token_def
          split: sum.splits if_splits option.splits)
    then obtain i k where "live_token ?st i r" "st_users ?st k = Some u" "usr_is_active u"
      by (auto simp: token_owner_Some)
    with out Rotated new show ?thesis
      by (auto simp: refresh_outcome_def yields_def settled_def left_by_def steps_to_def
          intro: auth_step.rotation)
  qed
qed

lemma logout_step:
  assumes clean: "clean ok view durable w"
  shows "left_by ok view durable (snd (logout_execute U T C \<lparr>lo_refresh_token = tok\<rparr> w))
    (durable (store w))"
  using logout_refines [OF clean, of tok]
  by (auto simp: logout_outcome_def raises_def yields_def settled_def left_by_def steps_to_def
      intro: auth_step.revocation split: sum.splits option.splits)

lemma login_step:
  assumes clean: "clean ok view durable w" and known: "all_known known (durable (store w))"
    and ids: "fresh_ids (durable (store w)) (env w)"
  shows "left_by ok view durable (snd (login_execute U H T c w)) (durable (store w))"
proof (cases "email_new (lc_email c)")
  case (Inl x)
  with clean show ?thesis
    by (simp add: login_malformed left_by_def steps_to_def)
next
  case (Inr em)
  show ?thesis
  proof (cases "\<exists>u. login_user matches (durable (store w)) c u")
    case False
    with login_refused [OF clean known Inr] show ?thesis
      by (simp add: raises_def settled_def left_by_def steps_to_def)
  next
    case True
    then obtain u where u: "login_user matches (durable (store w)) c u" by blast
    then have st: "st_users (durable (store w)) (uid_value (usr_id u)) = Some u" "usr_is_active u"
      by (auto simp: login_user_def has_email_def)
    have new: "st_tokens (durable (store w)) (next_uuid (env w)) = None"
      using ids by (simp add: fresh_ids_def)
    obtain it :: issued_token and access where it: "is_utc (it_expires_at it)"
      and y: "yields (login_execute U H T c w)
        \<lparr>pair_access_token = access, pair_refresh_token = it_token it, pair_token_type = Bearer\<rparr>
        (\<lambda>w'. settled ok view durable w
            (put_token (first_token u (next_uuid (env w)) (next_family (env w)) (it_expires_at it))
              (durable (store w))) w' \<and>
          argon_runs (env w') = Suc (argon_runs (env w)))"
      using login_succeeds [OF clean known u new] by blast
    have left: "clean ok view durable (snd (login_execute U H T c w))"
      "durable (store (snd (login_execute U H T c w))) =
        put_token (first_token u (next_uuid (env w)) (next_family (env w)) (it_expires_at it))
          (durable (store w))"
      using y by (simp_all add: yields_def settled_def)
    have "auth_step (durable (store w)) (durable (store (snd (login_execute U H T c w))))"
      unfolding left(2) using st ids it by (intro auth_step.login) (simp_all add: fresh_ids_def)
    with left(1) show ?thesis
      by (simp add: left_by_def steps_to_def)
  qed
qed

lemma change_password_step:
  assumes clean: "clean ok view durable w" and known: "all_known known (durable (store w))"
  shows "left_by ok view durable (snd (change_password_execute U H C c w)) (durable (store w))"
proof (cases "st_users (durable (store w)) (cp_user_id c)")
  case None
  with change_password_unknown_user [OF clean None] show ?thesis
    by (simp add: raises_def settled_def left_by_def steps_to_def)
next
  case (Some u)
  then have k: "known (hp_value (usr_hashed_password u))"
    using known by (auto simp: all_known_def)
  show ?thesis
  proof (cases "matches (cp_current_password c) (hp_value (usr_hashed_password u))")
    case False
    with change_password_wrong_current [OF clean Some k] show ?thesis
      by (simp add: raises_def settled_def left_by_def steps_to_def)
  next
    case True
    from change_password_succeeds [OF clean Some k True] obtain h now where h: "is_utc now"
      "clean ok view durable (snd (change_password_execute U H C c w))"
      "durable (store (snd (change_password_execute U H C c w))) =
        revoke_where (\<lambda>r. rt_user_id r = usr_id u) now
          (put_user (user_change_password (HashedPassword h) u) (durable (store w)))"
      by (auto simp: yields_def settled_def)
    have "st_users (durable (store (snd (change_password_execute U H C c w)))) (uid_value (usr_id u)) =
        Some (stored (user_change_password (HashedPassword h) u))"
      using h(3) by (simp add: user_change_password_def)
    then have "user_wf (user_change_password (HashedPassword h) u)"
        "user_fits (user_change_password (HashedPassword h) u)"
      using clean_parts(4) [OF h(2)] wf_storeD(2,3) by (metis stored_wf)+
    with h Some show ?thesis
      by (auto simp: left_by_def steps_to_def user_wf_def user_fits_def user_change_password_def
          intro!: auth_step.password_change [of _ "cp_user_id c" u "HashedPassword h" now,
            unfolded user_change_password_def])
  qed
qed

lemma create_user_step:
  assumes clean: "clean ok view durable w" and ids: "fresh_ids (durable (store w)) (env w)"
    and len: "\<And>em. email_new (cu_email c) = Inr em \<Longrightarrow> length (email_value em) \<le> 320"
    and D: "\<And>events e. env_ok e \<Longrightarrow> env_ok (snd (D events e))"
  shows "left_by ok view durable (snd (create_user_execute U H C D c w)) (durable (store w))"
proof (cases "email_new (cu_email c)")
  case (Inl x)
  with clean show ?thesis
    by (simp add: create_user_invalid_email left_by_def steps_to_def)
next
  case (Inr em)
  show ?thesis
  proof (cases "email_taken (durable (store w)) em")
    case True
    with create_user_duplicate [OF clean Inr] show ?thesis
      by (simp add: raises_def settled_def left_by_def steps_to_def)
  next
    case False
    have new: "st_users (durable (store w)) (next_uuid (env w)) = None"
      using ids by (simp add: fresh_ids_def)
    obtain u w' where u: "usr_id u = UserId (next_uuid (env w))" "usr_email u = em"
      and w': "clean ok view durable w'" "durable (store w') = put_user u (durable (store w))"
      and run: "create_user_execute U H C D c w =
        thenM (on_env (D [UserRegistered (next_uuid (env w)) (email_value em) (usr_created_at u)]))
          (retM \<lparr>uv_id = next_uuid (env w), uv_email = email_value em, uv_is_active = True,
                 uv_created_at = usr_created_at u\<rparr>) w'"
      using create_user_registers [OF clean Inr len [OF Inr] False new, where D = D]
      unfolding settled_def by metis
    have "st_users (durable (store w')) (uid_value (usr_id u)) = Some (stored u)"
      by (simp add: w'(2))
    then have "user_wf u" "user_fits u"
      using clean_parts(4) [OF w'(1)] wf_storeD(2,3) by (metis stored_wf)+
    then have "auth_step (durable (store w)) (durable (store w'))"
      unfolding w'(2) using False new by (intro auth_step.registration) (simp_all add: u)
    moreover have "store (snd (create_user_execute U H C D c w)) = store w'"
        "env_ok (env (snd (create_user_execute U H C D c w)))"
      using D [of "env w'"] w'(1) unfolding run
      by (auto simp: io_simps clean_def split: prod.split sum.split) (metis snd_conv)+
    ultimately show ?thesis
      using w'(1) by (simp add: left_by_def steps_to_def clean_def)
  qed
qed

text \<open>Whoever changes a password holds no usable refresh token afterwards.\<close>

lemma change_password_effect:
  assumes clean: "clean ok view durable w" and known: "all_known known (durable (store w))"
    and run: "change_password_execute U H C c w = (Inr (), w1)"
  obtains u h now where "st_users (durable (store w)) (cp_user_id c) = Some u"
    and "uid_value (usr_id u) = cp_user_id c" and "matches (cp_new_password c) h" and "is_utc now"
    and "settled ok view durable w (revoke_where (\<lambda>r. rt_user_id r = usr_id u) now
      (put_user (user_change_password (HashedPassword h) u) (durable (store w)))) w1"
proof -
  let ?st = "durable (store w)"
  have "st_users ?st (cp_user_id c) \<noteq> None"
    using change_password_unknown_user [OF clean, of c] run by (auto simp: raises_def)
  then obtain u where u: "st_users ?st (cp_user_id c) = Some u" by blast
  then have k: "known (hp_value (usr_hashed_password u))"
    using known by (auto simp: all_known_def)
  have "matches (cp_current_password c) (hp_value (usr_hashed_password u))"
    using change_password_wrong_current [OF clean u k] run by (auto simp: raises_def)
  from change_password_succeeds [OF clean u k this] run that [OF u] show ?thesis
    using wf_storeD(1) [OF clean_parts(4) [OF clean] u] by (auto elim: yieldsE)
qed

lemma change_password_revokes:
  assumes clean: "clean ok view durable w" and known: "all_known known (durable (store w))"
    and run: "change_password_execute U H C c w = (Inr (), w1)"
    and r: "st_tokens (durable (store w)) j = Some r" "uid_value (rt_user_id r) = cp_user_id c"
  shows "clean ok view durable w1 \<and> (\<exists>now. st_tokens (durable (store w1)) j = Some (revoke now r))"
proof -
  obtain u h now where u: "uid_value (usr_id u) = cp_user_id c"
    and w1: "settled ok view durable w (revoke_where (\<lambda>r. rt_user_id r = usr_id u) now
      (put_user (user_change_password (HashedPassword h) u) (durable (store w)))) w1"
    using change_password_effect [OF clean known run] .
  have "rt_user_id r = usr_id u"
    using u r(2) by (metis user_id.expand)
  with w1 r(1) show ?thesis
    by (auto simp: settled_def)
qed

text \<open>A token that was rotated once and comes back takes its whole family down.\<close>

lemma revoke_family_dead:
  assumes "st_tokens st j = Some r"
  shows "family_dead (revoke_family (rt_family_id r) now st) (rt_family_id r)"
proof -
  have "st_tokens (revoke_family (rt_family_id r) now st) j = Some (revoke now r)"
    using assms by (simp add: revoke_family_def)
  then have "\<not> new_family (revoke_family (rt_family_id r) now st) (rt_family_id r)"
    unfolding new_family_def by (metis revoke_fields(3))
  then show ?thesis
    unfolding family_dead_def revoke_family_def family_live_revoke_where by blast
qed

lemma some_now:
  assumes "clean ok view durable w"
  obtains now where "refresh_now T C tok w = Inr now"
proof -
  obtain n where n: "snd (ts_decode T tok (env w)) = (env w)\<lparr>clock_reads := n\<rparr>"
    using decode_run by blast
  have "env_ok ((env w)\<lparr>clock_reads := n\<rparr>)"
    using assms by (simp add: clean_def)
  from now_run [OF this] n that show ?thesis
    by (auto simp: refresh_now_def)
qed

lemma refresh_success:
  assumes clean: "clean ok view durable w" and ids: "fresh_ids (durable (store w)) (env w)"
    and run: "refresh_execute U T C \<lparr>rc_refresh_token = tok\<rparr> w = (Inr pair, w1)"
  obtains p r u now d where "fst (ts_decode T tok (env w)) = Inr p" "tp_token_type p = Refresh"
    and "live_token (durable (store w)) (tp_token_id p) r"
    and "clean ok view durable w1"
    and "durable (store w1) = rotate r u now (next_uuid (env w)) d (durable (store w))"
    and "token_owner (durable (store w)) p = Some u"
proof -
  let ?st = "durable (store w)"
  obtain now where now: "refresh_now T C tok w = Inr now"
    using some_now [OF clean] .
  have new: "st_tokens ?st (next_uuid (env w)) = None"
    using ids by (simp add: fresh_ids_def)
  note out = refresh_refines [OF clean now new]
  have "\<exists>r u. refresh_decision ?st (fst (ts_decode T tok (env w))) now = Rotated r u"
    using out run
    by (cases "refresh_decision ?st (fst (ts_decode T tok (env w))) now")
       (auto simp: refresh_outcome_def raises_def)
  then obtain r u where d: "refresh_decision ?st (fst (ts_decode T tok (env w))) now = Rotated r u"
    by blast
  then obtain p where "fst (ts_decode T tok (env w)) = Inr p" "tp_token_type p = Refresh"
      "live_token ?st (tp_token_id p) r" "token_owner ?st p = Some u"
    by (auto simp: refresh_decision_def live_token_def split: sum.splits if_splits option.splits)
  with out run that show ?thesis
    unfolding d by (auto simp: refresh_outcome_def yields_def settled_def)
qed

text \<open>A token whose record is revoked is refused, in this store and in every later one.\<close>

lemma refresh_revoked:
  assumes clean: "clean ok view durable w" and p: "fst (ts_decode T tok (env w)) = Inr p"
    and r: "st_tokens (durable (store w)) (tp_token_id p) = Some r" "is_revoked r"
  shows "fst (refresh_execute U T C \<lparr>rc_refresh_token = tok\<rparr> w) = Inl (raised InvalidTokenError)"
proof (cases "tp_token_type p = Refresh")
  case True
  with refresh_replayed [OF clean _ _ r, of "\<lparr>rc_refresh_token = tok\<rparr>"] p show ?thesis
    by (auto simp: raises_def)
next
  case False
  with refresh_wrong_type [OF clean, of "\<lparr>rc_refresh_token = tok\<rparr>" p] p show ?thesis
    by (auto simp: raises_def)
qed

lemma refresh_revoked_later:
  assumes clean: "clean ok view durable w1" and later: "clean ok view durable w2"
    and steps: "auth_step\<^sup>*\<^sup>* (durable (store w1)) (durable (store w2))"
    and r: "st_tokens (durable (store w1)) (tp_token_id p) = Some r" "is_revoked r"
    and p: "fst (ts_decode T tok (env w2)) = Inr p"
  shows "fst (refresh_execute U T C \<lparr>rc_refresh_token = tok\<rparr> w2) = Inl (raised InvalidTokenError)"
  using refresh_revoked [OF later p steps_revoked [OF steps clean_parts(4) [OF clean] r] r(2)] .

lemma logout_revokes_record:
  assumes clean: "clean ok view durable w"
    and run: "logout_execute U T C \<lparr>lo_refresh_token = tok\<rparr> w = (Inr (), w1)"
    and q: "logout_target (durable (store w)) (fst (ts_decode T tok (env w))) = Inr (Some q)"
    and r: "st_tokens (durable (store w)) j = Some r" "rt_family_id r = rt_family_id q"
  shows "clean ok view durable w1 \<and> (\<exists>now. st_tokens (durable (store w1)) j = Some (revoke now r))"
  using logout_refines [OF clean, of tok] run r
  by (auto simp: q logout_outcome_def yields_def settled_def revoke_family_def)

lemma refresh_again:
  assumes clean: "clean ok view durable w" and ids: "fresh_ids (durable (store w)) (env w)"
    and run: "refresh_execute U T C \<lparr>rc_refresh_token = tok\<rparr> w = (Inr pair, w1)"
    and later: "clean ok view durable w2" "auth_step\<^sup>*\<^sup>* (durable (store w1)) (durable (store w2))"
    and same: "fst (ts_decode T tok (env w2)) = fst (ts_decode T tok (env w))"
  shows "\<exists>p r now. fst (ts_decode T tok (env w)) = Inr p \<and>
    live_token (durable (store w)) (tp_token_id p) r \<and> is_utc now \<and>
    raises (refresh_execute U T C \<lparr>rc_refresh_token = tok\<rparr> w2) (raised InvalidTokenError)
      (\<lambda>w3. settled ok view durable w2 (revoke_family (rt_family_id r) now (durable (store w2))) w3 \<and>
        family_dead (durable (store w3)) (rt_family_id r))"
proof -
  obtain p r u now d where p: "fst (ts_decode T tok (env w)) = Inr p" "tp_token_type p = Refresh"
    and r: "live_token (durable (store w)) (tp_token_id p) r"
    and w1: "clean ok view durable w1"
      "durable (store w1) = rotate r u now (next_uuid (env w)) d (durable (store w))"
    using refresh_success [OF clean ids run] by metis
  have "rt_jti r = tp_token_id p" "tp_token_id p \<noteq> next_uuid (env w)"
    using r ids wf_storeD(6) [OF clean_parts(4) [OF clean]] by (auto simp: live_token_def fresh_ids_def)
  then have "st_tokens (durable (store w1)) (tp_token_id p) = Some (revoke now r)"
    by (simp add: w1(2) rotate_def successor_def)
  with later(2) clean_parts(4) [OF w1(1)]
  have old: "st_tokens (durable (store w2)) (tp_token_id p) = Some (revoke now r)"
    by (simp add: steps_revoked)
  have p2: "fst (ts_decode T (rc_refresh_token \<lparr>rc_refresh_token = tok\<rparr>) (env w2)) = Inr p"
    using p(1) by (simp add: same)
  have dead: "family_dead (revoke_family (rt_family_id r) at (durable (store w2))) (rt_family_id r)" for at
    using revoke_family_dead [OF old] by simp
  obtain at where at: "is_utc at" "raises (refresh_execute U T C \<lparr>rc_refresh_token = tok\<rparr> w2)
      (raised InvalidTokenError)
      (settled ok view durable w2 (revoke_family (rt_family_id r) at (durable (store w2))))"
    using refresh_replayed [OF later(1) p2 p(2) old] by (auto simp: revoke_family_def)
  then have "raises (refresh_execute U T C \<lparr>rc_refresh_token = tok\<rparr> w2) (raised InvalidTokenError)
      (\<lambda>w3. settled ok view durable w2 (revoke_family (rt_family_id r) at (durable (store w2))) w3 \<and>
        family_dead (durable (store w3)) (rt_family_id r))"
    by (auto simp: raises_def settled_def dead)
  with p(1) r at(1) show ?thesis by blast
qed

end

end
