(* ===== verification/Orm_Mappers.thy ===== *)
theory Orm_Mappers
  imports Ports
begin

text \<open>
  The rows of the two tables (\<^verbatim>\<open>app/infrastructure/database/models\<close>) and the translation between
  rows and aggregates (\<^verbatim>\<open>app/infrastructure/database/mappers\<close>). The columns the database maintains
  by itself, \<^verbatim>\<open>users.updated_at\<close> and \<^verbatim>\<open>refresh_tokens.created_at\<close>, are written and read by no
  line of the application and are not part of a row here.
\<close>

section \<open>Rows\<close>

record user_row =
  um_id :: uuid
  um_email :: string
  um_hashed_password :: string
  um_is_active :: bool
  um_created_at :: datetime

record token_row =
  rm_jti :: uuid
  rm_user_id :: uuid
  rm_family_id :: uuid
  rm_expires_at :: datetime
  rm_revoked_at :: "datetime option"

section \<open>The user mapper\<close>

text \<open>Reading a row runs the value objects' validation again, so it may raise.\<close>

definition user_to_domain :: "user_row \<Rightarrow> exn + user" where
  "user_to_domain model =
     (case email_new (um_email model) of
        Inl x \<Rightarrow> Inl x
      | Inr email \<Rightarrow>
          (case hashed_password_new (um_hashed_password model) of
             Inl x \<Rightarrow> Inl x
           | Inr hashed \<Rightarrow>
               Inr \<lparr>agg_events = [], usr_id = UserId (um_id model), usr_email = email,
                    usr_hashed_password = hashed, usr_is_active = um_is_active model,
                    usr_created_at = as_utc (um_created_at model)\<rparr>))"

definition user_to_model :: "user \<Rightarrow> user_row" where
  "user_to_model u =
     \<lparr>um_id = uid_value (usr_id u), um_email = email_value (usr_email u),
      um_hashed_password = hp_value (usr_hashed_password u), um_is_active = usr_is_active u,
      um_created_at = usr_created_at u\<rparr>"

definition user_apply_to_model :: "user \<Rightarrow> user_row \<Rightarrow> user_row" where
  "user_apply_to_model u model =
     model\<lparr>um_email := email_value (usr_email u),
           um_hashed_password := hp_value (usr_hashed_password u),
           um_is_active := usr_is_active u\<rparr>"

section \<open>The refresh-token mapper\<close>

definition token_to_domain :: "token_row \<Rightarrow> refresh_token_record" where
  "token_to_domain model =
     \<lparr>rt_jti = rm_jti model, rt_user_id = UserId (rm_user_id model),
      rt_family_id = rm_family_id model, rt_expires_at = as_utc (rm_expires_at model),
      rt_revoked_at = map_option as_utc (rm_revoked_at model)\<rparr>"

definition token_to_model :: "refresh_token_record \<Rightarrow> token_row" where
  "token_to_model r =
     \<lparr>rm_jti = rt_jti r, rm_user_id = uid_value (rt_user_id r), rm_family_id = rt_family_id r,
      rm_expires_at = rt_expires_at r, rm_revoked_at = rt_revoked_at r\<rparr>"

definition token_apply_to_model :: "refresh_token_record \<Rightarrow> token_row \<Rightarrow> token_row" where
  "token_apply_to_model r model = model\<lparr>rm_revoked_at := rt_revoked_at r\<rparr>"

section \<open>Round trips\<close>

text \<open>
  What a dialect returns for a stored UTC datetime: itself (Postgres, or an instance still held by
  the session) or the same reading without its zone (SQLite).
\<close>

definition reads_as :: "datetime \<Rightarrow> datetime \<Rightarrow> bool" where
  "reads_as d d' \<longleftrightarrow> d' = d \<or> d' = d\<lparr>tzinfo := None\<rparr>"

definition user_row_reads :: "user_row \<Rightarrow> user_row \<Rightarrow> bool" where
  "user_row_reads r r' \<longleftrightarrow>
     reads_as (um_created_at r) (um_created_at r') \<and> r' = r\<lparr>um_created_at := um_created_at r'\<rparr>"

definition token_row_reads :: "token_row \<Rightarrow> token_row \<Rightarrow> bool" where
  "token_row_reads r r' \<longleftrightarrow>
     reads_as (rm_expires_at r) (rm_expires_at r') \<and>
     rel_option reads_as (rm_revoked_at r) (rm_revoked_at r') \<and>
     r' = r\<lparr>rm_expires_at := rm_expires_at r', rm_revoked_at := rm_revoked_at r'\<rparr>"

lemma as_utc_reads: "is_utc d \<Longrightarrow> reads_as d d' \<Longrightarrow> as_utc d' = d"
  by (auto simp: reads_as_def as_utc_def is_utc_def)

lemma as_utc_reads_option:
  assumes "\<forall>d. o1 = Some d \<longrightarrow> is_utc d" and "rel_option reads_as o1 o2"
  shows "map_option as_utc o2 = o1"
  using assms by (cases o1; cases o2) (auto simp: as_utc_reads)

lemma user_mapper_roundtrip:
  assumes "user_wf u" and "user_row_reads (user_to_model u) m"
  shows "user_to_domain m = Inr (stored u)"
  using assms
  by (cases m) (simp add: user_row_reads_def user_to_model_def user_to_domain_def user_wf_def
      stored_def email_wf_eq hashed_password_wf_eq as_utc_reads)

lemma token_mapper_roundtrip:
  assumes "token_wf r" and "token_row_reads (token_to_model r) m"
  shows "token_to_domain m = r"
  using assms
  by (cases r; cases m) (simp add: token_row_reads_def token_to_model_def token_to_domain_def
      token_wf_def as_utc_reads as_utc_reads_option user_id.expand)

text \<open>Applying an aggregate to its own row gives the row of the aggregate: the columns that the
  mappers do not copy are the ones that never change.\<close>

lemma user_apply_to_model_eq:
  assumes "usr_id u = usr_id u0" and "usr_created_at u = usr_created_at u0"
  shows "user_apply_to_model u (user_to_model u0) = user_to_model u"
  using assms by (simp add: user_apply_to_model_def user_to_model_def)

lemma token_apply_to_model_eq:
  assumes "r = r0\<lparr>rt_revoked_at := rt_revoked_at r\<rparr>"
  shows "token_apply_to_model r (token_to_model r0) = token_to_model r"
  by (subst (2) assms) (simp add: token_apply_to_model_def token_to_model_def)

lemma user_to_model_stored [simp]: "user_to_model (stored u) = user_to_model u"
  by (simp add: user_to_model_def)

end
