(* ===== verification/Sql_Repositories.thy ===== *)
theory Sql_Repositories
  imports Orm_Mappers
begin

text \<open>
  The SQLAlchemy adapters of the persistence ports: the two repositories
  (\<^verbatim>\<open>app/infrastructure/database/repositories\<close>) and the unit of work
  (\<^verbatim>\<open>app/infrastructure/database/unit_of_work.py\<close>).

  SQLAlchemy is not part of the program. A session is a record of the calls the code makes on it,
  with the statements as HOL functions: a \<^verbatim>\<open>where\<close> clause is a predicate on rows, an assignment
  to attributes of a tracked instance and the \<^verbatim>\<open>values\<close> of an update are functions on rows.
  \<open>session_laws\<close> is what SQLAlchemy documents about these calls for the sessions the program
  builds (\<^verbatim>\<open>autoflush=False\<close>, \<^verbatim>\<open>expire_on_commit=False\<close>), over the content the running transaction
  would commit (\<open>pending\<close>) and the committed content (\<open>disk\<close>). From it the section on the contract
  derives the laws of the port.
\<close>

section \<open>The session\<close>

record 's session =
  se_add_user :: "user_row \<Rightarrow> (exn, 's, unit) io"
  se_add_token :: "token_row \<Rightarrow> (exn, 's, unit) io"
  se_get_user :: "uuid \<Rightarrow> (exn, 's, user_row option) io"
  se_get_token :: "uuid \<Rightarrow> (exn, 's, token_row option) io"
  se_assign_user :: "uuid \<Rightarrow> (user_row \<Rightarrow> user_row) \<Rightarrow> (exn, 's, unit) io"
  se_assign_token :: "uuid \<Rightarrow> (token_row \<Rightarrow> token_row) \<Rightarrow> (exn, 's, unit) io"
  se_select_users :: "(user_row \<Rightarrow> bool) \<Rightarrow> (exn, 's, user_row list) io"
  se_exists_user :: "(user_row \<Rightarrow> bool) \<Rightarrow> (exn, 's, bool) io"
  se_page_users :: "(user_row \<Rightarrow> bool) \<Rightarrow> nat \<Rightarrow> (exn, 's, user_row list) io"
  se_update_tokens :: "(token_row \<Rightarrow> bool) \<Rightarrow> (token_row \<Rightarrow> token_row) \<Rightarrow> (exn, 's, unit) io"
  se_ping :: "(exn, 's, unit) io"
  se_commit :: "(exn, 's, unit) io"
  se_rollback :: "(exn, 's, unit) io"
  se_close :: "(exn, 's, unit) io"

text \<open>\<^verbatim>\<open>Result.scalar_one_or_none\<close>.\<close>

definition scalar_one_or_none :: "'a list \<Rightarrow> exn + 'a option" where
  "scalar_one_or_none rows =
     (case rows of
        [] \<Rightarrow> Inr None
      | [x] \<Rightarrow> Inr (Some x)
      | _ \<Rightarrow> Inl (Python_Error ''MultipleResultsFound''))"

section \<open>The user repository\<close>

text \<open>\<open>to_domain(model) if model is not None else None\<close>.\<close>

definition user_or_none :: "user_row option \<Rightarrow> exn + user option" where
  "user_or_none found =
     (case found of
        None \<Rightarrow> Inr None
      | Some model \<Rightarrow> (case user_to_domain model of Inl x \<Rightarrow> Inl x | Inr u \<Rightarrow> Inr (Some u)))"

definition sql_user_add :: "'s session \<Rightarrow> user \<Rightarrow> (exn, 's, unit) io" where
  "sql_user_add S user = se_add_user S (user_to_model user)"

definition sql_user_update :: "'s session \<Rightarrow> user \<Rightarrow> (exn, 's, unit) io" where
  "sql_user_update S user =
     bindM (se_get_user S (uid_value (usr_id user))) (\<lambda>found.
     case found of
       None \<Rightarrow> raiseM (raised UserNotFoundError)
     | Some model \<Rightarrow> se_assign_user S (um_id model) (user_apply_to_model user))"

definition sql_user_get_by_id :: "'s session \<Rightarrow> user_id \<Rightarrow> (exn, 's, user option) io" where
  "sql_user_get_by_id S user_id =
     bindM (se_get_user S (uid_value user_id)) (\<lambda>found. liftM (user_or_none found))"

definition sql_user_get_by_email :: "'s session \<Rightarrow> email \<Rightarrow> (exn, 's, user option) io" where
  "sql_user_get_by_email S email =
     bindM (se_select_users S (\<lambda>r. um_email r = email_value email)) (\<lambda>rows.
     bindM (liftM (scalar_one_or_none rows)) (\<lambda>found.
     liftM (user_or_none found)))"

definition sql_user_exists_by_email :: "'s session \<Rightarrow> email \<Rightarrow> (exn, 's, bool) io" where
  "sql_user_exists_by_email S email = se_exists_user S (\<lambda>r. um_email r = email_value email)"

definition sql_user_repository :: "'s session \<Rightarrow> 's user_repository" where
  "sql_user_repository S =
     \<lparr>ur_add = sql_user_add S, ur_update = sql_user_update S, ur_get_by_id = sql_user_get_by_id S,
      ur_get_by_email = sql_user_get_by_email S,
      ur_exists_by_email = sql_user_exists_by_email S\<rparr>"

section \<open>The refresh-token repository\<close>

definition sql_token_add :: "'s session \<Rightarrow> refresh_token_record \<Rightarrow> (exn, 's, unit) io" where
  "sql_token_add S record = se_add_token S (token_to_model record)"

definition sql_token_update :: "'s session \<Rightarrow> refresh_token_record \<Rightarrow> (exn, 's, unit) io" where
  "sql_token_update S record =
     bindM (se_get_token S (rt_jti record)) (\<lambda>found.
     case found of
       None \<Rightarrow> raiseM (raised InvalidTokenError)
     | Some model \<Rightarrow> se_assign_token S (rm_jti model) (token_apply_to_model record))"

definition sql_token_get_by_jti :: "'s session \<Rightarrow> uuid \<Rightarrow> (exn, 's, refresh_token_record option) io" where
  "sql_token_get_by_jti S jti =
     bindM (se_get_token S jti) (\<lambda>found. retM (map_option token_to_domain found))"

definition sql_revoke_family :: "'s session \<Rightarrow> uuid \<Rightarrow> datetime \<Rightarrow> (exn, 's, unit) io" where
  "sql_revoke_family S family_id at =
     se_update_tokens S (\<lambda>r. rm_family_id r = family_id \<and> rm_revoked_at r = None)
       (\<lambda>r. r\<lparr>rm_revoked_at := Some at\<rparr>)"

definition sql_revoke_all_for_user :: "'s session \<Rightarrow> user_id \<Rightarrow> datetime \<Rightarrow> (exn, 's, unit) io" where
  "sql_revoke_all_for_user S user_id at =
     se_update_tokens S (\<lambda>r. rm_user_id r = uid_value user_id \<and> rm_revoked_at r = None)
       (\<lambda>r. r\<lparr>rm_revoked_at := Some at\<rparr>)"

definition sql_token_repository :: "'s session \<Rightarrow> 's refresh_token_repository" where
  "sql_token_repository S =
     \<lparr>rr_add = sql_token_add S, rr_update = sql_token_update S,
      rr_get_by_jti = sql_token_get_by_jti S, rr_revoke_family = sql_revoke_family S,
      rr_revoke_all_for_user = sql_revoke_all_for_user S\<rparr>"

section \<open>The unit of work\<close>

definition email_unique_markers :: "string list" where
  "email_unique_markers = [''ix_users_email'', ''users.email'']"

definition names_email_constraint :: "string \<Rightarrow> bool" where
  "names_email_constraint message \<longleftrightarrow> list_ex (\<lambda>m. contains_str m message) email_unique_markers"

definition sql_commit :: "'s session \<Rightarrow> (exn, 's, unit) io" where
  "sql_commit S =
     tryM (se_commit S)
       (\<lambda>x. case x of
          Integrity_Error message \<Rightarrow>
            thenM (se_rollback S)
              (if names_email_constraint message then raiseM (raised EmailAlreadyExistsError)
               else raiseM x)
        | _ \<Rightarrow> raiseM x)"

definition sql_rollback :: "'s session \<Rightarrow> (exn, 's, unit) io" where
  "sql_rollback S = se_rollback S"

definition sql_unit_of_work :: "'s session \<Rightarrow> 's unit_of_work" where
  "sql_unit_of_work S =
     \<lparr>uow_users = sql_user_repository S, uow_refresh_tokens = sql_token_repository S,
      uow_commit = sql_commit S, uow_rollback = sql_rollback S\<rparr>"

lemmas sql_defs = sql_user_add_def sql_user_update_def sql_user_get_by_id_def
  sql_user_get_by_email_def sql_user_exists_by_email_def sql_token_add_def sql_token_update_def
  sql_token_get_by_jti_def sql_revoke_family_def sql_revoke_all_for_user_def sql_rollback_def

lemma sql_unit_of_work_simps [simp]:
  "ur_add (uow_users (sql_unit_of_work S)) = sql_user_add S"
  "ur_update (uow_users (sql_unit_of_work S)) = sql_user_update S"
  "ur_get_by_id (uow_users (sql_unit_of_work S)) = sql_user_get_by_id S"
  "ur_get_by_email (uow_users (sql_unit_of_work S)) = sql_user_get_by_email S"
  "ur_exists_by_email (uow_users (sql_unit_of_work S)) = sql_user_exists_by_email S"
  "rr_add (uow_refresh_tokens (sql_unit_of_work S)) = sql_token_add S"
  "rr_update (uow_refresh_tokens (sql_unit_of_work S)) = sql_token_update S"
  "rr_get_by_jti (uow_refresh_tokens (sql_unit_of_work S)) = sql_token_get_by_jti S"
  "rr_revoke_family (uow_refresh_tokens (sql_unit_of_work S)) = sql_revoke_family S"
  "rr_revoke_all_for_user (uow_refresh_tokens (sql_unit_of_work S)) = sql_revoke_all_for_user S"
  "uow_commit (sql_unit_of_work S) = sql_commit S"
  "uow_rollback (sql_unit_of_work S) = sql_rollback S"
  by (simp_all add: sql_unit_of_work_def sql_user_repository_def sql_token_repository_def)

section \<open>What SQLAlchemy promises\<close>

record database =
  db_users :: "uuid \<Rightarrow> user_row option"
  db_tokens :: "uuid \<Rightarrow> token_row option"

definition db_put_user :: "user_row \<Rightarrow> database \<Rightarrow> database" where
  "db_put_user r db = db\<lparr>db_users := (db_users db)(um_id r \<mapsto> r)\<rparr>"

definition db_put_token :: "token_row \<Rightarrow> database \<Rightarrow> database" where
  "db_put_token r db = db\<lparr>db_tokens := (db_tokens db)(rm_jti r \<mapsto> r)\<rparr>"

definition db_map_tokens ::
  "(token_row \<Rightarrow> bool) \<Rightarrow> (token_row \<Rightarrow> token_row) \<Rightarrow> database \<Rightarrow> database" where
  "db_map_tokens P f db =
     db\<lparr>db_tokens := (\<lambda>j. map_option (\<lambda>r. if P r then f r else r) (db_tokens db j))\<rparr>"

text \<open>The constraints of the two tables, the unique email address apart: column lengths and the
  foreign key from a token to its user.\<close>

definition db_fits :: "database \<Rightarrow> bool" where
  "db_fits db \<longleftrightarrow>
     (\<forall>i r. db_users db i = Some r \<longrightarrow> length (um_email r) \<le> 320 \<and> length (um_hashed_password r) \<le> 255) \<and>
     (\<forall>j r. db_tokens db j = Some r \<longrightarrow> db_users db (rm_user_id r) \<noteq> None)"

definition db_emails_unique :: "database \<Rightarrow> bool" where
  "db_emails_unique db \<longleftrightarrow>
     (\<forall>i j r q. db_users db i = Some r \<longrightarrow> db_users db j = Some q \<longrightarrow>
        um_email r = um_email q \<longrightarrow> i = j)"

lemma duplicate_emails:
  assumes "db_users db i = Some r" and "db_users db j = Some q" and "um_email r = um_email q" and "i \<noteq> j"
  shows "\<not> db_emails_unique db"
  using assms unfolding db_emails_unique_def by blast

locale sqlalchemy_session =
  fixes S :: "'s session"
    and good :: "'s \<Rightarrow> bool"
    and pending :: "'s \<Rightarrow> database"
    and disk :: "'s \<Rightarrow> database"
  assumes session_get_user: "good s \<Longrightarrow> pending s = disk s \<Longrightarrow>
      \<exists>r. yields (se_get_user S i s) r (moved good pending disk id s) \<and>
          rel_option user_row_reads (db_users (disk s) i) r"
    and session_get_token: "good s \<Longrightarrow> pending s = disk s \<Longrightarrow>
      \<exists>r. yields (se_get_token S j s) r (moved good pending disk id s) \<and>
          rel_option token_row_reads (db_tokens (disk s) j) r"
    and session_add_user: "good s \<Longrightarrow> db_users (pending s) (um_id u) = None \<Longrightarrow>
      yields (se_add_user S u s) () (moved good pending disk (db_put_user u) s)"
    and session_add_token: "good s \<Longrightarrow> db_tokens (pending s) (rm_jti t) = None \<Longrightarrow>
      yields (se_add_token S t s) () (moved good pending disk (db_put_token t) s)"
    and session_assign_user: "good s \<Longrightarrow> db_users (pending s) i = Some u \<Longrightarrow>
      um_id u = i \<Longrightarrow> um_id (f u) = i \<Longrightarrow>
      yields (se_assign_user S i f s) () (moved good pending disk (db_put_user (f u)) s)"
    and session_assign_token: "good s \<Longrightarrow> db_tokens (pending s) j = Some t \<Longrightarrow>
      rm_jti t = j \<Longrightarrow> rm_jti (g t) = j \<Longrightarrow>
      yields (se_assign_token S j g s) () (moved good pending disk (db_put_token (g t)) s)"
    and session_select_users: "good s \<Longrightarrow> pending s = disk s \<Longrightarrow>
      \<exists>rs stored. yields (se_select_users S P s) rs (moved good pending disk id s) \<and>
        distinct stored \<and> set stored = {r. (\<exists>i. db_users (disk s) i = Some r) \<and> P r} \<and>
        list_all2 user_row_reads stored rs"
    and session_exists_user: "good s \<Longrightarrow> pending s = disk s \<Longrightarrow>
      yields (se_exists_user S P s) (\<exists>i r. db_users (disk s) i = Some r \<and> P r)
        (moved good pending disk id s)"
    and session_page_users: "good s \<Longrightarrow> pending s = disk s \<Longrightarrow>
      \<exists>rs stored. yields (se_page_users S P n s) rs (moved good pending disk id s) \<and>
        sorted_wrt (\<lambda>a b. um_id a < um_id b) stored \<and>
        set stored = {r. (\<exists>i. db_users (disk s) i = Some r) \<and> P r} \<and>
        list_all2 user_row_reads (take n stored) rs"
    and session_update_tokens: "good s \<Longrightarrow> db_tokens (pending s) = db_tokens (disk s) \<Longrightarrow>
      (\<And>r. rm_jti (g r) = rm_jti r) \<Longrightarrow>
      yields (se_update_tokens S Q g s) () (moved good pending disk (db_map_tokens Q g) s)"
    and session_commit: "good s \<Longrightarrow> db_fits (pending s) \<Longrightarrow> db_emails_unique (pending s) \<Longrightarrow>
      yields (se_commit S s) () (\<lambda>s'. good s' \<and> pending s' = pending s \<and> disk s' = pending s)"
    and session_duplicate: "good s \<Longrightarrow> db_fits (pending s) \<Longrightarrow> \<not> db_emails_unique (pending s) \<Longrightarrow>
      \<exists>message. names_email_constraint message \<and>
        raises (se_commit S s) (Integrity_Error message) (\<lambda>s'. good s' \<and> disk s' = disk s)"
    and session_rollback: "good s \<Longrightarrow>
      yields (se_rollback S s) () (\<lambda>s'. good s' \<and> pending s' = disk s \<and> disk s' = disk s)"
    and session_close: "good s \<Longrightarrow>
      yields (se_close S s) () (\<lambda>s'. good s' \<and> pending s' = disk s \<and> disk s' = disk s)"
    and session_ping: "good s \<Longrightarrow>
      \<exists>r s'. se_ping S s = (r, s') \<and> moved good pending disk id s s' \<and>
        (\<forall>x. r = Inl x \<longrightarrow> (\<exists>name. x = Python_Error name))"

section \<open>The account store in the tables\<close>

definition rows_of :: "account_store \<Rightarrow> database" where
  "rows_of st = \<lparr>db_users = (\<lambda>i. map_option user_to_model (st_users st i)),
                 db_tokens = (\<lambda>j. map_option token_to_model (st_tokens st j))\<rparr>"

definition store_of :: "database \<Rightarrow> account_store" where
  "store_of db =
     \<lparr>st_users = (\<lambda>i. case db_users db i of
          None \<Rightarrow> None
        | Some r \<Rightarrow> (case user_to_domain r of Inl _ \<Rightarrow> None | Inr u \<Rightarrow> Some u)),
      st_tokens = (\<lambda>j. map_option token_to_domain (db_tokens db j))\<rparr>"

lemma reads_as_refl [simp]: "reads_as d d"
  by (simp add: reads_as_def)

lemma row_reads_refl [simp]: "user_row_reads r r" "token_row_reads t t"
  by (simp_all add: user_row_reads_def token_row_reads_def option.rel_refl)

lemma stored_id [simp]: "agg_events u = [] \<Longrightarrow> stored u = u"
  by (simp add: stored_def)

lemma store_of_rows [simp]:
  assumes "wf_store st"
  shows "store_of (rows_of st) = st"
proof -
  note wf = wf_storeD [OF assms]
  have "st_users (store_of (rows_of st)) i = st_users st i" for i
  proof (cases "st_users st i")
    case None
    then show ?thesis by (simp add: store_of_def rows_of_def)
  next
    case (Some u)
    with user_mapper_roundtrip [OF wf(2) [OF Some], of "user_to_model u"] wf(4) [OF Some]
    show ?thesis by (simp add: store_of_def rows_of_def)
  qed
  moreover have "st_tokens (store_of (rows_of st)) j = st_tokens st j" for j
  proof (cases "st_tokens st j")
    case None
    then show ?thesis by (simp add: store_of_def rows_of_def)
  next
    case (Some r)
    with token_mapper_roundtrip [OF wf(7) [OF Some], of "token_to_model r"]
    show ?thesis by (simp add: store_of_def rows_of_def)
  qed
  ultimately show ?thesis
    by (intro account_store.equality ext) simp_all
qed

lemma rows_of_put_user: "rows_of (put_user u st) = db_put_user (user_to_model u) (rows_of st)"
  by (auto simp: rows_of_def db_put_user_def user_to_model_def)

lemma rows_of_put_token: "rows_of (put_token r st) = db_put_token (token_to_model r) (rows_of st)"
  by (auto simp: rows_of_def db_put_token_def token_to_model_def)

lemma rows_of_revoke_where:
  assumes "\<And>r. Q (token_to_model r) \<longleftrightarrow> P r \<and> rt_revoked_at r = None"
  shows "rows_of (revoke_where P at st) =
    db_map_tokens Q (\<lambda>r. r\<lparr>rm_revoked_at := Some at\<rparr>) (rows_of st)"
proof -
  have "token_to_model (if P r then revoke at r else r) =
      (if Q (token_to_model r) then (token_to_model r)\<lparr>rm_revoked_at := Some at\<rparr> else token_to_model r)"
    for r
    unfolding assms by (auto simp: revoke_def token_to_model_def)
  then show ?thesis
    by (auto simp: rows_of_def db_map_tokens_def option.map_comp comp_def)
qed

lemma rows_of_valid:
  assumes "wf_store st"
  shows "db_fits (rows_of st)" and "db_emails_unique (rows_of st)"
proof -
  note wf = wf_storeD [OF assms]
  show "db_fits (rows_of st)"
    using wf(3,8) by (auto simp: db_fits_def rows_of_def user_to_model_def token_to_model_def user_fits_def)
  show "db_emails_unique (rows_of st)"
    unfolding db_emails_unique_def rows_of_def
    by (auto simp: user_to_model_def) (metis email.expand wf(5))
qed

lemma email_value_eq [simp]: "email_value e = email_value f \<longleftrightarrow> e = f"
  by (cases e; cases f) simp

lemma user_to_model_fields [simp]:
  "um_id (user_to_model u) = uid_value (usr_id u)"
  "um_email (user_to_model u) = email_value (usr_email u)"
  by (simp_all add: user_to_model_def)

lemma rows_of_users: "db_users (rows_of st) i = Some r \<longleftrightarrow> (\<exists>u. st_users st i = Some u \<and> r = user_to_model u)"
  by (auto simp: rows_of_def)

section \<open>The unit of work keeps its contract\<close>

definition uow_ok ::
  "('s \<Rightarrow> bool) \<Rightarrow> ('s \<Rightarrow> database) \<Rightarrow> ('s \<Rightarrow> database) \<Rightarrow> 's \<Rightarrow> bool" where
  "uow_ok good pending disk s \<longleftrightarrow>
     good s \<and> (\<exists>st. wf_store st \<and> pending s = rows_of st) \<and> (\<exists>st. wf_store st \<and> disk s = rows_of st)"

definition content :: "('s \<Rightarrow> database) \<Rightarrow> 's \<Rightarrow> account_store" where
  "content f s = store_of (f s)"

lemma uow_okD:
  assumes "uow_ok good pending disk s"
  shows "good s" "pending s = rows_of (content pending s)" "disk s = rows_of (content disk s)"
    "wf_store (content pending s)" "wf_store (content disk s)"
  using assms by (auto simp: uow_ok_def content_def)

lemma rel_map_option_left:
  "rel_option R (map_option f o1) o2 \<longleftrightarrow> rel_option (\<lambda>x y. R (f x) y) o1 o2"
  by (simp add: option.rel_map)

lemma user_or_none_reads:
  assumes "wf_store st" and "rel_option user_row_reads (db_users (rows_of st) i) r"
  shows "user_or_none r = Inr (st_users st i)"
proof (cases "st_users st i")
  case None
  with assms(2) show ?thesis
    by (simp add: rows_of_def user_or_none_def)
next
  case (Some u)
  with assms(2) obtain m where m: "r = Some m" "user_row_reads (user_to_model u) m"
    by (auto simp: rows_of_def option_rel_Some1)
  with user_mapper_roundtrip [OF wf_storeD(2) [OF assms(1) Some] m(2)] Some wf_storeD(4) [OF assms(1) Some]
  show ?thesis
    by (simp add: user_or_none_def)
qed

lemma token_or_none_reads:
  assumes "wf_store st" and "rel_option token_row_reads (db_tokens (rows_of st) j) r"
  shows "map_option token_to_domain r = st_tokens st j"
proof (cases "st_tokens st j")
  case None
  with assms(2) show ?thesis
    by (simp add: rows_of_def)
next
  case (Some t)
  with assms(2) obtain m where m: "r = Some m" "token_row_reads (token_to_model t) m"
    by (auto simp: rows_of_def option_rel_Some1)
  with token_mapper_roundtrip [OF wf_storeD(7) [OF assms(1) Some] m(2)] Some show ?thesis
    by simp
qed

lemma moved_content:
  assumes "uow_ok good pending disk s" and "moved good pending disk g s s'"
    and "g (rows_of (content pending s)) = rows_of (h (content pending s))"
    and "wf_store (h (content pending s))"
  shows "moved (uow_ok good pending disk) (content pending) (content disk) h s s'"
proof -
  note ok = uow_okD [OF assms(1)]
  have "pending s' = rows_of (h (content pending s))" "disk s' = rows_of (content disk s)" "good s'"
    using assms(2,3) ok(2,3) by (simp_all add: moved_def)
  then show ?thesis
    using assms(4) ok(5) by (auto simp: moved_def uow_ok_def content_def)
qed

lemma moved_content_id:
  assumes "uow_ok good pending disk s" and "moved good pending disk id s s'"
  shows "moved (uow_ok good pending disk) (content pending) (content disk) id s s'"
  using moved_content [OF assms] uow_okD(4) [OF assms(1)] by simp

lemma moved_put_user:
  assumes "uow_ok good pending disk s" and "wf_store (put_user u (content pending s))"
    and "moved good pending disk (db_put_user (user_to_model u)) s s'"
  shows "moved (uow_ok good pending disk) (content pending) (content disk) (put_user u) s s'"
  by (rule moved_content [where g = "db_put_user (user_to_model u)"])
     (simp_all add: assms rows_of_put_user)

lemma moved_put_token:
  assumes "uow_ok good pending disk s" and "wf_store (put_token r (content pending s))"
    and "moved good pending disk (db_put_token (token_to_model r)) s s'"
  shows "moved (uow_ok good pending disk) (content pending) (content disk) (put_token r) s s'"
  by (rule moved_content [where g = "db_put_token (token_to_model r)"])
     (simp_all add: assms rows_of_put_token)

context sqlalchemy_session
begin

abbreviation "ok \<equiv> uow_ok good pending disk"
abbreviation "view \<equiv> content pending"
abbreviation "durable \<equiv> content disk"

lemma same_rows:
  assumes "ok s" and "view s = durable s"
  shows "pending s = disk s"
  using uow_okD(2,3) [OF assms(1)] assms(2) by simp

lemma get_by_id_law:
  assumes "ok s" and "view s = durable s"
  shows "yields (sql_user_get_by_id S i s) (st_users (durable s) (uid_value i))
    (moved ok view durable id s)"
proof -
  note ok = uow_okD [OF assms(1)]
  obtain r s' where r: "se_get_user S (uid_value i) s = (Inr r, s')" "moved good pending disk id s s'"
      "rel_option user_row_reads (db_users (disk s) (uid_value i)) r"
    using session_get_user [OF ok(1) same_rows [OF assms], of "uid_value i"] by (metis yieldsE)
  have "user_or_none r = Inr (st_users (durable s) (uid_value i))"
    using user_or_none_reads [OF ok(5)] r(3) ok(3) by simp
  with r(1) moved_content_id [OF assms(1) r(2)] show ?thesis
    by (simp add: yields_def sql_user_get_by_id_def io_simps)
qed

lemma get_by_jti_law:
  assumes "ok s" and "view s = durable s"
  shows "yields (sql_token_get_by_jti S j s) (st_tokens (durable s) j) (moved ok view durable id s)"
proof -
  note ok = uow_okD [OF assms(1)]
  obtain r s' where r: "se_get_token S j s = (Inr r, s')" "moved good pending disk id s s'"
      "rel_option token_row_reads (db_tokens (disk s) j) r"
    using session_get_token [OF ok(1) same_rows [OF assms], of j] by (metis yieldsE)
  have "map_option token_to_domain r = st_tokens (durable s) j"
    using token_or_none_reads [OF ok(5)] r(3) ok(3) by simp
  with r(1) moved_content_id [OF assms(1) r(2)] show ?thesis
    by (simp add: yields_def sql_token_get_by_jti_def io_simps)
qed

lemma exists_by_email_law:
  assumes "ok s" and "view s = durable s"
  shows "yields (sql_user_exists_by_email S em s) (email_taken (durable s) em)
    (moved ok view durable id s)"
proof -
  note ok = uow_okD [OF assms(1)]
  have "(\<exists>i r. db_users (disk s) i = Some r \<and> um_email r = email_value em) \<longleftrightarrow>
      email_taken (durable s) em"
    by (subst ok(3)) (simp add: rows_of_users email_taken_def, metis user_to_model_fields(2) email_value_eq)
  with session_exists_user [OF ok(1) same_rows [OF assms], of "\<lambda>r. um_email r = email_value em"]
  show ?thesis
    unfolding sql_user_exists_by_email_def
    by (auto intro: yields_mono moved_content_id [OF assms(1)])
qed

text \<open>The rows with an address, in a database of a well-formed store: none or one.\<close>

lemma rows_with_email:
  assumes st: "wf_store st" and d: "distinct matching"
    and s: "set matching = {r. (\<exists>i. db_users (rows_of st) i = Some r) \<and> um_email r = email_value em}"
  shows "matching = [] \<and> \<not> email_taken st em \<or> (\<exists>u. matching = [user_to_model u] \<and> has_email st em u)"
proof (cases "email_taken st em")
  case False
  have "set matching = {}"
    using False by (auto simp: s rows_of_users email_taken_def)
  with False show ?thesis by simp
next
  case True
  then obtain u where u: "has_email st em u"
    using has_email_iff_taken [OF st] by blast
  have "set matching = {user_to_model u}"
  proof
    show "{user_to_model u} \<subseteq> set matching"
      using u by (auto simp: s rows_of_users has_email_def)
    show "set matching \<subseteq> {user_to_model u}"
    proof
      fix r assume "r \<in> set matching"
      then obtain i v where v: "st_users st i = Some v" "r = user_to_model v"
          "usr_email v = em"
        by (auto simp: s rows_of_users)
      then have "has_email st em v"
        using wf_storeD(1) [OF st v(1)] by (simp add: has_email_def)
      then have "v = u"
        using has_email_unique [OF st] u by blast
      with v(2) show "r \<in> {user_to_model u}" by simp
    qed
  qed
  moreover have "card (set matching) = length matching"
    using d by (rule distinct_card)
  ultimately have "length matching = 1" by simp
  with \<open>set matching = {user_to_model u}\<close> have "matching = [user_to_model u]"
    by (cases matching) auto
  with u show ?thesis by blast
qed

lemma get_by_email_law:
  assumes "ok s" and "view s = durable s"
  shows "\<exists>r. yields (sql_user_get_by_email S em s) r (moved ok view durable id s) \<and>
    (\<forall>u. r = Some u \<longleftrightarrow> has_email (durable s) em u)"
proof -
  note ok = uow_okD [OF assms(1)]
  obtain rs matching where
    y: "yields (se_select_users S (\<lambda>r. um_email r = email_value em) s) rs (moved good pending disk id s)"
    and r: "distinct matching"
      "set matching = {r. (\<exists>i. db_users (disk s) i = Some r) \<and> um_email r = email_value em}"
      "list_all2 user_row_reads matching rs"
    using session_select_users [OF ok(1) same_rows [OF assms], of "\<lambda>r. um_email r = email_value em"]
    by blast
  from y obtain s' where
    s': "se_select_users S (\<lambda>r. um_email r = email_value em) s = (Inr rs, s')"
    and m: "moved good pending disk id s s'"
    by (rule yieldsE)
  note moved = moved_content_id [OF assms(1) m]
  have "set matching =
      {r. (\<exists>i. db_users (rows_of (durable s)) i = Some r) \<and> um_email r = email_value em}"
    using r(2) ok(3) by simp
  from rows_with_email [OF ok(5) r(1) this]
  have "matching = [] \<and> \<not> email_taken (durable s) em \<or>
      (\<exists>u. matching = [user_to_model u] \<and> has_email (durable s) em u)"
    by simp
  then show ?thesis
  proof
    assume none: "matching = [] \<and> \<not> email_taken (durable s) em"
    with s' r(3) moved have "yields (sql_user_get_by_email S em s) None (moved ok view durable id s)"
      by (simp add: yields_def sql_user_get_by_email_def io_simps scalar_one_or_none_def user_or_none_def)
    with none show ?thesis
      using has_email_iff_taken [OF ok(5)] by blast
  next
    assume "\<exists>u. matching = [user_to_model u] \<and> has_email (durable s) em u"
    then obtain u where u: "matching = [user_to_model u]" "has_email (durable s) em u" by blast
    with r(3) obtain m where m: "rs = [m]" "user_row_reads (user_to_model u) m"
      by (auto simp: list_all2_Cons1)
    have su: "st_users (durable s) (uid_value (usr_id u)) = Some u"
      using u(2) by (simp add: has_email_def)
    have "user_to_domain m = Inr u"
      using user_mapper_roundtrip [OF wf_storeD(2) [OF ok(5) su] m(2)] wf_storeD(4) [OF ok(5) su]
      by simp
    with s' m(1) moved
    have "yields (sql_user_get_by_email S em s) (Some u) (moved ok view durable id s)"
      by (simp add: yields_def sql_user_get_by_email_def io_simps scalar_one_or_none_def user_or_none_def)
    with u(2) show ?thesis
      using has_email_unique [OF ok(5)] by blast
  qed
qed

lemma add_user_law:
  assumes "ok s" and "st_users (view s) (uid_value (usr_id u)) = None"
    and "wf_store (put_user u (view s))"
  shows "yields (sql_user_add S u s) () (moved ok view durable (put_user u) s)"
proof -
  note ok = uow_okD [OF assms(1)]
  have "db_users (pending s) (um_id (user_to_model u)) = None"
    using assms(2) by (subst ok(2)) (simp add: rows_of_def)
  then have "yields (se_add_user S (user_to_model u) s) ()
      (moved good pending disk (db_put_user (user_to_model u)) s)"
    by (rule session_add_user [OF ok(1)])
  then show ?thesis
    unfolding sql_user_add_def by (rule yields_mono) (rule moved_put_user [OF assms(1,3)])
qed

lemma add_token_law:
  assumes "ok s" and "st_tokens (view s) (rt_jti r) = None" and "wf_store (put_token r (view s))"
  shows "yields (sql_token_add S r s) () (moved ok view durable (put_token r) s)"
proof -
  note ok = uow_okD [OF assms(1)]
  have "db_tokens (pending s) (rm_jti (token_to_model r)) = None"
    using assms(2) by (subst ok(2)) (simp add: rows_of_def token_to_model_def)
  then have "yields (se_add_token S (token_to_model r) s) ()
      (moved good pending disk (db_put_token (token_to_model r)) s)"
    by (rule session_add_token [OF ok(1)])
  then show ?thesis
    unfolding sql_token_add_def by (rule yields_mono) (rule moved_put_token [OF assms(1,3)])
qed

lemma update_user_law:
  assumes "ok s" and "view s = durable s" and "st_users (view s) (uid_value (usr_id u)) = Some u0"
    and "usr_created_at u = usr_created_at u0" and "wf_store (put_user u (view s))"
  shows "yields (sql_user_update S u s) () (moved ok view durable (put_user u) s)"
proof -
  note ok = uow_okD [OF assms(1)]
  let ?i = "uid_value (usr_id u)" and ?m = "user_to_model u0"
  have id: "usr_id u0 = usr_id u"
    using wf_storeD(1) [OF ok(4) assms(3)] by (simp add: user_id.expand)
  obtain r s1 where s1: "se_get_user S ?i s = (Inr r, s1)" "moved good pending disk id s s1"
      "rel_option user_row_reads (db_users (disk s) ?i) r"
    using session_get_user [OF ok(1) same_rows [OF assms(1,2)], of ?i] by (metis yieldsE)
  have disk_row: "db_users (disk s) ?i = Some ?m"
    using assms(2,3) by (subst ok(3)) (simp add: rows_of_users)
  with s1(3) obtain m where m: "r = Some m" "um_id m = ?i"
    using id by (auto simp: option_rel_Some1 user_row_reads_def dest: arg_cong [of _ _ um_id])
  have s1': "good s1" "pending s1 = pending s" "disk s1 = disk s"
    using s1(2) by (simp_all add: moved_def)
  have "db_users (pending s1) ?i = Some ?m"
    using disk_row s1'(2) same_rows [OF assms(1,2)] by simp
  from session_assign_user [OF s1'(1) this, of "user_apply_to_model u"]
  have "yields (se_assign_user S ?i (user_apply_to_model u) s1) ()
      (moved good pending disk (db_put_user (user_to_model u)) s1)"
    using id assms(4) user_apply_to_model_eq [of u u0] by simp
  then obtain s2 where s2: "se_assign_user S ?i (user_apply_to_model u) s1 = (Inr (), s2)"
      "moved good pending disk (db_put_user (user_to_model u)) s1 s2"
    by (rule yieldsE)
  have "moved good pending disk (db_put_user (user_to_model u)) s s2"
    using s2(2) s1' by (simp add: moved_def)
  then have "moved ok view durable (put_user u) s s2"
    by (rule moved_put_user [OF assms(1,5)])
  with s1(1) m s2(1) show ?thesis
    by (simp add: yields_def sql_user_update_def io_simps)
qed

lemma update_token_law:
  assumes "ok s" and "view s = durable s" and "st_tokens (view s) (rt_jti r) = Some r0"
    and "r = r0\<lparr>rt_revoked_at := rt_revoked_at r\<rparr>" and "token_wf r"
  shows "yields (sql_token_update S r s) () (moved ok view durable (put_token r) s)"
proof -
  note ok = uow_okD [OF assms(1)]
  let ?j = "rt_jti r" and ?m = "token_to_model r0"
  have jti: "rt_jti r0 = rt_jti r" and owner: "rt_user_id r0 = rt_user_id r"
    using assms(4) by (metis refresh_token_record.surjective refresh_token_record.update_convs(5)
        refresh_token_record.select_convs(1,2))+
  obtain t s1 where s1: "se_get_token S ?j s = (Inr t, s1)" "moved good pending disk id s s1"
      "rel_option token_row_reads (db_tokens (disk s) ?j) t"
    using session_get_token [OF ok(1) same_rows [OF assms(1,2)], of ?j] by (metis yieldsE)
  have disk_row: "db_tokens (disk s) ?j = Some ?m"
    using assms(2,3) by (subst ok(3)) (simp add: rows_of_def)
  with s1(3) obtain m where m: "t = Some m" "rm_jti m = ?j"
    using jti by (auto simp: option_rel_Some1 token_row_reads_def token_to_model_def
        dest: arg_cong [of _ _ rm_jti])
  have s1': "good s1" "pending s1 = pending s" "disk s1 = disk s"
    using s1(2) by (simp_all add: moved_def)
  have "db_tokens (pending s1) ?j = Some ?m"
    using disk_row s1'(2) same_rows [OF assms(1,2)] by simp
  from session_assign_token [OF s1'(1) this, of "token_apply_to_model r"]
  have "yields (se_assign_token S ?j (token_apply_to_model r) s1) ()
      (moved good pending disk (db_put_token (token_to_model r)) s1)"
    using jti token_apply_to_model_eq [OF assms(4)] by (simp add: token_to_model_def)
  then obtain s2 where s2: "se_assign_token S ?j (token_apply_to_model r) s1 = (Inr (), s2)"
      "moved good pending disk (db_put_token (token_to_model r)) s1 s2"
    by (rule yieldsE)
  have "wf_store (put_token r (view s))"
    using wf_put_token [OF ok(4) assms(5)] wf_storeD(8) [OF ok(4) assms(3)] owner by simp
  moreover have "moved good pending disk (db_put_token (token_to_model r)) s s2"
    using s2(2) s1' by (simp add: moved_def)
  ultimately have "moved ok view durable (put_token r) s s2"
    by (rule moved_put_token [OF assms(1)])
  with s1(1) m s2(1) show ?thesis
    by (simp add: yields_def sql_token_update_def io_simps)
qed

lemma bulk_revocation:
  assumes "ok s" and "st_tokens (view s) = st_tokens (durable s)" and "is_utc at"
    and "\<And>r. Q (token_to_model r) \<longleftrightarrow> P r \<and> rt_revoked_at r = None"
  shows "yields (se_update_tokens S Q (\<lambda>r. r\<lparr>rm_revoked_at := Some at\<rparr>) s) ()
    (moved ok view durable (revoke_where P at) s)"
proof -
  note ok = uow_okD [OF assms(1)]
  have "db_tokens (pending s) = db_tokens (disk s)"
    using assms(2) by (subst ok(2), subst ok(3)) (simp add: rows_of_def)
  from session_update_tokens [OF ok(1) this, of "\<lambda>r. r\<lparr>rm_revoked_at := Some at\<rparr>" Q]
  have moved: "yields (se_update_tokens S Q (\<lambda>r. r\<lparr>rm_revoked_at := Some at\<rparr>) s) ()
      (moved good pending disk (db_map_tokens Q (\<lambda>r. r\<lparr>rm_revoked_at := Some at\<rparr>)) s)"
    by simp
  show ?thesis
  proof (rule yields_mono [OF moved])
    fix s'
    assume "moved good pending disk (db_map_tokens Q (\<lambda>r. r\<lparr>rm_revoked_at := Some at\<rparr>)) s s'"
    then show "moved ok view durable (revoke_where P at) s s'"
      by (rule moved_content [OF assms(1)])
         (simp_all add: rows_of_revoke_where [OF assms(4)] wf_revoke_where ok(4) assms(3))
  qed
qed

lemma commit_law:
  assumes "ok s"
  shows "yields (sql_commit S s) () (\<lambda>s'. ok s' \<and> view s' = view s \<and> durable s' = view s)"
proof -
  note ok = uow_okD [OF assms]
  have "db_fits (pending s)" "db_emails_unique (pending s)"
    using rows_of_valid [OF ok(4)] ok(2) by simp_all
  from session_commit [OF ok(1) this]
  obtain s' where "se_commit S s = (Inr (), s')" "good s'" "pending s' = pending s" "disk s' = pending s"
    by (auto elim: yieldsE)
  then show ?thesis
    using assms by (auto simp: yields_def sql_commit_def io_simps uow_ok_def content_def)
qed

lemma rollback_law:
  assumes "ok s"
  shows "yields (sql_rollback S s) () (\<lambda>s'. ok s' \<and> view s' = durable s \<and> durable s' = durable s)"
  using session_rollback [OF uow_okD(1) [OF assms]] unfolding sql_rollback_def
  by (rule yields_mono) (use assms in \<open>auto simp: uow_ok_def content_def\<close>)

text \<open>A duplicate address that slipped past the pre-check is caught by the constraint: the commit
  raises the domain error and the session is back at the committed content.\<close>

lemma commit_duplicate:
  assumes "good s" and "db_fits (pending s)" and "\<not> db_emails_unique (pending s)"
  shows "raises (sql_commit S s) (raised EmailAlreadyExistsError)
    (\<lambda>s'. good s' \<and> pending s' = disk s \<and> disk s' = disk s)"
proof -
  obtain message s1 where m: "names_email_constraint message"
      "se_commit S s = (Inl (Integrity_Error message), s1)" "good s1" "disk s1 = disk s"
    using session_duplicate [OF assms] by (auto elim!: raisesE)
  obtain s2 where "se_rollback S s1 = (Inr (), s2)" "good s2" "pending s2 = disk s" "disk s2 = disk s"
    using session_rollback [OF m(3)] m(4) by (auto elim: yieldsE)
  with m show ?thesis
    by (simp add: raises_def sql_commit_def io_simps)
qed

end

sublocale sqlalchemy_session \<subseteq>
  uow: unit_of_work_laws "sql_unit_of_work S" "uow_ok good pending disk" "content pending" "content disk"
proof (unfold_locales, goal_cases)
  case (1 s) then show ?case by (rule uow_okD(4))
next
  case (2 s) then show ?case by (rule uow_okD(5))
next
  case (3 s i) then show ?case by (simp add: get_by_id_law)
next
  case (4 s em) then show ?case by (simp add: get_by_email_law)
next
  case (5 s em) then show ?case by (simp add: exists_by_email_law)
next
  case (6 s u) then show ?case by (simp add: add_user_law)
next
  case (7 s u u0) then show ?case by (simp add: update_user_law)
next
  case (8 s j) then show ?case by (simp add: get_by_jti_law)
next
  case (9 s r) then show ?case by (simp add: add_token_law)
next
  case (10 s r r0)
  then show ?case unfolding sql_unit_of_work_simps by (rule update_token_law)
next
  case (11 s at f)
  then show ?case
    unfolding sql_unit_of_work_simps sql_revoke_family_def
    by (rule bulk_revocation) (simp add: token_to_model_def)
next
  case (12 s at i)
  then show ?case
    unfolding sql_unit_of_work_simps sql_revoke_all_for_user_def
    by (rule bulk_revocation) (cases i, auto simp: token_to_model_def user_id.expand)
next
  case (13 s) then show ?case by (simp add: commit_law)
next
  case (14 s) then show ?case by (simp add: rollback_law)
qed

context sqlalchemy_session
begin

lemma fulfils_port:
  "unit_of_work_laws (sql_unit_of_work S) (uow_ok good pending disk) (content pending) (content disk)"
  by unfold_locales

end

end
