(* ===== verification/Python_Base64.thy ===== *)
theory Python_Base64
  imports Python_Text
begin

text \<open>
  UTF-8 and Base64 of the standard library, as far as the pagination cursor uses them
  (\<^verbatim>\<open>str.encode\<close>, \<^verbatim>\<open>bytes.decode\<close>, \<^verbatim>\<open>base64.urlsafe_b64encode\<close>, \<^verbatim>\<open>base64.urlsafe_b64decode\<close>). A
  byte string is a list of characters, each standing for the byte of its code. Decoded text is a
  list of code points, because it may leave the range of the development's strings.
\<close>

type_synonym bytes = string

section \<open>UTF-8\<close>

definition utf8_encode :: "string \<Rightarrow> bytes" where
  "utf8_encode s = concat (map (\<lambda>c. let n = code_point c in
     if n < 128 then [c] else [char_of (192 + n div 64), char_of (128 + n mod 64)]) s)"

definition continuation :: "nat \<Rightarrow> bool" where
  "continuation b \<longleftrightarrow> 128 \<le> b \<and> b < 192"

text \<open>The strict decoder: over-long forms, surrogates and values beyond U+10FFFF are errors.\<close>

fun utf8_points :: "nat list \<Rightarrow> nat list option" where
  "utf8_points [] = Some []"
| "utf8_points (b # s) =
     (if b < 128 then map_option ((#) b) (utf8_points s)
      else (case s of
        [] \<Rightarrow> None
      | c # s' \<Rightarrow>
          if \<not> continuation c then None
          else if 194 \<le> b \<and> b < 224
          then map_option ((#) ((b - 192) * 64 + (c - 128))) (utf8_points s')
          else (case s' of
            [] \<Rightarrow> None
          | d # s'' \<Rightarrow>
              if \<not> continuation d then None
              else if 224 \<le> b \<and> b < 240 \<and> (b = 224 \<longrightarrow> 160 \<le> c) \<and> (b = 237 \<longrightarrow> c < 160)
              then map_option ((#) ((b - 224) * 4096 + (c - 128) * 64 + (d - 128))) (utf8_points s'')
              else (case s'' of
                [] \<Rightarrow> None
              | e # t \<Rightarrow>
                  if \<not> continuation e then None
                  else if 240 \<le> b \<and> b < 245 \<and> (b = 240 \<longrightarrow> 144 \<le> c) \<and> (b = 244 \<longrightarrow> c < 144)
                  then map_option
                    ((#) ((b - 240) * 262144 + (c - 128) * 4096 + (d - 128) * 64 + (e - 128)))
                    (utf8_points t)
                  else None))))"

definition utf8_decode :: "bytes \<Rightarrow> nat list option" where
  "utf8_decode s = utf8_points (map code_point s)"

lemma utf8_encode_ascii:
  assumes "list_all (\<lambda>c. code_point c < 128) s"
  shows "utf8_encode s = s"
  using assms by (induction s) (simp_all add: utf8_encode_def Let_def)

lemma utf8_decode_ascii:
  assumes "list_all (\<lambda>c. code_point c < 128) s"
  shows "utf8_decode s = Some (map code_point s)"
  using assms by (induction s) (simp_all add: utf8_decode_def)

section \<open>Base64\<close>

definition b64_char :: "nat \<Rightarrow> char" where
  "b64_char n =
     (if n < 26 then char_of (65 + n)
      else if n < 52 then char_of (71 + n)
      else if n < 62 then char_of (n - 4)
      else if n = 62 then CHR ''+'' else CHR ''/'')"

definition b64_val :: "char \<Rightarrow> nat option" where
  "b64_val c = (let n = code_point c in
     if 65 \<le> n \<and> n < 91 then Some (n - 65)
     else if 97 \<le> n \<and> n < 123 then Some (n - 71)
     else if 48 \<le> n \<and> n < 58 then Some (n + 4)
     else if c = CHR ''+'' then Some 62
     else if c = CHR ''/'' then Some 63
     else None)"

fun b64_encode :: "bytes \<Rightarrow> string" where
  "b64_encode [] = []"
| "b64_encode [a] =
     [b64_char (code_point a div 4), b64_char (code_point a mod 4 * 16), CHR ''='', CHR ''='']"
| "b64_encode [a, b] =
     [b64_char (code_point a div 4), b64_char (code_point a mod 4 * 16 + code_point b div 16),
      b64_char (code_point b mod 16 * 4), CHR ''='']"
| "b64_encode (a # b # c # s) =
     [b64_char (code_point a div 4), b64_char (code_point a mod 4 * 16 + code_point b div 16),
      b64_char (code_point b mod 16 * 4 + code_point c div 64), b64_char (code_point c mod 64)]
     @ b64_encode s"

text \<open>
  \<open>binascii.a2b_base64\<close> in its default, lenient mode: characters outside the alphabet are skipped,
  a complete padding ends the input, and what is left over without one is an error. The arguments
  are the position in the group of four, the bits left over and the padding seen.
\<close>

fun a2b :: "nat \<Rightarrow> nat \<Rightarrow> nat \<Rightarrow> string \<Rightarrow> bytes option" where
  "a2b quad left pads [] = (if quad = 0 then Some [] else None)"
| "a2b quad left pads (c # s) =
     (if c = CHR ''='' then
        (if 2 \<le> quad \<and> 4 \<le> quad + Suc pads then Some []
         else a2b quad left (if 2 \<le> quad then Suc pads else pads) s)
      else (case b64_val c of
        None \<Rightarrow> a2b quad left pads s
      | Some v \<Rightarrow>
          if quad = 0 then a2b 1 v 0 s
          else if quad = 1
          then map_option ((#) (char_of (left * 4 + v div 16))) (a2b 2 (v mod 16) 0 s)
          else if quad = 2
          then map_option ((#) (char_of (left * 16 + v div 4))) (a2b 3 (v mod 4) 0 s)
          else map_option ((#) (char_of (left * 64 + v))) (a2b 0 0 0 s)))"

definition to_urlsafe :: "char \<Rightarrow> char" where
  "to_urlsafe c = (if c = CHR ''+'' then CHR ''-'' else if c = CHR ''/'' then CHR ''_'' else c)"

definition from_urlsafe :: "char \<Rightarrow> char" where
  "from_urlsafe c = (if c = CHR ''-'' then CHR ''+'' else if c = CHR ''_'' then CHR ''/'' else c)"

definition urlsafe_b64encode :: "bytes \<Rightarrow> string" where
  "urlsafe_b64encode s = map to_urlsafe (b64_encode s)"

definition urlsafe_b64decode :: "bytes \<Rightarrow> bytes option" where
  "urlsafe_b64decode s = a2b 0 0 0 (map from_urlsafe s)"

section \<open>The round trip\<close>

lemma code_b64_char:
  "n < 64 \<Longrightarrow> code_point (b64_char n) =
     (if n < 26 then 65 + n else if n < 52 then 71 + n else if n < 62 then n - 4
      else if n = 62 then 43 else 47)"
  by (auto simp: b64_char_def)

lemma b64_char_props:
  assumes "n < 64"
  shows "b64_val (b64_char n) = Some n" "b64_char n \<noteq> CHR ''=''" "b64_char n \<noteq> CHR ''-''"
    "b64_char n \<noteq> CHR ''_''" "code_point (b64_char n) < 128"
proof -
  have c: "b64_char n = d \<longleftrightarrow> code_point (b64_char n) = code_point d" for d
    by (rule char_eq_iff_code)
  show "b64_val (b64_char n) = Some n"
    using assms unfolding b64_val_def Let_def c by (auto simp: code_b64_char)
  show "b64_char n \<noteq> CHR ''=''" "b64_char n \<noteq> CHR ''-''" "b64_char n \<noteq> CHR ''_''"
      "code_point (b64_char n) < 128"
    unfolding c using assms by (auto simp: code_b64_char split: if_splits)
qed

lemma urlsafe_b64_char [simp]:
  "n < 64 \<Longrightarrow> from_urlsafe (to_urlsafe (b64_char n)) = b64_char n"
  "n < 64 \<Longrightarrow> code_point (to_urlsafe (b64_char n)) < 128"
  using b64_char_props [of n] by (auto simp: from_urlsafe_def to_urlsafe_def)

lemma pack_bits:
  fixes x y n :: nat
  assumes "y < n"
  shows "(x * n + y) div n = x" and "(x * n + y) mod n = y"
  using assms by simp_all

lemma pack_bounds:
  fixes a b :: nat
  assumes "a < 256" and "b < 256"
  shows "a div 4 < 64" "b div 16 < 16" "b div 64 < 4" "a mod 64 < 64"
    "a mod 4 * 16 + b div 16 < 64" "a mod 16 * 4 + b div 64 < 64" "a mod 4 * 16 < 64" "a mod 16 * 4 < 64"
proof -
  have m: "a mod 4 < 4" "a mod 16 < 16" by simp_all
  show d: "a div 4 < 64" "b div 16 < 16" "b div 64 < 4" "a mod 64 < 64"
    using assms by (simp_all add: less_mult_imp_div_less)
  show "a mod 4 * 16 + b div 16 < 64" "a mod 16 * 4 + b div 64 < 64" "a mod 4 * 16 < 64" "a mod 16 * 4 < 64"
    using m d by linarith+
qed

lemma a2b_char:
  assumes "n < 64"
  shows "a2b quad left pads (b64_char n # s) =
    (if quad = 0 then a2b 1 n 0 s
     else if quad = 1 then map_option ((#) (char_of (left * 4 + n div 16))) (a2b 2 (n mod 16) 0 s)
     else if quad = 2 then map_option ((#) (char_of (left * 16 + n div 4))) (a2b 3 (n mod 4) 0 s)
     else map_option ((#) (char_of (left * 64 + n))) (a2b 0 0 0 s))"
  using b64_char_props [OF assms] by simp

lemma a2b_pad:
  "a2b quad left pads (CHR ''='' # s) =
    (if 2 \<le> quad \<and> 4 \<le> quad + Suc pads then Some []
     else a2b quad left (if 2 \<le> quad then Suc pads else pads) s)"
  by simp

declare a2b.simps(2) [simp del]

lemma safe_equals [simp]: "from_urlsafe (to_urlsafe CHR ''='') = CHR ''=''"
  by (simp add: from_urlsafe_def to_urlsafe_def)

lemma char_of_code_div [simp]: "char_of (code_point c div 4 * 4 + code_point c mod 4) = c"
  "char_of (code_point c div 16 * 16 + code_point c mod 16) = c"
  "char_of (code_point c div 64 * 64 + code_point c mod 64) = c"
  by (simp_all only: div_mult_mod_eq char_of_char)

lemma a2b_quad:
  assumes "x < 64" "y < 64" "z < 64" "w < 64"
  shows "a2b 0 0 0 (b64_char x # b64_char y # b64_char z # b64_char w # s) =
    map_option (\<lambda>r. char_of (x * 4 + y div 16) # char_of (y mod 16 * 16 + z div 4) #
      char_of (z mod 4 * 64 + w) # r) (a2b 0 0 0 s)"
  unfolding a2b_char [OF assms(1)] a2b_char [OF assms(2)] a2b_char [OF assms(3)] a2b_char [OF assms(4)]
  by (simp add: option.map_comp comp_def)

lemma a2b_pair:
  assumes "x < 64" "y < 64"
  shows "a2b 0 0 0 [b64_char x, b64_char y, CHR ''='', CHR ''=''] = Some [char_of (x * 4 + y div 16)]"
  unfolding a2b_char [OF assms(1)] a2b_char [OF assms(2)] a2b_pad by simp

lemma a2b_triple:
  assumes "x < 64" "y < 64" "z < 64"
  shows "a2b 0 0 0 [b64_char x, b64_char y, b64_char z, CHR ''=''] =
    Some [char_of (x * 4 + y div 16), char_of (y mod 16 * 16 + z div 4)]"
  unfolding a2b_char [OF assms(1)] a2b_char [OF assms(2)] a2b_char [OF assms(3)] a2b_pad by simp

text \<open>The four groups of six bits of three bytes, put together again.\<close>

lemma regroup:
  fixes a b c :: nat
  assumes "b < 256" and "c < 256"
  shows "a div 4 * 4 + (a mod 4 * 16 + b div 16) div 16 = a"
    and "(a mod 4 * 16 + b div 16) mod 16 * 16 + (b mod 16 * 4 + c div 64) div 4 = b"
    and "(b mod 16 * 4 + c div 64) mod 4 * 64 + c mod 64 = c"
proof -
  have "b div 16 < 16" "c div 64 < 4"
    using pack_bounds(2) [of b b] pack_bounds(3) [of c c] assms by simp_all
  note p = pack_bits [OF this(1), of "a mod 4"] pack_bits [OF this(2), of "b mod 16"]
  show "a div 4 * 4 + (a mod 4 * 16 + b div 16) div 16 = a"
    unfolding p by (rule div_mult_mod_eq)
  show "(a mod 4 * 16 + b div 16) mod 16 * 16 + (b mod 16 * 4 + c div 64) div 4 = b"
    unfolding p by (rule div_mult_mod_eq)
  show "(b mod 16 * 4 + c div 64) mod 4 * 64 + c mod 64 = c"
    unfolding p by (rule div_mult_mod_eq)
qed

lemmas six_bits = pack_bounds [OF code_point_less code_point_less]
lemmas regrouped = regroup [OF code_point_less code_point_less]

lemma b64_roundtrip: "a2b 0 0 0 (b64_encode s) = Some s"
proof (induction s rule: b64_encode.induct)
  case 1
  then show ?case by simp
next
  case (2 a)
  show ?case
    unfolding b64_encode.simps a2b_pair [OF six_bits(1) six_bits(7)]
    using regroup(1) [of 0 0 "code_point a"] by simp
next
  case (3 a b)
  show ?case
    unfolding b64_encode.simps a2b_triple [OF six_bits(1) six_bits(5) six_bits(8)]
    using regroup(1,2) [of "code_point b" 0 "code_point a"] by simp
next
  case (4 a b c s)
  show ?case
    unfolding b64_encode.simps append_Cons append_Nil a2b_quad [OF six_bits(1) six_bits(5) six_bits(6) six_bits(4)] 4
    by (simp only: regrouped char_of_char option.map)
qed

definition b64_alphabet :: "char \<Rightarrow> bool" where
  "b64_alphabet c \<longleftrightarrow> c = CHR ''='' \<or> (\<exists>n < 64. c = b64_char n)"

lemma b64_encode_alphabet: "list_all b64_alphabet (b64_encode s)"
proof -
  have q: "n < 64 \<Longrightarrow> b64_alphabet (b64_char n)" for n
    by (auto simp: b64_alphabet_def)
  have e: "b64_alphabet (CHR ''='')"
    by (simp add: b64_alphabet_def)
  show ?thesis
    by (induction s rule: b64_encode.induct)
       (simp_all only: b64_encode.simps append_Cons append_Nil list.pred_inject q e six_bits simp_thms)
qed

lemma alphabet_safe:
  assumes "b64_alphabet c"
  shows "from_urlsafe (to_urlsafe c) = c" and "code_point (to_urlsafe c) < 128"
proof (atomize (full), cases "c = CHR ''=''")
  case True
  then show "from_urlsafe (to_urlsafe c) = c \<and> code_point (to_urlsafe c) < 128"
    by (simp add: from_urlsafe_def to_urlsafe_def)
next
  case False
  then show "from_urlsafe (to_urlsafe c) = c \<and> code_point (to_urlsafe c) < 128"
    using assms by (auto simp: b64_alphabet_def)
qed

lemma urlsafe_roundtrip: "urlsafe_b64decode (urlsafe_b64encode s) = Some s"
proof -
  have "map from_urlsafe (map to_urlsafe (b64_encode s)) = b64_encode s"
    using b64_encode_alphabet [of s] by (auto simp: list_all_iff alphabet_safe intro!: map_idI)
  then show ?thesis
    unfolding urlsafe_b64decode_def urlsafe_b64encode_def by (simp only: b64_roundtrip)
qed

lemma urlsafe_b64encode_ascii: "list_all (\<lambda>c. code_point c < 128) (urlsafe_b64encode s)"
  using b64_encode_alphabet [of s] by (auto simp: urlsafe_b64encode_def list_all_iff alphabet_safe)

end
