(* ===== verification/Query_Service.thy ===== *)
theory Query_Service
  imports Sql_Repositories Use_Cases_Users Python_Base64
begin

text \<open>
  The read side of the Users domain: the query port (\<^verbatim>\<open>app/application/users/interfaces.py\<close>), its
  SQLAlchemy implementation with keyset pagination
  (\<^verbatim>\<open>app/infrastructure/database/repositories/user_query_service.py\<close>) and the two query use cases
  (\<^verbatim>\<open>app/application/users/queries\<close>).
\<close>

section \<open>The port and the use cases\<close>

record 'a page =
  page_items :: "'a list"
  page_next_cursor :: "string option"

record 's user_query_service =
  uq_get_by_id :: "uuid \<Rightarrow> (exn, 's, user_view option) io"
  uq_list :: "int \<Rightarrow> string option \<Rightarrow> (exn, 's, user_view page) io"

record get_user_query =
  gu_user_id :: uuid

definition get_user_execute :: "'s user_query_service \<Rightarrow> get_user_query \<Rightarrow> (exn, 's, user_view) io" where
  "get_user_execute Q query =
     bindM (uq_get_by_id Q (gu_user_id query)) (\<lambda>view.
     case view of None \<Rightarrow> raiseM (raised UserNotFoundError) | Some v \<Rightarrow> retM v)"

record list_users_query =
  lu_limit :: int
  lu_cursor :: "string option"

definition default_limit :: int where
  "default_limit = 20"

definition max_limit :: int where
  "max_limit = 100"

definition list_users_execute ::
  "'s user_query_service \<Rightarrow> list_users_query \<Rightarrow> (exn, 's, user_view page) io" where
  "list_users_execute Q query =
     (let limit = max 1 (min (lu_limit query) max_limit) in uq_list Q limit (lu_cursor query))"

section \<open>Cursors\<close>

definition encode_cursor :: "uuid \<Rightarrow> string" where
  "encode_cursor user_id = urlsafe_b64encode (utf8_encode (uuid_str user_id))"

text \<open>
  \<^verbatim>\<open>UUID\<close> on decoded text. Text beyond the range of the development's strings (where \<^verbatim>\<open>int\<close> accepts
  the digits of other scripts) is left to the parameter \<open>wide\<close>.
\<close>

definition uuid_of_points :: "(nat list \<Rightarrow> uuid option) \<Rightarrow> nat list \<Rightarrow> uuid option" where
  "uuid_of_points wide ps =
     (if list_all (\<lambda>n. n < 256) ps then uuid_parse (map char_of ps) else wide ps)"

definition decode_cursor :: "(nat list \<Rightarrow> uuid option) \<Rightarrow> string \<Rightarrow> exn + uuid" where
  "decode_cursor wide cursor =
     (case urlsafe_b64decode (utf8_encode cursor) of
        None \<Rightarrow> Inl (domain_error_init ValidationError (Some ''Invalid pagination cursor.''))
      | Some raw \<Rightarrow>
          (case utf8_decode raw of
             None \<Rightarrow> Inl (domain_error_init ValidationError (Some ''Invalid pagination cursor.''))
           | Some text \<Rightarrow>
               (case uuid_of_points wide text of
                  None \<Rightarrow> Inl (domain_error_init ValidationError (Some ''Invalid pagination cursor.''))
                | Some u \<Rightarrow> Inr u)))"

section \<open>The SQLAlchemy query service\<close>

text \<open>The four selected columns as a view; the zone of \<^verbatim>\<open>created_at\<close> is not normalised here.\<close>

definition row_view :: "user_row \<Rightarrow> user_view" where
  "row_view r =
     \<lparr>uv_id = um_id r, uv_email = um_email r, uv_is_active = um_is_active r,
      uv_created_at = um_created_at r\<rparr>"

definition sql_query_get_by_id :: "'s session \<Rightarrow> uuid \<Rightarrow> (exn, 's, user_view option) io" where
  "sql_query_get_by_id S user_id =
     bindM (se_select_users S (\<lambda>r. um_id r = user_id)) (\<lambda>rows.
     case rows of [] \<Rightarrow> retM None | row # _ \<Rightarrow> retM (Some (row_view row)))"

definition sql_query_list ::
  "(nat list \<Rightarrow> uuid option) \<Rightarrow> 's session \<Rightarrow> int \<Rightarrow> string option \<Rightarrow> (exn, 's, user_view page) io" where
  "sql_query_list wide S limit cursor =
     bindM (case cursor of
              None \<Rightarrow> retM (\<lambda>r. True)
            | Some c \<Rightarrow> bindM (liftM (decode_cursor wide c)) (\<lambda>after. retM (\<lambda>r. after < um_id r)))
       (\<lambda>where_clause.
     bindM (se_page_users S where_clause (nat (limit + 1))) (\<lambda>rows.
     let has_more = int (length rows) > limit;
         visible = take (nat limit) rows;
         items = map row_view visible;
         next_cursor =
           (if has_more \<and> visible \<noteq> [] then Some (encode_cursor (um_id (last visible))) else None)
     in retM \<lparr>page_items = items, page_next_cursor = next_cursor\<rparr>))"

definition sql_user_query_service ::
  "(nat list \<Rightarrow> uuid option) \<Rightarrow> 's session \<Rightarrow> 's user_query_service" where
  "sql_user_query_service wide S =
     \<lparr>uq_get_by_id = sql_query_get_by_id S, uq_list = sql_query_list wide S\<rparr>"

section \<open>Properties of cursors\<close>

lemma uuid_str_ascii: "list_all (\<lambda>c. code_point c < 128) (uuid_str u)"
  unfolding list_all_iff
proof
  fix c
  assume "c \<in> set (uuid_str u)"
  then have "c \<in> hex_chars \<or> c = CHR ''-''"
    using set_uuid_str [of u] by auto
  then show "code_point c < 128"
    using hex_chars_code [of c] by auto
qed

lemma cursor_roundtrip: "decode_cursor wide (encode_cursor u) = Inr u"
proof -
  have a: "utf8_encode (uuid_str u) = uuid_str u"
      "utf8_encode (urlsafe_b64encode (uuid_str u)) = urlsafe_b64encode (uuid_str u)"
      "utf8_decode (uuid_str u) = Some (map code_point (uuid_str u))"
    using utf8_encode_ascii utf8_decode_ascii uuid_str_ascii urlsafe_b64encode_ascii by blast+
  have "list_all (\<lambda>n. n < 256) (map code_point (uuid_str u))"
    using uuid_str_ascii [of u] by (auto simp: list_all_iff)
  moreover have "map char_of (map code_point (uuid_str u)) = uuid_str u"
    by (simp add: map_idI)
  ultimately have "uuid_of_points wide (map code_point (uuid_str u)) = Some u"
    unfolding uuid_of_points_def by simp
  then show ?thesis
    by (simp add: decode_cursor_def encode_cursor_def a urlsafe_roundtrip)
qed

lemma decode_cursor_error:
  "decode_cursor wide c = Inl x \<Longrightarrow> x = Domain ValidationError ''Invalid pagination cursor.''"
  by (auto simp: decode_cursor_def split: option.splits)

section \<open>The contract of the read side\<close>

text \<open>The users of a store in the order of their ids, from after an id on.\<close>

definition listing :: "account_store \<Rightarrow> uuid option \<Rightarrow> user list \<Rightarrow> bool" where
  "listing st after us \<longleftrightarrow>
     sorted_wrt (\<lambda>u v. uid_value (usr_id u) < uid_value (usr_id v)) us \<and>
     set us = {u. (\<exists>i. st_users st i = Some u) \<and> (\<forall>a. after = Some a \<longrightarrow> a < uid_value (usr_id u))}"

definition view_of :: "user \<Rightarrow> user_view \<Rightarrow> bool" where
  "view_of u v \<longleftrightarrow>
     uv_id v = uid_value (usr_id u) \<and> uv_email v = email_value (usr_email u) \<and>
     uv_is_active v = usr_is_active u \<and> reads_as (usr_created_at u) (uv_created_at v)"

definition next_cursor_of :: "nat \<Rightarrow> user list \<Rightarrow> string option" where
  "next_cursor_of n us =
     (if n < length us then Some (encode_cursor (uid_value (usr_id (us ! (n - 1))))) else None)"

locale user_query_laws =
  fixes Q :: "'s user_query_service"
    and wide :: "nat list \<Rightarrow> uuid option"
    and ok :: "'s \<Rightarrow> bool"
    and view :: "'s \<Rightarrow> account_store"
    and durable :: "'s \<Rightarrow> account_store"
  assumes wf: "ok s \<Longrightarrow> wf_store (durable s)"
    and query_get: "ok s \<Longrightarrow> view s = durable s \<Longrightarrow>
      \<exists>v. yields (uq_get_by_id Q i s) v (moved ok view durable id s) \<and>
          rel_option view_of (st_users (durable s) i) v"
    and query_list: "ok s \<Longrightarrow> view s = durable s \<Longrightarrow> 1 \<le> limit \<Longrightarrow>
      (case cursor of None \<Rightarrow> after = None
         | Some c \<Rightarrow> \<exists>a. decode_cursor wide c = Inr a \<and> after = Some a) \<Longrightarrow>
      \<exists>us vs. listing (durable s) after us \<and>
        yields (uq_list Q limit cursor s)
          \<lparr>page_items = vs, page_next_cursor = next_cursor_of (nat limit) us\<rparr>
          (moved ok view durable id s) \<and>
        list_all2 view_of (take (nat limit) us) vs"
    and query_bad_cursor: "decode_cursor wide c = Inl x \<Longrightarrow> uq_list Q limit (Some c) s = (Inl x, s)"

lemma row_view_of:
  assumes "user_row_reads (user_to_model u) m"
  shows "view_of u (row_view m)"
  using assms
  by (cases m) (simp add: user_row_reads_def user_to_model_def view_of_def row_view_def)

abbreviation user_key :: "user \<Rightarrow> uuid" where
  "user_key u \<equiv> uid_value (usr_id u)"

text \<open>The rows of a database of a well-formed store are the models of its users.\<close>

lemma listing_of_rows:
  assumes wf: "wf_store st" and sorted: "sorted_wrt (\<lambda>a b. um_id a < um_id b) rows"
    and rows: "set rows = {r. (\<exists>i. db_users (rows_of st) i = Some r) \<and>
      (\<forall>a. after = Some a \<longrightarrow> a < um_id r)}"
  shows "\<exists>us. listing st after us \<and> rows = map user_to_model us"
proof -
  define orig where "orig = (\<lambda>r :: user_row. the (st_users st (um_id r)))"
  have orig: "user_to_model (orig r) = r \<and> (\<exists>i. st_users st i = Some (orig r))" if "r \<in> set rows" for r
  proof -
    from that rows obtain i u where u: "st_users st i = Some u" "r = user_to_model u"
      by (auto simp: rows_of_users)
    with wf_storeD(1) [OF wf u(1)] show ?thesis
      by (auto simp: orig_def)
  qed
  have key: "user_key (orig r) = um_id r" if "r \<in> set rows" for r
    using orig [OF that] by (metis user_to_model_fields(1))
  have eq: "rows = map user_to_model (map orig rows)"
    using orig by (simp add: map_idI)
  have "sorted_wrt (\<lambda>u v. user_key u < user_key v) (map orig rows)"
    using sorted key by (simp add: sorted_wrt_map sorted_wrt_mono_rel [OF _ sorted])
  moreover have "set (map orig rows) =
      {u. (\<exists>i. st_users st i = Some u) \<and> (\<forall>a. after = Some a \<longrightarrow> a < user_key u)}"
    (is "?L = ?R")
  proof
    show "?L \<subseteq> ?R"
    proof
      fix u assume "u \<in> ?L"
      then obtain r where r: "r \<in> set rows" "u = orig r" by auto
      moreover have "\<forall>a. after = Some a \<longrightarrow> a < um_id r"
        using r(1) rows by auto
      ultimately show "u \<in> ?R"
        using orig [OF r(1)] key [OF r(1)] by simp
    qed
    show "?R \<subseteq> ?L"
    proof
      fix u assume u: "u \<in> ?R"
      then obtain i where i: "st_users st i = Some u" by blast
      then have "user_to_model u \<in> set rows"
        using u by (auto simp: rows rows_of_users)
      moreover have "orig (user_to_model u) = u"
        using i wf_storeD(1) [OF wf i] by (simp add: orig_def)
      ultimately show "u \<in> ?L"
        by (metis image_eqI list.set_map)
    qed
  qed
  ultimately have "listing st after (map orig rows)"
    by (simp add: listing_def)
  with eq show ?thesis by blast
qed

lemma views_of_rows:
  assumes "list_all2 user_row_reads (map user_to_model us) ms"
  shows "list_all2 view_of us (map row_view ms)"
  using assms by (simp add: list_all2_map1 list_all2_map2) (erule list_all2_mono, rule row_view_of)

lemma list_all2_last:
  assumes "list_all2 R xs ys" and "ys \<noteq> []"
  shows "R (last xs) (last ys)"
  using assms by (metis last_conv_nth length_0_conv length_greater_0_conv diff_less
      list_all2_conv_all_nth list_all2_lengthD zero_less_one)

context sqlalchemy_session
begin

lemma query_get_law:
  assumes "ok s" and "view s = durable s"
  shows "\<exists>v. yields (sql_query_get_by_id S i s) v (moved ok view durable id s) \<and>
    rel_option view_of (st_users (durable s) i) v"
proof -
  note ok = uow_okD [OF assms(1)]
  obtain rs matching where
    y: "yields (se_select_users S (\<lambda>r. um_id r = i) s) rs (moved good pending disk id s)"
    and r: "distinct matching"
      "set matching = {r. (\<exists>j. db_users (disk s) j = Some r) \<and> um_id r = i}"
      "list_all2 user_row_reads matching rs"
    using session_select_users [OF ok(1) same_rows [OF assms], of "\<lambda>r. um_id r = i"]
    by blast
  from y obtain s' where s': "se_select_users S (\<lambda>r. um_id r = i) s = (Inr rs, s')"
    and m: "moved good pending disk id s s'"
    by (rule yieldsE)
  note moved = moved_content_id [OF assms(1) m]
  have set: "r \<in> set matching \<longleftrightarrow> (\<exists>u. st_users (durable s) i = Some u \<and> r = user_to_model u)" for r
    using wf_storeD(1) [OF ok(5)] by (subst r(2), subst ok(3)) (auto simp: rows_of_users)
  show ?thesis
  proof (cases "st_users (durable s) i")
    case None
    then have "matching = []" using set by (cases matching) auto
    with r(3) s' moved None show ?thesis
      by (auto simp: yields_def sql_query_get_by_id_def io_simps)
  next
    case (Some u)
    then have "matching \<noteq> []" "hd matching = user_to_model u"
      using set by (cases matching; force)+
    then obtain q qs where "rs = q # qs" "user_row_reads (user_to_model u) q"
      using r(3) by (cases matching) (auto simp: list_all2_Cons1)
    with s' moved Some row_view_of show ?thesis
      by (auto simp: yields_def sql_query_get_by_id_def io_simps)
  qed
qed

lemma query_list_law:
  assumes "ok s" and "view s = durable s" and limit: "1 \<le> limit"
    and cur: "case cursor of None \<Rightarrow> after = None
      | Some c \<Rightarrow> \<exists>a. decode_cursor wide c = Inr a \<and> after = Some a"
  shows "\<exists>us vs. listing (durable s) after us \<and>
    yields (sql_query_list wide S limit cursor s)
      \<lparr>page_items = vs, page_next_cursor = next_cursor_of (nat limit) us\<rparr>
      (moved ok view durable id s) \<and>
    list_all2 view_of (take (nat limit) us) vs"
proof -
  note ok = uow_okD [OF assms(1)]
  let ?P = "\<lambda>r. \<forall>a. after = Some a \<longrightarrow> a < um_id r" and ?n = "nat limit"
  have n: "nat (limit + 1) = Suc ?n"
    using limit by simp
  obtain rs rows where
    y: "yields (se_page_users S ?P (Suc ?n) s) rs (moved good pending disk id s)"
    and r: "sorted_wrt (\<lambda>a b. um_id a < um_id b) rows"
      "set rows = {r. (\<exists>i. db_users (disk s) i = Some r) \<and> ?P r}"
      "list_all2 user_row_reads (take (Suc ?n) rows) rs"
    using session_page_users [OF ok(1) same_rows [OF assms(1,2)], of ?P "Suc ?n"] by blast
  from y obtain s' where s': "se_page_users S ?P (Suc ?n) s = (Inr rs, s')"
    and m: "moved good pending disk id s s'"
    by (rule yieldsE)
  have "set rows = {r. (\<exists>i. db_users (rows_of (durable s)) i = Some r) \<and> ?P r}"
    using r(2) ok(3) by simp
  from listing_of_rows [OF ok(5) r(1) this] obtain us where
    us: "listing (durable s) after us" "rows = map user_to_model us"
    by blast
  have len: "length rs = min (Suc ?n) (length us)"
    using list_all2_lengthD [OF r(3)] us(2) by simp
  have reads: "list_all2 user_row_reads (map user_to_model (take ?n us)) (take ?n rs)"
    using list_all2_takeI [OF r(3), of ?n] us(2) by (simp add: take_map min_def)
  have views: "list_all2 view_of (take ?n us) (map row_view (take ?n rs))"
    using views_of_rows [OF reads] .
  have next_c: "(if int (length rs) > limit \<and> take ?n rs \<noteq> []
      then Some (encode_cursor (um_id (last (take ?n rs)))) else None) = next_cursor_of ?n us"
  proof (cases "?n < length us")
    case True
    then have more: "int (length rs) > limit" "take ?n rs \<noteq> []"
      using len limit by auto
    have "user_row_reads (last (map user_to_model (take ?n us))) (last (take ?n rs))"
      using list_all2_last [OF reads more(2)] .
    then have "um_id (last (take ?n rs)) = um_id (last (map user_to_model (take ?n us)))"
      by (auto simp: user_row_reads_def dest: arg_cong [of _ _ um_id])
    also have "\<dots> = user_key (us ! (?n - 1))"
      using True limit by (subst last_map) (auto simp: last_take_nth)
    finally show ?thesis
      using True more by (simp add: next_cursor_of_def)
  next
    case False
    then show ?thesis
      using len limit by (auto simp: next_cursor_of_def)
  qed
  have run: "sql_query_list wide S limit cursor s =
      (Inr \<lparr>page_items = map row_view (take ?n rs), page_next_cursor = next_cursor_of ?n us\<rparr>, s')"
    using s' cur n unfolding next_c [symmetric]
    by (auto simp: sql_query_list_def io_simps Let_def split: option.splits)
  with us(1) views moved_content_id [OF assms(1) m] show ?thesis
    by (metis yieldsI)
qed

end

sublocale sqlalchemy_session \<subseteq>
  query: user_query_laws "sql_user_query_service wide S" wide "uow_ok good pending disk"
    "content pending" "content disk"
proof (unfold_locales, goal_cases)
  case (1 s)
  then show ?case by (rule uow_okD(5))
next
  case (2 s i)
  then show ?case by (simp add: sql_user_query_service_def query_get_law)
next
  case (3 s limit after cursor)
  then show ?case
    unfolding sql_user_query_service_def user_query_service.simps by (rule query_list_law)
next
  case (4 c x limit s)
  then show ?case by (simp add: sql_user_query_service_def sql_query_list_def io_simps)
qed

context sqlalchemy_session
begin

lemma fulfils_query_port:
  "user_query_laws (sql_user_query_service wide S) wide (uow_ok good pending disk)
    (content pending) (content disk)"
  by unfold_locales

end

section \<open>Following the cursors\<close>

text \<open>A client that asks for page after page until no cursor is returned; \<open>n\<close> bounds the pages.\<close>

fun list_all_pages ::
  "'s user_query_service \<Rightarrow> int \<Rightarrow> nat \<Rightarrow> string option \<Rightarrow> (exn, 's, user_view list option) io" where
  "list_all_pages Q limit 0 cursor = retM None"
| "list_all_pages Q limit (Suc n) cursor =
     bindM (list_users_execute Q \<lparr>lu_limit = limit, lu_cursor = cursor\<rparr>) (\<lambda>page.
     case page_next_cursor page of
       None \<Rightarrow> retM (Some (page_items page))
     | Some c \<Rightarrow>
         bindM (list_all_pages Q limit n (Some c)) (\<lambda>rest.
         retM (map_option ((@) (page_items page)) rest)))"

lemma listing_unique:
  assumes "wf_store st" and "listing st after us" and "listing st after vs"
  shows "us = vs"
proof -
  have same: "set us = set vs"
    using assms(2,3) by (simp add: listing_def)
  have "map user_key us = map user_key vs"
    using assms(2,3) same by (intro strict_sorted_equal) (simp_all add: listing_def sorted_wrt_map)
  moreover have "inj_on user_key (set us \<union> set vs)"
  proof (rule inj_onI)
    fix u v assume "u \<in> set us \<union> set vs" "v \<in> set us \<union> set vs" "user_key u = user_key v"
    then obtain i j where "st_users st i = Some u" "st_users st j = Some v"
      using assms(2,3) by (auto simp: listing_def)
    with \<open>user_key u = user_key v\<close> show "u = v"
      using wf_storeD(1) [OF assms(1)] by (metis option.inject)
  qed
  ultimately show ?thesis
    by (rule map_inj_on)
qed

lemma listing_drop:
  assumes "listing st after us" and "k < length us"
  shows "listing st (Some (user_key (us ! k))) (drop (Suc k) us)"
proof -
  have sorted: "sorted_wrt (\<lambda>u v. user_key u < user_key v) us"
    and us: "set us = {u. (\<exists>i. st_users st i = Some u) \<and> (\<forall>a. after = Some a \<longrightarrow> a < user_key u)}"
    using assms(1) by (simp_all add: listing_def)
  have lt: "user_key (us ! i) < user_key (us ! j)" if "i < j" "j < length us" for i j
    using sorted_wrt_nth_less [OF sorted that] .
  have "u \<in> set (drop (Suc k) us) \<longleftrightarrow> u \<in> set us \<and> user_key (us ! k) < user_key u" for u
  proof
    assume "u \<in> set (drop (Suc k) us)"
    then obtain j where "j < length us - Suc k" "u = us ! (Suc k + j)"
      by (auto simp: in_set_conv_nth)
    then show "u \<in> set us \<and> user_key (us ! k) < user_key u"
      using lt [of k "Suc k + j"] by auto
  next
    assume u: "u \<in> set us \<and> user_key (us ! k) < user_key u"
    then obtain j where j: "j < length us" "u = us ! j"
      by (auto simp: in_set_conv_nth)
    have "\<not> j \<le> k"
      using u j lt [of j k] assms(2) by (metis dual_order.strict_trans le_neq_implies_less order.irrefl)
    then have "u = drop (Suc k) us ! (j - Suc k)" "j - Suc k < length (drop (Suc k) us)"
      using j by auto
    then show "u \<in> set (drop (Suc k) us)"
      by (metis nth_mem)
  qed
  moreover have "(\<forall>a. after = Some a \<longrightarrow> a < user_key u)" if "user_key (us ! k) < user_key u" for u
    using that us nth_mem [OF assms(2)] by (auto intro: less_trans)
  ultimately show ?thesis
    using sorted us by (auto simp: listing_def sorted_wrt_drop)
qed

definition clamp :: "int \<Rightarrow> int" where
  "clamp limit = max 1 (min limit max_limit)"

lemma clamp_bounds: "1 \<le> clamp limit" "clamp limit \<le> 100"
  by (simp_all add: clamp_def max_limit_def)

lemma list_users_execute_eq:
  "list_users_execute Q \<lparr>lu_limit = limit, lu_cursor = cursor\<rparr> = uq_list Q (clamp limit) cursor"
  by (simp add: list_users_execute_def clamp_def Let_def)

context user_query_laws
begin

lemma list_page:
  assumes "ok s" and "view s = durable s"
    and "case cursor of None \<Rightarrow> after = None
      | Some c \<Rightarrow> \<exists>a. decode_cursor wide c = Inr a \<and> after = Some a"
    and "listing (durable s) after us"
  shows "\<exists>vs. list_all2 view_of (take (nat (clamp limit)) us) vs \<and>
    yields (list_users_execute Q \<lparr>lu_limit = limit, lu_cursor = cursor\<rparr> s)
      \<lparr>page_items = vs, page_next_cursor = next_cursor_of (nat (clamp limit)) us\<rparr>
      (moved ok view durable id s)"
  using query_list [OF assms(1,2) clamp_bounds(1) assms(3), of limit]
    listing_unique [OF wf [OF assms(1)] assms(4)]
  unfolding list_users_execute_eq by metis

lemma all_pages:
  assumes "ok s" and "view s = durable s"
    and "case cursor of None \<Rightarrow> after = None
      | Some c \<Rightarrow> \<exists>a. decode_cursor wide c = Inr a \<and> after = Some a"
    and "listing (durable s) after us" and "length us < n"
  shows "\<exists>vs. list_all2 view_of us vs \<and>
    yields (list_all_pages Q limit n cursor s) (Some vs) (moved ok view durable id s)"
  using assms
proof (induction n arbitrary: s cursor after us)
  case 0
  then show ?case by simp
next
  case (Suc n)
  let ?k = "nat (clamp limit)"
  obtain vs s' where vs: "list_all2 view_of (take ?k us) vs"
    and s': "list_users_execute Q \<lparr>lu_limit = limit, lu_cursor = cursor\<rparr> s =
      (Inr \<lparr>page_items = vs, page_next_cursor = next_cursor_of ?k us\<rparr>, s')"
    and m: "moved ok view durable id s s'"
    using list_page [OF Suc.prems(1-4)] by (metis yieldsE)
  show ?case
  proof (cases "?k < length us")
    case False
    then have "take ?k us = us" "next_cursor_of ?k us = None"
      by (simp_all add: next_cursor_of_def)
    then have "list_all_pages Q limit (Suc n) cursor s = (Inr (Some vs), s')" "list_all2 view_of us vs"
      using vs s' by (simp_all add: io_simps)
    with m show ?thesis
      by (metis yieldsI)
  next
    case True
    let ?a = "user_key (us ! (?k - 1))"
    have k: "0 < ?k" "Suc (?k - 1) = ?k"
      using clamp_bounds(1) [of limit] by auto
    have st: "ok s'" "view s' = durable s'" "durable s' = durable s"
      using m Suc.prems(2) by (simp_all add: moved_def)
    have rest: "listing (durable s') (Some ?a) (drop ?k us)" "length (drop ?k us) < n"
      using listing_drop [OF Suc.prems(4), of "?k - 1"] True k st(3) Suc.prems(5) by simp_all
    have "case Some (encode_cursor ?a) of None \<Rightarrow> Some ?a = None
        | Some c \<Rightarrow> \<exists>a. decode_cursor wide c = Inr a \<and> Some ?a = Some a"
      by (simp add: cursor_roundtrip)
    from Suc.IH [OF st(1,2) this rest]
    obtain ws where ws: "list_all2 view_of (drop ?k us) ws"
      "yields (list_all_pages Q limit n (Some (encode_cursor ?a)) s') (Some ws)
        (moved ok view durable id s')"
      by blast
    obtain s2 where s2: "list_all_pages Q limit n (Some (encode_cursor ?a)) s' = (Inr (Some ws), s2)"
        "moved ok view durable id s' s2"
      using ws(2) by (rule yieldsE)
    have "list_all2 view_of us (vs @ ws)"
      using list_all2_appendI [OF vs ws(1)] by simp
    moreover have "moved ok view durable id s s2"
      using m s2(2) by (simp add: moved_def)
    moreover have "list_all_pages Q limit (Suc n) cursor s = (Inr (Some (vs @ ws)), s2)"
      using s' s2(1) True by (simp add: io_simps next_cursor_of_def)
    ultimately show ?thesis
      by (metis yieldsI)
  qed
qed

lemma get_user_laws:
  assumes "ok s" and "view s = durable s"
  shows "(case st_users (durable s) i of
      None \<Rightarrow> raises (get_user_execute Q \<lparr>gu_user_id = i\<rparr> s) (raised UserNotFoundError) (moved ok view durable id s)
    | Some u \<Rightarrow> \<exists>v. view_of u v \<and> yields (get_user_execute Q \<lparr>gu_user_id = i\<rparr> s) v (moved ok view durable id s))"
proof -
  obtain v s' where "uq_get_by_id Q i s = (Inr v, s')" "moved ok view durable id s s'"
      "rel_option view_of (st_users (durable s) i) v"
    using query_get [OF assms, of i] by (metis yieldsE)
  then show ?thesis
    by (cases v) (auto simp: get_user_execute_def io_simps yields_def raises_def option_rel_Some2
        split: option.split)
qed

end

end
