(* ===== verification/Jwt_Service.thy ===== *)
theory Jwt_Service
  imports Ports Config
begin

text \<open>
  The system clock (\<^verbatim>\<open>app/infrastructure/clock.py\<close>) and the JWT token service
  (\<^verbatim>\<open>app/infrastructure/security/jwt_service.py\<close>).

  PyJWT is not part of the program: it is a record of its two functions, and \<open>pyjwt_library\<close> states
  what its documentation promises for them. \<^verbatim>\<open>jwt.decode\<close> reads the system clock by itself, so the
  function takes that reading.
\<close>

section \<open>The system clock\<close>

definition system_clock :: clock where
  "system_clock e = (Inr (clock_feed e (clock_reads e)), e\<lparr>clock_reads := Suc (clock_reads e)\<rparr>)"

interpretation system: clock_laws system_clock
  by unfold_locales (auto simp: system_clock_def env_ok_def)

section \<open>PyJWT\<close>

text \<open>\<open>Claim_Other\<close> is any other JSON value: null, a boolean, a float, a list or an object.\<close>

datatype claim = Claim_Str string | Claim_Int int | Claim_Other string

record decode_options =
  opt_algorithms :: "jwt_algorithm list"
  opt_issuer :: string
  opt_audience :: string
  opt_require :: "string list"

text \<open>\<^verbatim>\<open>ExpiredSignatureError\<close>, another \<^verbatim>\<open>PyJWTError\<close>, or an exception that is none.\<close>

datatype jwt_error = Expired_Signature | Pyjwt_Error | Foreign_Error string

record pyjwt =
  jw_encode :: "(string \<times> claim) list \<Rightarrow> string \<Rightarrow> jwt_algorithm \<Rightarrow> string"
  jw_decode :: "string \<Rightarrow> string \<Rightarrow> decode_options \<Rightarrow> int \<Rightarrow> jwt_error + (string \<Rightarrow> claim option)"

section \<open>The service\<close>

definition required_claims :: "string list" where
  "required_claims = [''sub'', ''type'', ''iat'', ''exp'', ''jti'', ''iss'', ''aud'']"

fun token_type_str :: "token_type \<Rightarrow> string" where
  "token_type_str Access = ''access''"
| "token_type_str Refresh = ''refresh''"

definition jwt_claims ::
  "jwt_settings \<Rightarrow> string \<Rightarrow> token_type \<Rightarrow> uuid \<Rightarrow> datetime \<Rightarrow> datetime \<Rightarrow> (string \<times> claim) list" where
  "jwt_claims settings subject token_type token_id now expires_at =
     [(''sub'', Claim_Str subject),
      (''type'', Claim_Str (token_type_str token_type)),
      (''jti'', Claim_Str (uuid_str token_id)),
      (''iss'', Claim_Str (jwt_issuer settings)),
      (''aud'', Claim_Str (jwt_audience settings)),
      (''iat'', Claim_Int (int_timestamp now)),
      (''exp'', Claim_Int (int_timestamp expires_at))]"

definition jwt_encode_token ::
  "pyjwt \<Rightarrow> jwt_settings \<Rightarrow> clock \<Rightarrow> string \<Rightarrow> token_type \<Rightarrow> uuid \<Rightarrow> int \<Rightarrow> (exn, env, issued_token) io" where
  "jwt_encode_token J settings C subject token_type token_id lifetime =
     bindM C (\<lambda>now.
     let expires_at = dt_add now lifetime;
         payload = jwt_claims settings subject token_type token_id now expires_at;
         token = jw_encode J payload (jwt_secret settings) (jwt_algorithm settings)
     in retM \<lparr>it_token = token, it_expires_at = expires_at\<rparr>)"

definition jwt_create_access_token ::
  "pyjwt \<Rightarrow> jwt_settings \<Rightarrow> clock \<Rightarrow> string \<Rightarrow> (exn, env, string) io" where
  "jwt_create_access_token J settings C subject =
     bindM uuid4 (\<lambda>token_id.
     bindM (jwt_encode_token J settings C subject Access token_id
              (timedelta_minutes (jwt_access_token_expire_minutes settings))) (\<lambda>issued.
     retM (it_token issued)))"

definition jwt_create_refresh_token ::
  "pyjwt \<Rightarrow> jwt_settings \<Rightarrow> clock \<Rightarrow> string \<Rightarrow> uuid \<Rightarrow> (exn, env, issued_token) io" where
  "jwt_create_refresh_token J settings C subject token_id =
     jwt_encode_token J settings C subject Refresh token_id
       (timedelta_days (jwt_refresh_token_expire_days settings))"

text \<open>The part of \<^verbatim>\<open>decode\<close> after the library call: the claims become a typed payload.\<close>

definition jwt_payload :: "(string \<Rightarrow> claim option) \<Rightarrow> exn + token_payload" where
  "jwt_payload raw =
     (case (raw ''sub'', raw ''jti'') of
        (Some (Claim_Str subject), Some (Claim_Str jti)) \<Rightarrow>
          (case uuid_parse jti of
             None \<Rightarrow> Inl (raised InvalidTokenError)
           | Some token_id \<Rightarrow>
               (if raw ''type'' = Some (Claim_Str ''access'')
                then Inr \<lparr>tp_subject = subject, tp_token_type = Access, tp_token_id = token_id\<rparr>
                else if raw ''type'' = Some (Claim_Str ''refresh'')
                then Inr \<lparr>tp_subject = subject, tp_token_type = Refresh, tp_token_id = token_id\<rparr>
                else Inl (raised InvalidTokenError)))
      | _ \<Rightarrow> Inl (raised InvalidTokenError))"

definition jwt_options :: "jwt_settings \<Rightarrow> decode_options" where
  "jwt_options settings =
     \<lparr>opt_algorithms = [jwt_algorithm settings], opt_issuer = jwt_issuer settings,
      opt_audience = jwt_audience settings, opt_require = required_claims\<rparr>"

definition jwt_decode :: "pyjwt \<Rightarrow> jwt_settings \<Rightarrow> string \<Rightarrow> (exn, env, token_payload) io" where
  "jwt_decode J settings token =
     bindM system_clock (\<lambda>now.
     case jw_decode J token (jwt_secret settings) (jwt_options settings) (timestamp_us now) of
       Inl Expired_Signature \<Rightarrow> raiseM (raised TokenExpiredError)
     | Inl Pyjwt_Error \<Rightarrow> raiseM (raised InvalidTokenError)
     | Inl (Foreign_Error x) \<Rightarrow> raiseM (Python_Error x)
     | Inr raw \<Rightarrow> liftM (jwt_payload raw))"

definition jwt_token_service :: "pyjwt \<Rightarrow> jwt_settings \<Rightarrow> clock \<Rightarrow> token_service" where
  "jwt_token_service J settings C =
     \<lparr>ts_create_access_token = jwt_create_access_token J settings C,
      ts_create_refresh_token = jwt_create_refresh_token J settings C,
      ts_decode = jwt_decode J settings\<rparr>"

section \<open>What PyJWT promises\<close>

text \<open>A claims set that passes every check of \<^verbatim>\<open>jwt.decode\<close> but possibly the one of expiry.\<close>

definition valid_claims :: "(string \<times> claim) list \<Rightarrow> decode_options \<Rightarrow> int \<Rightarrow> bool" where
  "valid_claims p opts now \<longleftrightarrow>
     list_all (\<lambda>c. map_of p c \<noteq> None) (opt_require opts) \<and>
     map_of p ''iss'' = Some (Claim_Str (opt_issuer opts)) \<and>
     map_of p ''aud'' = Some (Claim_Str (opt_audience opts)) \<and>
     (case map_of p ''sub'' of Some (Claim_Str _) \<Rightarrow> True | _ \<Rightarrow> False) \<and>
     (case map_of p ''jti'' of Some (Claim_Str _) \<Rightarrow> True | _ \<Rightarrow> False) \<and>
     (case map_of p ''iat'' of Some (Claim_Int i) \<Rightarrow> i * us_per_second \<le> now | _ \<Rightarrow> False) \<and>
     map_of p ''nbf'' = None"

definition expires :: "(string \<times> claim) list \<Rightarrow> int option" where
  "expires p = (case map_of p ''exp'' of Some (Claim_Int x) \<Rightarrow> Some (x * us_per_second) | _ \<Rightarrow> None)"

locale pyjwt_library =
  fixes J :: pyjwt
  assumes decode_encode:
    "alg \<in> set (opt_algorithms opts) \<Longrightarrow> distinct (map fst p) \<Longrightarrow> valid_claims p opts now \<Longrightarrow>
     expires p = Some x \<Longrightarrow> now < x \<Longrightarrow>
     jw_decode J (jw_encode J p secret alg) secret opts now = Inr (map_of p)"
    and decode_expired:
    "alg \<in> set (opt_algorithms opts) \<Longrightarrow> distinct (map fst p) \<Longrightarrow> valid_claims p opts now \<Longrightarrow>
     expires p = Some x \<Longrightarrow> x \<le> now \<Longrightarrow>
     jw_decode J (jw_encode J p secret alg) secret opts now = Inl Expired_Signature"
    and decode_raises: "jw_decode J tok secret opts now = Inl e \<Longrightarrow> e \<noteq> Foreign_Error y"

section \<open>The service keeps its contract\<close>

lemma jwt_payload_claims [simp]:
  "jwt_payload (map_of (jwt_claims settings sub ty j now exp)) =
   Inr \<lparr>tp_subject = sub, tp_token_type = ty, tp_token_id = j\<rparr>"
  by (cases ty) (simp_all add: jwt_payload_def jwt_claims_def)

lemma jwt_payload_errors: "jwt_payload raw = Inl x \<Longrightarrow> x = raised InvalidTokenError"
  by (auto simp: jwt_payload_def split: option.splits claim.splits if_splits)

lemma jwt_claims_distinct [simp]: "distinct (map fst (jwt_claims settings sub ty j now exp))"
  by (simp add: jwt_claims_def)

lemma jwt_claims_valid:
  assumes "int_timestamp now * us_per_second \<le> at"
  shows "valid_claims (jwt_claims settings sub ty j now exp) (jwt_options settings) at"
  using assms by (simp add: valid_claims_def jwt_claims_def jwt_options_def required_claims_def)

lemma jwt_claims_expires [simp]:
  "expires (jwt_claims settings sub ty j now exp) = Some (int_timestamp exp * us_per_second)"
  by (simp add: expires_def jwt_claims_def)

lemma jwt_options_algorithm [simp]: "jwt_algorithm s \<in> set (opt_algorithms (jwt_options s))"
  by (simp add: jwt_options_def)

text \<open>A token is fresh from the second it was issued in to the second it expires in.\<close>

definition jwt_fresh :: "int \<Rightarrow> issued_token \<Rightarrow> env \<Rightarrow> bool" where
  "jwt_fresh lifetime it e \<longleftrightarrow>
     (let now = timestamp_us (clock_feed e (clock_reads e)) in
      int_timestamp (dt_add (it_expires_at it) (- lifetime)) * us_per_second \<le> now \<and>
      now < int_timestamp (it_expires_at it) * us_per_second)"

abbreviation refresh_lifetime :: "jwt_settings \<Rightarrow> int" where
  "refresh_lifetime settings \<equiv> timedelta_days (jwt_refresh_token_expire_days settings)"

lemma dt_add_cancel [simp]: "dt_add (dt_add d n) (- n) = d"
  by (simp add: dt_add_def)

lemma jwt_decode_run: "\<exists>n. snd (jwt_decode J settings tok e) = e\<lparr>clock_reads := n\<rparr>"
  by (auto simp: jwt_decode_def io_simps system_clock_def split: sum.split jwt_error.split)

context pyjwt_library
begin

lemma jwt_decode_raises:
  assumes "fst (jwt_decode J settings tok e) = Inl x"
  shows "x = raised InvalidTokenError \<or> x = raised TokenExpiredError"
  using assms jwt_payload_errors
  by (auto simp: jwt_decode_def io_simps system_clock_def dest: decode_raises
      split: sum.splits jwt_error.splits)

lemma jwt_decode_encoded:
  assumes "jwt_encode_token J settings C sub ty j lifetime e = (Inr it, e')"
    and "jwt_fresh lifetime it e2"
  shows "fst (jwt_decode J settings (it_token it) e2) =
    Inr \<lparr>tp_subject = sub, tp_token_type = ty, tp_token_id = j\<rparr>"
proof -
  let ?now = "timestamp_us (clock_feed e2 (clock_reads e2))"
  obtain d where it: "it = \<lparr>it_token = jw_encode J (jwt_claims settings sub ty j d (dt_add d lifetime))
      (jwt_secret settings) (jwt_algorithm settings), it_expires_at = dt_add d lifetime\<rparr>"
    using assms(1)
    by (auto simp: jwt_encode_token_def io_simps Let_def split: prod.splits sum.splits)
  let ?p = "jwt_claims settings sub ty j d (dt_add d lifetime)"
  have "jw_decode J (it_token it) (jwt_secret settings) (jwt_options settings) ?now = Inr (map_of ?p)"
    unfolding it issued_token.simps
    by (rule decode_encode [where x = "int_timestamp (dt_add d lifetime) * us_per_second"])
       (use assms(2) in \<open>simp_all add: it jwt_fresh_def Let_def jwt_claims_valid\<close>)
  then show ?thesis
    by (simp add: jwt_decode_def io_simps system_clock_def)
qed

lemma jwt_decode_expired:
  assumes "jwt_encode_token J settings C sub ty j lifetime e = (Inr it, e')" and "0 \<le> lifetime"
    and "int_timestamp (it_expires_at it) * us_per_second \<le> timestamp_us (clock_feed e2 (clock_reads e2))"
  shows "fst (jwt_decode J settings (it_token it) e2) = Inl (raised TokenExpiredError)"
proof -
  let ?now = "timestamp_us (clock_feed e2 (clock_reads e2))"
  obtain d where it: "it = \<lparr>it_token = jw_encode J (jwt_claims settings sub ty j d (dt_add d lifetime))
      (jwt_secret settings) (jwt_algorithm settings), it_expires_at = dt_add d lifetime\<rparr>"
    using assms(1)
    by (auto simp: jwt_encode_token_def io_simps Let_def split: prod.splits sum.splits)
  let ?p = "jwt_claims settings sub ty j d (dt_add d lifetime)"
  have "int_timestamp d \<le> int_timestamp (dt_add d lifetime)"
    using assms(2) by (rule int_timestamp_mono)
  then have "int_timestamp d * us_per_second \<le> int_timestamp (dt_add d lifetime) * us_per_second"
    by (simp add: us_per_second_def)
  with assms(3) have "int_timestamp d * us_per_second \<le> ?now"
    unfolding it issued_token.simps by linarith
  then have "jw_decode J (it_token it) (jwt_secret settings) (jwt_options settings) ?now = Inl Expired_Signature"
    unfolding it issued_token.simps
    by (intro decode_expired [where x = "int_timestamp (dt_add d lifetime) * us_per_second"])
       (use assms(3) in \<open>simp_all add: it jwt_claims_valid\<close>)
  then show ?thesis
    by (simp add: jwt_decode_def io_simps system_clock_def)
qed

end

text \<open>The contract of the token service, for any clock that keeps its own.\<close>

locale jwt_tokens = pyjwt_library J + clock_laws C for J :: pyjwt and C :: clock

sublocale jwt_tokens \<subseteq>
  token_service_laws "jwt_token_service J settings C" "jwt_fresh (refresh_lifetime settings)"
proof (unfold_locales, goal_cases)
  case (1 e sub)
  obtain d n where "C (e\<lparr>uuid_draws := Suc (uuid_draws e)\<rparr>) =
      (Inr d, e\<lparr>uuid_draws := Suc (uuid_draws e), clock_reads := n\<rparr>)"
    using now_run [of "e\<lparr>uuid_draws := Suc (uuid_draws e)\<rparr>"] 1 by auto
  moreover have "e\<lparr>uuid_draws := Suc (uuid_draws e), clock_reads := n\<rparr> =
      e\<lparr>clock_reads := n, uuid_draws := Suc (uuid_draws e)\<rparr>"
    by simp
  ultimately show ?case
    by (simp add: jwt_token_service_def jwt_create_access_token_def jwt_encode_token_def io_simps Let_def)
       (metis)
next
  case (2 e sub j)
  then obtain d n where "C e = (Inr d, e\<lparr>clock_reads := n\<rparr>)" "is_utc d"
    using now_run by blast
  then show ?case
    by (auto simp: jwt_token_service_def jwt_create_refresh_token_def jwt_encode_token_def io_simps Let_def)
next
  case (3 tok e)
  then show ?case
    by (simp add: jwt_token_service_def jwt_decode_run)
next
  case (4 sub j e it e' e2)
  then show ?case
    by (simp add: jwt_token_service_def jwt_create_refresh_token_def jwt_decode_encoded)
next
  case (5 tok e x)
  then show ?case
    using jwt_decode_raises [of settings tok e x] by (auto simp: jwt_token_service_def domain_subclass_def)
qed

end
