(* ===== verification/Password_Hasher.thy ===== *)
theory Password_Hasher
  imports Ports
begin

text \<open>
  The Argon2 password hasher (\<^verbatim>\<open>app/infrastructure/security/password_hasher.py\<close>) over pwdlib, which
  is not part of the program: a hash depends on a random salt, and a verification raises on a text
  that no hasher of the library recognises. Each call is one run of the expensive function, in a
  worker thread whose result the handler awaits.
\<close>

record pwdlib =
  pl_hash :: "nat \<Rightarrow> string \<Rightarrow> string"
  pl_verify :: "string \<Rightarrow> string \<Rightarrow> string + bool"

definition pwdlib_hash :: "pwdlib \<Rightarrow> string \<Rightarrow> (exn, env, string) io" where
  "pwdlib_hash P plain_password e =
     (Inr (pl_hash P (salt_draws e) plain_password),
      e\<lparr>argon_runs := Suc (argon_runs e), salt_draws := Suc (salt_draws e)\<rparr>)"

definition pwdlib_verify :: "pwdlib \<Rightarrow> string \<Rightarrow> string \<Rightarrow> (exn, env, bool) io" where
  "pwdlib_verify P plain_password hashed_password e =
     (case pl_verify P plain_password hashed_password of
        Inl x \<Rightarrow> (Inl (Python_Error x), e)
      | Inr b \<Rightarrow> (Inr b, e\<lparr>argon_runs := Suc (argon_runs e)\<rparr>))"

definition pwdlib_password_hasher :: "pwdlib \<Rightarrow> password_hasher" where
  "pwdlib_password_hasher P = \<lparr>ph_hash = pwdlib_hash P, ph_verify = pwdlib_verify P\<rparr>"

text \<open>
  What pwdlib documents: a hash is a text of the Argon2 format (about a hundred characters) that
  verifies the password it was made from, and verification answers on every text of the format.
\<close>

locale pwdlib_library =
  fixes P :: pwdlib
    and matches :: "string \<Rightarrow> string \<Rightarrow> bool"
    and known :: "string \<Rightarrow> bool"
  assumes hash_known: "known (pl_hash P n p)"
    and hash_matches: "matches p (pl_hash P n p)"
    and hash_size: "pl_hash P n p \<noteq> []" "length (pl_hash P n p) \<le> 255"
    and verify_known: "known h \<Longrightarrow> pl_verify P p h = Inr (matches p h)"

sublocale pwdlib_library \<subseteq> password_hasher_laws "pwdlib_password_hasher P" matches known
  by unfold_locales
     (auto simp: pwdlib_password_hasher_def pwdlib_hash_def pwdlib_verify_def
        hash_known hash_matches hash_size verify_known)

end
