(* ===== verification/Event_Dispatch.thy ===== *)
theory Event_Dispatch
  imports Ports
begin

text \<open>
  The in-process event dispatcher (\<^verbatim>\<open>app/infrastructure/messaging/in_process.py\<close>) and the
  registration of its only subscriber (\<^verbatim>\<open>app/ioc/providers/events.py\<close>).
\<close>

text \<open>The classes a handler can be registered for: the base class of all events, or a concrete one.\<close>

datatype event_class = Any_Event | User_Registered_Class

fun event_isinstance :: "event_class \<Rightarrow> domain_event \<Rightarrow> bool" where
  "event_isinstance Any_Event e = True"
| "event_isinstance User_Registered_Class (UserRegistered _ _ _) = True"

fun event_type_name :: "domain_event \<Rightarrow> string" where
  "event_type_name (UserRegistered _ _ _) = ''UserRegistered''"

type_synonym event_handler = "domain_event \<Rightarrow> (exn, env, unit) io"

definition dispatch_if_match :: "event_class \<Rightarrow> event_handler \<Rightarrow> event_handler" where
  "dispatch_if_match event_type handler event =
     (if event_isinstance event_type event then handler event else retM ())"

definition register_handler ::
  "event_class \<Rightarrow> event_handler \<Rightarrow> event_handler list \<Rightarrow> event_handler list" where
  "register_handler event_type handler handlers = handlers @ [dispatch_if_match event_type handler]"

fun run_handlers :: "event_handler list \<Rightarrow> domain_event \<Rightarrow> (exn, env, unit) io" where
  "run_handlers [] event = retM ()"
| "run_handlers (h # hs) event = thenM (h event) (run_handlers hs event)"

fun in_process_dispatch :: "event_handler list \<Rightarrow> event_dispatcher" where
  "in_process_dispatch handlers [] = retM ()"
| "in_process_dispatch handlers (event # events) =
     thenM (log_at ''info'' ''domain_event.dispatched'' [(''event_type'', event_type_name event)])
     (thenM (run_handlers handlers event)
     (in_process_dispatch handlers events))"

definition log_user_registered :: event_handler where
  "log_user_registered event =
     log_at ''info'' ''user.registered''
       [(''user_id'', uuid_str (event_user_id event)), (''email'', event_email event)]"

text \<open>\<^verbatim>\<open>EventsProvider.event_dispatcher\<close>.\<close>

definition default_event_dispatcher :: event_dispatcher where
  "default_event_dispatcher =
     in_process_dispatch (register_handler User_Registered_Class log_user_registered [])"

text \<open>Handlers run per event in the order of their registration; the first exception ends it all.\<close>

lemma run_handlers_append:
  "run_handlers (hs @ ks) event = thenM (run_handlers hs event) (run_handlers ks event)"
proof (induction hs)
  case Nil
  show ?case
    by (rule ext) (simp add: io_simps)
next
  case (Cons h hs)
  then show ?case
    by (simp add: thenM_def bindM_assoc)
qed

lemma dispatch_append:
  "in_process_dispatch hs (xs @ ys) = thenM (in_process_dispatch hs xs) (in_process_dispatch hs ys)"
proof (induction xs)
  case Nil
  show ?case
    by (rule ext) (simp add: io_simps)
next
  case (Cons x xs)
  then show ?case
    by (simp add: thenM_def bindM_assoc)
qed

lemma register_last:
  "run_handlers (register_handler c h hs) event =
   thenM (run_handlers hs event) (dispatch_if_match c h event)"
proof -
  have "thenM m (retM ()) = (m :: (exn, env, unit) io)" for m
    by (rule ext) (simp add: io_simps split: prod.split sum.split)
  then show ?thesis
    by (simp add: register_handler_def run_handlers_append)
qed

definition registration_logs :: "domain_event \<Rightarrow> log_entry list" where
  "registration_logs e =
     [Log_Entry ''info'' ''domain_event.dispatched'' [(''event_type'', ''UserRegistered'')],
      Log_Entry ''info'' ''user.registered''
        [(''user_id'', uuid_str (event_user_id e)), (''email'', event_email e)]]"

lemma default_dispatch_run:
  "default_event_dispatcher events e =
   (Inr (), e\<lparr>logs := logs e @ concat (map registration_logs events)\<rparr>)"
proof (induction events arbitrary: e)
  case Nil
  then show ?case by (simp add: default_event_dispatcher_def)
next
  case (Cons x xs)
  then show ?case
    by (cases x) (simp add: default_event_dispatcher_def register_handler_def dispatch_if_match_def
        log_user_registered_def registration_logs_def io_simps)
qed

end
