(* ===== verification/Reference_Session.thy ===== *)
theory Reference_Session
  imports Sql_Repositories
begin

text \<open>
  An instance of the session contract: two tables in memory, the working copy of the transaction
  beside the committed one, with datetimes read back without their zone as SQLite does. It models
  no line of the program; it shows that \<open>sqlalchemy_session\<close> can hold, and the properties of the
  development are evaluated on it.
\<close>

record tables =
  tb_users :: "user_row list"
  tb_tokens :: "token_row list"

record mem_state =
  ms_pending :: tables
  ms_disk :: tables

definition naive :: "datetime \<Rightarrow> datetime" where
  "naive d = d\<lparr>tzinfo := None\<rparr>"

definition read_user :: "user_row \<Rightarrow> user_row" where
  "read_user r = r\<lparr>um_created_at := naive (um_created_at r)\<rparr>"

definition read_token :: "token_row \<Rightarrow> token_row" where
  "read_token r =
     r\<lparr>rm_expires_at := naive (rm_expires_at r), rm_revoked_at := map_option naive (rm_revoked_at r)\<rparr>"

definition database_of :: "tables \<Rightarrow> database" where
  "database_of t =
     \<lparr>db_users = (\<lambda>i. find (\<lambda>r. um_id r = i) (tb_users t)),
      db_tokens = (\<lambda>j. find (\<lambda>r. rm_jti r = j) (tb_tokens t))\<rparr>"

definition keyed :: "tables \<Rightarrow> bool" where
  "keyed t \<longleftrightarrow> distinct (map um_id (tb_users t)) \<and> distinct (map rm_jti (tb_tokens t))"

definition mem_good :: "mem_state \<Rightarrow> bool" where
  "mem_good s \<longleftrightarrow> keyed (ms_pending s) \<and> keyed (ms_disk s)"

definition mem_pending :: "mem_state \<Rightarrow> database" where
  "mem_pending s = database_of (ms_pending s)"

definition mem_disk :: "mem_state \<Rightarrow> database" where
  "mem_disk s = database_of (ms_disk s)"

definition mem_write :: "(tables \<Rightarrow> tables) \<Rightarrow> (exn, mem_state, unit) io" where
  "mem_write f s = (Inr (), s\<lparr>ms_pending := f (ms_pending s)\<rparr>)"

definition tables_fit :: "tables \<Rightarrow> bool" where
  "tables_fit t \<longleftrightarrow>
     list_all (\<lambda>r. length (um_email r) \<le> 320 \<and> length (um_hashed_password r) \<le> 255) (tb_users t) \<and>
     list_all (\<lambda>r. rm_user_id r \<in> um_id ` set (tb_users t)) (tb_tokens t)"

definition mem_commit :: "(exn, mem_state, unit) io" where
  "mem_commit s =
     (if \<not> tables_fit (ms_pending s) then (Inl (Integrity_Error ''FOREIGN KEY constraint failed''), s)
      else if \<not> distinct (map um_email (tb_users (ms_pending s)))
      then (Inl (Integrity_Error ''UNIQUE constraint failed: users.email''), s)
      else (Inr (), s\<lparr>ms_disk := ms_pending s\<rparr>))"

definition mem_session :: "mem_state session" where
  "mem_session =
     \<lparr>se_add_user = (\<lambda>r. mem_write (\<lambda>t. t\<lparr>tb_users := tb_users t @ [r]\<rparr>)),
      se_add_token = (\<lambda>r. mem_write (\<lambda>t. t\<lparr>tb_tokens := tb_tokens t @ [r]\<rparr>)),
      se_get_user = (\<lambda>i. readM (\<lambda>s. map_option read_user
        (find (\<lambda>r. um_id r = i) (tb_users (ms_pending s))))),
      se_get_token = (\<lambda>j. readM (\<lambda>s. map_option read_token
        (find (\<lambda>r. rm_jti r = j) (tb_tokens (ms_pending s))))),
      se_assign_user = (\<lambda>i f. mem_write (\<lambda>t.
        t\<lparr>tb_users := map (\<lambda>r. if um_id r = i then f r else r) (tb_users t)\<rparr>)),
      se_assign_token = (\<lambda>j f. mem_write (\<lambda>t.
        t\<lparr>tb_tokens := map (\<lambda>r. if rm_jti r = j then f r else r) (tb_tokens t)\<rparr>)),
      se_select_users = (\<lambda>P. readM (\<lambda>s. map read_user (filter P (tb_users (ms_pending s))))),
      se_exists_user = (\<lambda>P. readM (\<lambda>s. list_ex P (tb_users (ms_pending s)))),
      se_page_users = (\<lambda>P n. readM (\<lambda>s.
        map read_user (take n (sort_key um_id (filter P (tb_users (ms_pending s))))))),
      se_update_tokens = (\<lambda>P f. mem_write (\<lambda>t.
        t\<lparr>tb_tokens := map (\<lambda>r. if P r then f r else r) (tb_tokens t)\<rparr>)),
      se_ping = retM (),
      se_commit = mem_commit,
      se_rollback = (\<lambda>s. (Inr (), s\<lparr>ms_pending := ms_disk s\<rparr>)),
      se_close = (\<lambda>s. (Inr (), s\<lparr>ms_pending := ms_disk s\<rparr>))\<rparr>"

section \<open>The contract holds\<close>

lemma read_user_reads: "user_row_reads r (read_user r)"
  by (simp add: user_row_reads_def read_user_def reads_as_def naive_def)

lemma read_token_reads: "token_row_reads r (read_token r)"
  by (cases "rm_revoked_at r")
     (simp_all add: token_row_reads_def read_token_def reads_as_def naive_def)

lemma list_all2_read_users: "list_all2 user_row_reads rs (map read_user rs)"
  by (simp add: list_all2_map2 list.rel_refl read_user_reads)

lemma database_of_users:
  assumes "keyed t"
  shows "db_users (database_of t) i = Some r \<longleftrightarrow> r \<in> set (tb_users t) \<and> um_id r = i"
  using assms by (simp add: database_of_def keyed_def find_Some_iff_distinct)

lemma database_of_tokens:
  assumes "keyed t"
  shows "db_tokens (database_of t) j = Some r \<longleftrightarrow> r \<in> set (tb_tokens t) \<and> rm_jti r = j"
  using assms by (simp add: database_of_def keyed_def find_Some_iff_distinct)

lemma find_snoc:
  assumes "find (\<lambda>x. k x = k r) xs = None"
  shows "(\<lambda>i. find (\<lambda>x. k x = i) (xs @ [r])) = (\<lambda>i. find (\<lambda>x. k x = i) xs)(k r \<mapsto> r)"
  using assms by (auto simp: fun_eq_iff find_append split: option.split)

lemma distinct_snoc_key:
  assumes "find (\<lambda>x. k x = k r) xs = None" and "distinct (map k xs)"
  shows "distinct (map k (xs @ [r]))"
  using assms by (simp add: find_None_key)

lemma database_add_user:
  assumes "db_users (database_of t) (um_id r) = None"
  shows "database_of (t\<lparr>tb_users := tb_users t @ [r]\<rparr>) = db_put_user r (database_of t)"
    and "keyed t \<Longrightarrow> keyed (t\<lparr>tb_users := tb_users t @ [r]\<rparr>)"
  using assms find_snoc [of um_id r "tb_users t"] distinct_snoc_key [of um_id r "tb_users t"]
  by (simp_all add: database_of_def db_put_user_def keyed_def)

lemma database_add_token:
  assumes "db_tokens (database_of t) (rm_jti r) = None"
  shows "database_of (t\<lparr>tb_tokens := tb_tokens t @ [r]\<rparr>) = db_put_token r (database_of t)"
    and "keyed t \<Longrightarrow> keyed (t\<lparr>tb_tokens := tb_tokens t @ [r]\<rparr>)"
  using assms find_snoc [of rm_jti r "tb_tokens t"] distinct_snoc_key [of rm_jti r "tb_tokens t"]
  by (simp_all add: database_of_def db_put_token_def keyed_def)

lemma find_assign:
  assumes "find (\<lambda>x. k x = i) xs = Some u" and "k (f u) = i" and "distinct (map k xs)"
  shows "find (\<lambda>x. k x = j) (map (\<lambda>x. if k x = i then f x else x) xs) =
    (if j = i then Some (f u) else find (\<lambda>x. k x = j) xs)"
  using assms
proof (induction xs)
  case Nil
  then show ?case by simp
next
  case (Cons a xs)
  show ?case
  proof (cases "k a = i")
    case True
    then have "map (\<lambda>x. if k x = i then f x else x) xs = xs"
      using Cons.prems(3) by (intro map_idI) (auto simp: image_iff)
    with True Cons.prems show ?thesis by auto
  next
    case False
    with Cons show ?thesis by auto
  qed
qed

lemma map_key_assign:
  assumes "distinct (map k xs)" and "find (\<lambda>x. k x = i) xs = Some u" and "k (f u) = i"
  shows "distinct (map (k \<circ> (\<lambda>x. if k x = i then f x else x)) xs)"
proof -
  have "k (if k x = i then f x else x) = k x" if "x \<in> set xs" for x
  proof -
    have "x = u" if "k x = i"
      using find_Some_iff_distinct [OF assms(1), of i x] assms(2) \<open>x \<in> set xs\<close> that by simp
    then show ?thesis using assms(3) by auto
  qed
  then have same: "map (k \<circ> (\<lambda>x. if k x = i then f x else x)) xs = map k xs"
    by simp
  show ?thesis unfolding same by (rule assms(1))
qed

lemma database_assign_user:
  assumes "keyed t" and "db_users (database_of t) i = Some u" and "um_id (f u) = i"
  defines "t' \<equiv> t\<lparr>tb_users := map (\<lambda>r. if um_id r = i then f r else r) (tb_users t)\<rparr>"
  shows "database_of t' = db_put_user (f u) (database_of t)" and "keyed t'"
proof -
  have u: "find (\<lambda>r. um_id r = i) (tb_users t) = Some u" and d: "distinct (map um_id (tb_users t))"
    using assms(1,2) by (simp_all add: database_of_def keyed_def)
  show "database_of t' = db_put_user (f u) (database_of t)"
    using find_assign [where f = f, OF u assms(3) d] assms(3)
    by (auto simp: t'_def database_of_def db_put_user_def)
  show "keyed t'"
    using assms(1) map_key_assign [where f = f, OF d u assms(3)]
    by (simp add: t'_def keyed_def)
qed

lemma database_assign_token:
  assumes "keyed t" and "db_tokens (database_of t) j = Some u" and "rm_jti (f u) = j"
  defines "t' \<equiv> t\<lparr>tb_tokens := map (\<lambda>r. if rm_jti r = j then f r else r) (tb_tokens t)\<rparr>"
  shows "database_of t' = db_put_token (f u) (database_of t)" and "keyed t'"
proof -
  have u: "find (\<lambda>r. rm_jti r = j) (tb_tokens t) = Some u" and d: "distinct (map rm_jti (tb_tokens t))"
    using assms(1,2) by (simp_all add: database_of_def keyed_def)
  show "database_of t' = db_put_token (f u) (database_of t)"
    using find_assign [where f = f, OF u assms(3) d] assms(3)
    by (auto simp: t'_def database_of_def db_put_token_def)
  show "keyed t'"
    using assms(1) map_key_assign [where f = f, OF d u assms(3)]
    by (simp add: t'_def keyed_def)
qed

lemma database_map_tokens:
  assumes "\<And>r. rm_jti (f r) = rm_jti r"
  shows "database_of (t\<lparr>tb_tokens := map (\<lambda>r. if P r then f r else r) (tb_tokens t)\<rparr>) =
      db_map_tokens P f (database_of t)"
    and "keyed t \<Longrightarrow> keyed (t\<lparr>tb_tokens := map (\<lambda>r. if P r then f r else r) (tb_tokens t)\<rparr>)"
proof -
  have key: "\<And>r. rm_jti (if P r then f r else r) = rm_jti r"
    using assms by simp
  have same: "map (rm_jti \<circ> (\<lambda>r. if P r then f r else r)) (tb_tokens t) = map rm_jti (tb_tokens t)"
    using key by (simp only: map_eq_conv comp_def) blast
  show "keyed t \<Longrightarrow> keyed (t\<lparr>tb_tokens := map (\<lambda>r. if P r then f r else r) (tb_tokens t)\<rparr>)"
    using same by (simp add: keyed_def del: map_eq_conv)
  show "database_of (t\<lparr>tb_tokens := map (\<lambda>r. if P r then f r else r) (tb_tokens t)\<rparr>) =
      db_map_tokens P f (database_of t)"
    by (auto simp: database_of_def db_map_tokens_def
        find_map_key [where k = rm_jti and f = "\<lambda>r. if P r then f r else r", OF key])
qed

lemma database_of_user_None: "db_users (database_of t) i = None \<longleftrightarrow> i \<notin> um_id ` set (tb_users t)"
  by (simp add: database_of_def find_None_key)

lemma tables_fit_iff: "keyed t \<Longrightarrow> tables_fit t \<longleftrightarrow> db_fits (database_of t)"
  by (simp add: tables_fit_def db_fits_def database_of_users database_of_tokens
      database_of_user_None list_all_iff Ball_def)

lemma distinct_emails_iff:
  assumes "keyed t"
  shows "distinct (map um_email (tb_users t)) \<longleftrightarrow> db_emails_unique (database_of t)"
proof -
  have "distinct (tb_users t)" and inj: "inj_on um_id (set (tb_users t))"
    using assms by (simp_all add: keyed_def distinct_map)
  then have "distinct (map um_email (tb_users t)) \<longleftrightarrow> inj_on um_email (set (tb_users t))"
    by (simp add: distinct_map)
  also have "\<dots> \<longleftrightarrow> db_emails_unique (database_of t)"
    using inj unfolding db_emails_unique_def database_of_users [OF assms] inj_on_def by metis
  finally show ?thesis .
qed

lemma sort_key_strict:
  assumes "distinct (map k xs)"
  shows "sorted_wrt (\<lambda>a b. k a < k b) (sort_key k xs)"
proof -
  have "sorted (map k (sort_key k xs))" by simp
  moreover have "distinct (map k (sort_key k xs))"
    using assms by (simp add: distinct_map)
  ultimately have "sorted_wrt (<) (map k (sort_key k xs))"
    by (simp add: strict_sorted_iff)
  then show ?thesis by (simp add: sorted_wrt_map)
qed

lemmas mem_simps = mem_session_def mem_write_def yields_def raises_def moved_def mem_good_def
  mem_pending_def mem_disk_def

lemma mem_readable:
  assumes "mem_good s" and "mem_pending s = mem_disk s"
  shows "(\<exists>i. db_users (mem_disk s) i = Some r) \<longleftrightarrow> r \<in> set (tb_users (ms_pending s))"
  using assms database_of_users [of "ms_pending s"]
  by (auto simp: mem_good_def mem_pending_def simp flip: assms(2))

interpretation mem: sqlalchemy_session mem_session mem_good mem_pending mem_disk
proof (unfold_locales, goal_cases)
  case (1 s i)
  then show ?case
    by (auto simp: mem_simps database_of_def fun_eq_iff option.rel_map read_user_reads
        intro!: option.rel_refl)
next
  case (2 s j)
  then show ?case
    by (auto simp: mem_simps database_of_def fun_eq_iff option.rel_map read_token_reads
        intro!: option.rel_refl)
next
  case (3 s u)
  then show ?case by (simp add: mem_simps database_add_user)
next
  case (4 s t)
  then show ?case by (simp add: mem_simps database_add_token)
next
  case (5 s i u f)
  then show ?case
    using database_assign_user [of "ms_pending s" i u f] by (simp add: mem_simps)
next
  case (6 s j t g)
  then show ?case
    using database_assign_token [of "ms_pending s" j t g] by (simp add: mem_simps)
next
  case (7 s P)
  have "distinct (filter P (tb_users (ms_pending s)))"
    using 7(1) by (simp add: mem_good_def keyed_def distinct_map)
  with 7 mem_readable [OF 7] show ?case
    by (intro exI [of _ "map read_user (filter P (tb_users (ms_pending s)))"]
          exI [of _ "filter P (tb_users (ms_pending s))"])
       (auto simp: mem_session_def yields_def moved_def list_all2_read_users)
next
  case (8 s P)
  then show ?case
    using mem_readable [OF 8] by (simp add: mem_session_def yields_def moved_def list_ex_iff) metis
next
  case (9 s P n)
  let ?rs = "sort_key um_id (filter P (tb_users (ms_pending s)))"
  have "distinct (map um_id (filter P (tb_users (ms_pending s))))"
    using 9(1) by (simp add: mem_good_def keyed_def distinct_map_filter)
  with 9 mem_readable [OF 9] show ?case
    by (intro exI [of _ "map read_user (take n ?rs)"] exI [of _ ?rs])
       (auto simp: mem_session_def yields_def moved_def list_all2_read_users sort_key_strict)
next
  case (10 s g Q)
  then show ?case
    using database_map_tokens [where f = g and P = Q and t = "ms_pending s"] by (simp add: mem_simps)
next
  case (11 s)
  then show ?case
    by (simp add: mem_simps mem_commit_def tables_fit_iff distinct_emails_iff)
next
  case (12 s)
  have "names_email_constraint ''UNIQUE constraint failed: users.email''"
    by (simp add: names_email_constraint_def email_unique_markers_def)
  with 12 show ?case
    by (auto simp: mem_simps mem_commit_def tables_fit_iff distinct_emails_iff)
next
  case (13 s)
  then show ?case by (simp add: mem_simps)
next
  case (14 s)
  then show ?case by (simp add: mem_simps)
next
  case (15 s)
  then show ?case by (simp add: mem_session_def moved_def)
qed

end
