(* ===== verification/Reference_Libraries.thy ===== *)
theory Reference_Libraries
  imports Jwt_Service Password_Hasher Reference_Session
begin

text \<open>
  Instances of the contracts of PyJWT and pwdlib. Like \<open>Reference_Session\<close> they model no line of
  the program: they show that the contracts can hold, and the properties are evaluated on them. A
  token of the reference PyJWT is the list of the algorithm, the key and the claims, written out.
\<close>

section \<open>Lists of texts in one text\<close>

definition mark :: char where
  "mark = CHR ''+''"

definition put_field :: "string \<Rightarrow> string" where
  "put_field s = concat (map (\<lambda>c. [mark, c]) s) @ ''.''"

fun get_fields :: "string \<Rightarrow> string \<Rightarrow> string list option" where
  "get_fields acc [] = (if acc = [] then Some [] else None)"
| "get_fields acc [c] = (if c = CHR ''.'' then Some [rev acc] else None)"
| "get_fields acc (c # d # s) =
     (if c = CHR ''.'' then map_option ((#) (rev acc)) (get_fields [] (d # s))
      else if c = mark then get_fields (d # acc) s
      else None)"

lemma get_fields_put:
  "get_fields acc (concat (map (\<lambda>c. [mark, c]) s) @ CHR ''.'' # r) =
   map_option ((#) (rev acc @ s)) (get_fields [] r)"
proof (induction s arbitrary: acc)
  case Nil
  then show ?case by (cases r) auto
next
  case (Cons c s)
  then show ?case by (simp add: mark_def)
qed

lemma get_fields_all: "get_fields [] (concat (map put_field xs)) = Some xs"
  by (induction xs) (simp_all add: put_field_def get_fields_put)

section \<open>Integers in binary\<close>

fun nat_bits :: "nat \<Rightarrow> string" where
  "nat_bits n = (if n = 0 then [] else (if odd n then CHR ''1'' else CHR ''0'') # nat_bits (n div 2))"

declare nat_bits.simps [simp del]

fun bits_nat :: "string \<Rightarrow> nat" where
  "bits_nat [] = 0"
| "bits_nat (c # s) = (if c = CHR ''1'' then 1 else 0) + 2 * bits_nat s"

lemma bits_nat_bits [simp]: "bits_nat (nat_bits n) = n"
proof (induction n rule: nat_bits.induct)
  case (1 n)
  show ?case
    using 1 by (subst nat_bits.simps) (auto elim: oddE evenE)
qed

fun claim_text :: "claim \<Rightarrow> string" where
  "claim_text (Claim_Str s) = CHR ''s'' # s"
| "claim_text (Claim_Int i) =
     CHR ''i'' # (if i < 0 then CHR ''-'' else CHR ''+'') # nat_bits (nat \<bar>i\<bar>)"
| "claim_text (Claim_Other s) = CHR ''o'' # s"

definition text_claim :: "string \<Rightarrow> claim" where
  "text_claim s =
     (case s of
        [] \<Rightarrow> Claim_Other []
      | c # t \<Rightarrow>
          (if c = CHR ''s'' then Claim_Str t
           else if c = CHR ''i'' then
             (if take 1 t = ''-'' then Claim_Int (- int (bits_nat (drop 1 t)))
              else Claim_Int (int (bits_nat (drop 1 t))))
           else Claim_Other t))"

lemma text_claim_text [simp]: "text_claim (claim_text c) = c"
  by (cases c) (auto simp: text_claim_def)

section \<open>PyJWT\<close>

fun alg_text :: "jwt_algorithm \<Rightarrow> string" where
  "alg_text HS256 = ''HS256''"
| "alg_text HS384 = ''HS384''"
| "alg_text HS512 = ''HS512''"

fun pair_fields :: "(string \<times> claim) list \<Rightarrow> string list" where
  "pair_fields [] = []"
| "pair_fields ((k, v) # p) = k # claim_text v # pair_fields p"

fun fields_pairs :: "string list \<Rightarrow> (string \<times> claim) list" where
  "fields_pairs (k # v # fs) = (k, text_claim v) # fields_pairs fs"
| "fields_pairs _ = []"

lemma fields_pairs_inverse [simp]: "fields_pairs (pair_fields p) = p"
  by (induction p rule: pair_fields.induct) auto

definition ref_encode :: "(string \<times> claim) list \<Rightarrow> string \<Rightarrow> jwt_algorithm \<Rightarrow> string" where
  "ref_encode p secret alg = concat (map put_field (alg_text alg # secret # pair_fields p))"

definition ref_decode ::
  "string \<Rightarrow> string \<Rightarrow> decode_options \<Rightarrow> int \<Rightarrow> jwt_error + (string \<Rightarrow> claim option)" where
  "ref_decode tok secret opts now =
     (case get_fields [] tok of
        Some (a # k # fs) \<Rightarrow>
          (let p = fields_pairs fs in
           if a \<in> alg_text ` set (opt_algorithms opts) \<and> k = secret \<and> valid_claims p opts now
           then (case expires p of
                   None \<Rightarrow> Inl Pyjwt_Error
                 | Some x \<Rightarrow> if now < x then Inr (map_of p) else Inl Expired_Signature)
           else Inl Pyjwt_Error)
      | _ \<Rightarrow> Inl Pyjwt_Error)"

definition ref_pyjwt :: pyjwt where
  "ref_pyjwt = \<lparr>jw_encode = ref_encode, jw_decode = ref_decode\<rparr>"

interpretation ref_jwt: pyjwt_library ref_pyjwt
proof (unfold_locales, goal_cases)
  case (1 alg opts p now x secret)
  then show ?case
    by (simp add: ref_pyjwt_def ref_encode_def ref_decode_def get_fields_all del: list.map)
next
  case (2 alg opts p now x secret)
  then show ?case
    by (simp add: ref_pyjwt_def ref_encode_def ref_decode_def get_fields_all del: list.map)
next
  case (3 tok secret opts now e y)
  then show ?case
    by (auto simp: ref_pyjwt_def ref_decode_def Let_def split: option.splits list.splits if_splits)
qed

section \<open>pwdlib\<close>

definition digest :: "string \<Rightarrow> nat" where
  "digest p = foldl (\<lambda>a c. (a * 257 + Suc (code_point c)) mod 16 ^ 16) 0 p"

definition ref_hash :: "nat \<Rightarrow> string \<Rightarrow> string" where
  "ref_hash salt p = ''$ref$'' @ hex_fixed 16 (digest p)"

definition ref_known :: "string \<Rightarrow> bool" where
  "ref_known h \<longleftrightarrow> starts_with h ''$ref$''"

definition ref_matches :: "string \<Rightarrow> string \<Rightarrow> bool" where
  "ref_matches p h \<longleftrightarrow> h = ref_hash 0 p"

definition ref_pwdlib :: pwdlib where
  "ref_pwdlib =
     \<lparr>pl_hash = ref_hash,
      pl_verify = (\<lambda>p h. if ref_known h then Inr (ref_matches p h) else Inl ''UnknownHashError'')\<rparr>"

interpretation ref_pwd: pwdlib_library ref_pwdlib ref_matches ref_known
  by unfold_locales
     (simp_all add: ref_pwdlib_def ref_hash_def ref_known_def ref_matches_def starts_with_def)

end
