(* ===== verification/Assembly.thy ===== *)
theory Assembly
  imports System Query_Service Jwt_Service Password_Hasher Event_Dispatch Reference_Libraries
begin

text \<open>
  The composition root (\<^verbatim>\<open>app/ioc\<close>): the providers wire every handler from the adapters, and a
  request runs in a session of its own that is closed at the end, which rolls back whatever was
  not committed. The locale \<open>third_party\<close> collects the contracts of the three libraries the
  authentication code stands on; every port contract follows from it.
\<close>

section \<open>The wiring\<close>

text \<open>\<^verbatim>\<open>SecurityProvider\<close>, \<^verbatim>\<open>DatabaseProvider.unit_of_work\<close> and the handlers of \<^verbatim>\<open>UseCasesProvider\<close>.\<close>

definition provided_token_service :: "pyjwt \<Rightarrow> settings \<Rightarrow> token_service" where
  "provided_token_service J config = jwt_token_service J (set_jwt config) system_clock"

definition login_handler ::
  "'s session \<Rightarrow> pyjwt \<Rightarrow> pwdlib \<Rightarrow> settings \<Rightarrow> login_command \<Rightarrow> (exn, ('s, 'r) world, token_pair) io" where
  "login_handler S J P config =
     login_execute (sql_unit_of_work S) (pwdlib_password_hasher P) (provided_token_service J config)"

definition refresh_handler ::
  "'s session \<Rightarrow> pyjwt \<Rightarrow> settings \<Rightarrow> refresh_token_command \<Rightarrow> (exn, ('s, 'r) world, token_pair) io" where
  "refresh_handler S J config =
     refresh_execute (sql_unit_of_work S) (provided_token_service J config) system_clock"

definition logout_handler ::
  "'s session \<Rightarrow> pyjwt \<Rightarrow> settings \<Rightarrow> logout_command \<Rightarrow> (exn, ('s, 'r) world, unit) io" where
  "logout_handler S J config =
     logout_execute (sql_unit_of_work S) (provided_token_service J config) system_clock"

definition create_user_handler ::
  "'s session \<Rightarrow> pwdlib \<Rightarrow> create_user_command \<Rightarrow> (exn, ('s, 'r) world, user_view) io" where
  "create_user_handler S P =
     create_user_execute (sql_unit_of_work S) (pwdlib_password_hasher P) system_clock
       default_event_dispatcher"

definition change_password_handler ::
  "'s session \<Rightarrow> pwdlib \<Rightarrow> change_password_command \<Rightarrow> (exn, ('s, 'r) world, unit) io" where
  "change_password_handler S P =
     change_password_execute (sql_unit_of_work S) (pwdlib_password_hasher P) system_clock"

definition get_user_handler :: "'s session \<Rightarrow> get_user_query \<Rightarrow> (exn, ('s, 'r) world, user_view) io" where
  "get_user_handler S query = on_store (get_user_execute (sql_user_query_service Map.empty S) query)"

definition list_users_handler ::
  "(nat list \<Rightarrow> uuid option) \<Rightarrow> 's session \<Rightarrow> list_users_query \<Rightarrow>
   (exn, ('s, 'r) world, user_view page) io" where
  "list_users_handler wide S query = on_store (list_users_execute (sql_user_query_service wide S) query)"

lemmas handler_defs = provided_token_service_def login_handler_def refresh_handler_def
  logout_handler_def create_user_handler_def change_password_handler_def

text \<open>Whatever the session does: a registration that fails has logged nothing, and one that succeeds
  announces the user after the commit.\<close>

lemma pwdlib_hash_run: "\<exists>h e'. pwdlib_hash P p e = (Inr h, e') \<and> logs e' = logs e"
  by (simp add: pwdlib_hash_def)

lemma create_user_events:
  "case create_user_execute (sql_unit_of_work S) (pwdlib_password_hasher P) system_clock
      default_event_dispatcher c w of
     (Inl x, w') \<Rightarrow> logs (env w') = logs (env w)
   | (Inr v, w') \<Rightarrow>
       (\<exists>s. sql_commit S s = (Inr (), store w')) \<and>
       (\<exists>at. logs (env w') = logs (env w) @ registration_logs (UserRegistered (uv_id v) (uv_email v) at))"
  by (auto simp: create_user_execute_def io_simps pwdlib_password_hasher_def pwdlib_hash_def
      system_clock_def default_dispatch_run user_defs Let_def split: prod.split sum.split)

text \<open>\<^verbatim>\<open>DatabaseProvider.session\<close>: \<open>async with factory() as session\<close> closes the session whatever
  the request did.\<close>

definition with_session ::
  "'s session \<Rightarrow> (exn, ('s, 'r) world, 'a) io \<Rightarrow> (exn, ('s, 'r) world, 'a) io" where
  "with_session S m w =
     (case m w of (r, w') \<Rightarrow>
        (case on_store (se_close S) w' of (Inl x, w'') \<Rightarrow> (Inl x, w'') | (Inr _, w'') \<Rightarrow> (r, w'')))"

section \<open>The contracts together\<close>

locale third_party =
  sqlalchemy_session S good pending disk + pyjwt_library J + pwdlib_library P matches known
  for S :: "'s session" and good :: "'s \<Rightarrow> bool" and pending :: "'s \<Rightarrow> database"
    and disk :: "'s \<Rightarrow> database" and J :: pyjwt and P :: pwdlib
    and matches :: "string \<Rightarrow> string \<Rightarrow> bool" and known :: "string \<Rightarrow> bool"

sublocale third_party \<subseteq> jwt_tokens J system_clock
  by unfold_locales

sublocale third_party \<subseteq>
  app: auth_ports "sql_unit_of_work S" "uow_ok good pending disk" "content pending" "content disk"
    "pwdlib_password_hasher P" matches known "provided_token_service J config"
    "jwt_fresh (refresh_lifetime (set_jwt config))" system_clock
  unfolding provided_token_service_def by unfold_locales

text \<open>The derived contracts, for use outside the locale.\<close>

context third_party
begin

lemma ports:
  "auth_ports (sql_unit_of_work S) (uow_ok good pending disk) (content pending) (content disk)
    (pwdlib_password_hasher P) matches known (provided_token_service J config)
    (jwt_fresh (refresh_lifetime (set_jwt config))) system_clock"
  by unfold_locales

lemma queries:
  "user_query_laws (sql_user_query_service wide S) wide (uow_ok good pending disk)
    (content pending) (content disk)"
  by unfold_locales

end

abbreviation quiet ::
  "('s \<Rightarrow> bool) \<Rightarrow> ('s \<Rightarrow> database) \<Rightarrow> ('s \<Rightarrow> database) \<Rightarrow> ('s, 'r) world \<Rightarrow> bool" where
  "quiet good pending disk \<equiv> clean (uow_ok good pending disk) (content pending) (content disk)"

abbreviation committed :: "('s \<Rightarrow> database) \<Rightarrow> ('s, 'r) world \<Rightarrow> account_store" where
  "committed disk w \<equiv> content disk (store w)"

abbreviation leaves ::
  "('s \<Rightarrow> bool) \<Rightarrow> ('s \<Rightarrow> database) \<Rightarrow> ('s \<Rightarrow> database) \<Rightarrow> ('s, 'r) world \<Rightarrow> account_store \<Rightarrow>
   ('s, 'r) world \<Rightarrow> bool" where
  "leaves good pending disk \<equiv> settled (uow_ok good pending disk) (content pending) (content disk)"

interpretation reference: third_party mem_session mem_good mem_pending mem_disk
  ref_pyjwt ref_pwdlib ref_matches ref_known
  by unfold_locales

end
