(* ===== verification/Example_World.thy ===== *)
theory Example_World
  imports Assembly
begin

text \<open>
  A small concrete world for the witnesses of the properties: one active user with two refresh
  tokens of different families, one live and one revoked, over the reference libraries, with a
  clock that stands still and a counting source of identifiers.
\<close>

definition alice :: user where
  "alice =
     \<lparr>agg_events = [], usr_id = UserId 1, usr_email = Email ''alice@example.com'',
      usr_hashed_password = HashedPassword (ref_hash 0 ''secret''), usr_is_active = True,
      usr_created_at = utc 0\<rparr>"

definition live_record :: refresh_token_record where
  "live_record =
     \<lparr>rt_jti = 7, rt_user_id = UserId 1, rt_family_id = 70, rt_expires_at = utc (5000 * us_per_second),
      rt_revoked_at = None\<rparr>"

definition used_record :: refresh_token_record where
  "used_record =
     \<lparr>rt_jti = 8, rt_user_id = UserId 1, rt_family_id = 80, rt_expires_at = utc (5000 * us_per_second),
      rt_revoked_at = Some (utc 5)\<rparr>"

definition example_tables :: tables where
  "example_tables =
     \<lparr>tb_users = [user_to_model alice],
      tb_tokens = [token_to_model live_record, token_to_model used_record]\<rparr>"

definition example_store :: account_store where
  "example_store =
     \<lparr>st_users = [1 \<mapsto> alice], st_tokens = [7 \<mapsto> live_record, 8 \<mapsto> used_record]\<rparr>"

definition example_env :: env where
  "example_env =
     \<lparr>clock_feed = (\<lambda>_. utc (1000 * us_per_second)), clock_reads = 0,
      uuid_feed = (\<lambda>n. word_of_nat (100 + n)), uuid_draws = 0, salt_draws = 0, argon_runs = 0,
      logs = []\<rparr>"

definition example_world :: "(mem_state, unit) world" where
  "example_world =
     \<lparr>store = \<lparr>ms_pending = example_tables, ms_disk = example_tables\<rparr>, cache = (), env = example_env\<rparr>"

text \<open>The token the service issued for a record of the example at second 900.\<close>

definition example_token :: "token_type \<Rightarrow> string \<Rightarrow> uuid \<Rightarrow> string" where
  "example_token ty subject j =
     ref_encode (jwt_claims default_jwt_settings subject ty j (utc (900 * us_per_second))
       (utc (5000 * us_per_second))) insecure_jwt_secret HS256"

lemma alice_wf: "user_wf alice" "user_fits alice" "email_wf (usr_email alice)"
proof -
  have "email_new ''alice@example.com'' = Inr (Email ''alice@example.com'')"
    by code_simp
  then show "email_wf (usr_email alice)"
    by (simp add: alice_def email_wf_def)
  then show "user_wf alice" "user_fits alice"
    by (simp_all add: user_wf_def user_fits_def alice_def hashed_password_wf_def ref_hash_def)
qed

lemma example_store_simps [simp]:
  "st_users example_store i = (if i = 1 then Some alice else None)"
  "st_tokens example_store j =
     (if j = 8 then Some used_record else if j = 7 then Some live_record else None)"
  by (simp_all add: example_store_def)

lemma example_store_wf: "wf_store example_store"
  using alice_wf
  by (auto simp: wf_store_def token_wf_def live_record_def used_record_def split: if_splits)
     (simp_all add: alice_def)

lemma example_rows: "database_of example_tables = rows_of example_store"
  by (auto simp: database_of_def rows_of_def example_tables_def user_to_model_def token_to_model_def
      alice_def live_record_def used_record_def)

lemma example_clean:
  "quiet mem_good mem_pending mem_disk example_world"
  "committed mem_disk example_world = example_store"
proof -
  have "keyed example_tables"
    by (simp add: keyed_def example_tables_def user_to_model_def token_to_model_def
        live_record_def used_record_def)
  then show "quiet mem_good mem_pending mem_disk example_world"
    using example_store_wf
    by (auto simp: clean_def uow_ok_def mem_good_def mem_pending_def mem_disk_def content_def
        example_world_def example_rows env_ok_def example_env_def)
  show "committed mem_disk example_world = example_store"
    by (simp add: content_def mem_disk_def example_world_def example_rows example_store_wf)
qed

lemma example_decode_at:
  assumes "clock_feed e = clock_feed example_env"
  shows "fst (jwt_decode ref_pyjwt default_jwt_settings (example_token ty subject j) e) =
    Inr \<lparr>tp_subject = subject, tp_token_type = ty, tp_token_id = j\<rparr>"
proof -
  let ?p = "jwt_claims default_jwt_settings subject ty j (utc (900 * us_per_second)) (utc (5000 * us_per_second))"
  have "jw_decode ref_pyjwt (jw_encode ref_pyjwt ?p insecure_jwt_secret HS256) insecure_jwt_secret
      (jwt_options default_jwt_settings) (1000 * us_per_second) = Inr (map_of ?p)"
    by (rule ref_jwt.decode_encode [where x = "5000 * us_per_second"])
       (simp_all add: jwt_options_def default_jwt_settings_def jwt_claims_def valid_claims_def
         required_claims_def expires_def int_timestamp_def timestamp_us_def utc_def us_per_second_def)
  then show ?thesis
    using assms
    by (simp add: jwt_decode_def example_token_def io_simps system_clock_def
        example_env_def default_jwt_settings_def timestamp_us_def utc_def ref_pyjwt_def)
qed

lemma example_payload_at:
  assumes "clock_feed e = clock_feed example_env"
  shows "fst (ts_decode (provided_token_service ref_pyjwt default_settings) (example_token ty subject j) e) =
    Inr \<lparr>tp_subject = subject, tp_token_type = ty, tp_token_id = j\<rparr>"
  using example_decode_at [OF assms]
  by (simp add: provided_token_service_def jwt_token_service_def default_settings_def)

lemma example_payload:
  "fst (ts_decode (provided_token_service ref_pyjwt default_settings) (example_token ty subject j)
     (env example_world)) = Inr \<lparr>tp_subject = subject, tp_token_type = ty, tp_token_id = j\<rparr>"
  by (rule example_payload_at) (simp add: example_world_def)

lemma example_world_env: "env example_world = example_env"
  by (simp add: example_world_def)

lemma example_now: "refresh_now (provided_token_service ref_pyjwt default_settings) system_clock tok example_world =
  Inr (utc (1000 * us_per_second))"
proof -
  obtain n where "snd (jwt_decode ref_pyjwt default_jwt_settings tok (env example_world)) =
      (env example_world)\<lparr>clock_reads := n\<rparr>"
    using jwt_decode_run by blast
  then show ?thesis
    by (simp add: refresh_now_def provided_token_service_def jwt_token_service_def
        default_settings_def system_clock_def example_world_def example_env_def)
qed

lemma example_next: "next_uuid (env example_world) = 100" "next_family (env example_world) = 101"
  by (simp_all add: next_uuid_def next_family_def example_world_def example_env_def)

lemma example_fresh: "fresh_ids (committed mem_disk example_world) (env example_world)"
  by (simp add: fresh_ids_def new_family_def example_clean example_next live_record_def used_record_def)

lemma example_known: "all_known ref_known (committed mem_disk example_world)"
  by (simp add: all_known_def example_clean alice_def ref_known_def ref_hash_def starts_with_def)

lemmas example_third_party = reference.third_party_axioms

text \<open>The refresh token of the live record, and the rotation it starts.\<close>

abbreviation live_text :: string where
  "live_text \<equiv> example_token Refresh (user_id_str (UserId 1)) 7"

lemma example_decision: "refresh_decision example_store
    (Inr \<lparr>tp_subject = user_id_str (UserId 1), tp_token_type = Refresh, tp_token_id = 7\<rparr>)
    (utc (1000 * us_per_second)) = Rotated live_record alice"
  by (simp add: refresh_decision_def token_owner_def active_user_def is_revoked_def live_record_def
      alice_def timestamp_us_def utc_def us_per_second_def)

lemma example_rotation:
  "\<exists>pair w1 now d. refresh_handler mem_session ref_pyjwt default_settings
      \<lparr>rc_refresh_token = live_text\<rparr> example_world = (Inr pair, w1) \<and>
    leaves mem_good mem_pending mem_disk example_world (rotate live_record alice now 100 d example_store) w1"
  using auth_ports.refresh_refines [OF third_party.ports [OF example_third_party]
      example_clean(1) example_now, of live_text]
  unfolding refresh_handler_def
  by (auto simp: example_clean(2) example_next example_payload example_decision refresh_outcome_def
      elim!: yieldsE)

text \<open>The change of Alice's password.\<close>

lemma example_password_change:
  "\<exists>w1. change_password_handler mem_session ref_pwdlib
      \<lparr>cp_user_id = 1, cp_current_password = ''secret'', cp_new_password = ''changed''\<rparr> example_world =
      (Inr (), w1) \<and> clock_feed (env w1) = clock_feed example_env \<and> uuid_feed (env w1) = uuid_feed example_env \<and>
    quiet mem_good mem_pending mem_disk w1"
proof -
  have "ref_known (hp_value (usr_hashed_password alice))"
      "ref_matches ''secret'' (hp_value (usr_hashed_password alice))"
    by (simp_all add: alice_def ref_matches_def ref_known_def ref_hash_def starts_with_def)
  from auth_ports.change_password_succeeds [OF third_party.ports [OF example_third_party] example_clean(1) _ this(1),
      of "\<lparr>cp_user_id = 1, cp_current_password = ''secret'', cp_new_password = ''changed''\<rparr>"] this(2)
  show ?thesis
    unfolding change_password_handler_def
    by (auto simp: example_clean(2) settled_def example_world_env elim!: yieldsE)
qed

text \<open>The same world with a source of identifiers that repeats itself: what a request draws stays new
  as long as nothing of that identifier is stored.\<close>

definition steady_world :: "(mem_state, unit) world" where
  "steady_world = example_world\<lparr>env := example_env\<lparr>uuid_feed := (\<lambda>_. 100)\<rparr>\<rparr>"

lemma steady_clean:
  "quiet mem_good mem_pending mem_disk steady_world"
  "committed mem_disk steady_world = example_store"
  "all_known ref_known (committed mem_disk steady_world)"
proof -
  have "store steady_world = store example_world"
    by (simp add: steady_world_def)
  moreover have "env_ok (env steady_world)"
    by (simp add: steady_world_def env_ok_def example_env_def)
  ultimately show "quiet mem_good mem_pending mem_disk steady_world"
    "committed mem_disk steady_world = example_store"
    "all_known ref_known (committed mem_disk steady_world)"
    using example_clean example_known by (simp_all add: clean_def)
qed

lemma steady_next: "uuid_feed e = uuid_feed (env steady_world) \<Longrightarrow> next_uuid e = 100"
  by (simp add: next_uuid_def steady_world_def)

end
