(* ===== verification/Config_Parser.thy ===== *)
theory Config_Parser
  imports Python_Text Domain_Errors
begin

text \<open>
  What the source uses of \<^verbatim>\<open>configparser\<close>: an option is checked for valid interpolation syntax when it is
  set and interpolated when it is read (\<^verbatim>\<open>BasicInterpolation\<close>). Alembic keeps its options in such a parser.
\<close>

abbreviation percent :: char where
  "percent \<equiv> CHR ''%''"

text \<open>A reference \<^verbatim>\<open>%(name)s\<close>, read after its percent sign: the name and what follows.\<close>

definition key_match :: "string \<Rightarrow> (string \<times> string) option" where
  "key_match s =
     (case s of
        c # r \<Rightarrow>
          (let name = takeWhile (\<lambda>x. x \<noteq> CHR '')'') r in
           if c = CHR ''('' \<and> name \<noteq> [] then
             (case dropWhile (\<lambda>x. x \<noteq> CHR '')'') r of
                p # x # rest \<Rightarrow> if x = CHR ''s'' then Some (name, rest) else None
              | _ \<Rightarrow> None)
           else None)
      | [] \<Rightarrow> None)"

lemma key_match_shorter: "key_match s = Some (n, r) \<Longrightarrow> length r < length s"
proof -
  have le: "length (dropWhile (\<lambda>x. x \<noteq> CHR '')'') t) \<le> length t" for t
    by (rule length_dropWhile_le)
  assume "key_match s = Some (n, r)"
  then obtain c t p where s: "s = c # t" "dropWhile (\<lambda>x. x \<noteq> CHR '')'') t = p # CHR ''s'' # r"
    by (auto simp: key_match_def Let_def split: list.splits if_splits)
  then show ?thesis
    using le [of t] by simp
qed

text \<open>\<^verbatim>\<open>re.sub\<close> of the references by nothing.\<close>

function drop_keys :: "string \<Rightarrow> string" where
  "drop_keys [] = []"
| "drop_keys (c # s) =
     (if c = percent then
        (case key_match s of None \<Rightarrow> c # drop_keys s | Some (n, r) \<Rightarrow> drop_keys r)
      else c # drop_keys s)"
  by pat_completeness auto
termination
  by (relation "measure length") (auto dest: key_match_shorter)

definition option_settable :: "string \<Rightarrow> bool" where
  "option_settable v \<longleftrightarrow> percent \<notin> set (drop_keys (remove_all ''%%'' v))"

text \<open>\<open>d\<close> is the depth of nested references still allowed.\<close>

function interpolate :: "(string \<rightharpoonup> string) \<Rightarrow> nat \<Rightarrow> string \<Rightarrow> exn + string" where
  "interpolate m d [] = Inr []"
| "interpolate m d (c # s) =
     (if c \<noteq> percent then map_sum id ((#) c) (interpolate m d s)
      else (case s of
        [] \<Rightarrow> Inl (Python_Error ''InterpolationSyntaxError'')
      | x # t \<Rightarrow>
          if x = percent then map_sum id ((#) percent) (interpolate m d t)
          else (case key_match s of
            None \<Rightarrow> Inl (Python_Error ''InterpolationSyntaxError'')
          | Some (n, r) \<Rightarrow>
              (case m (lower n) of
                None \<Rightarrow> Inl (Python_Error ''InterpolationMissingOptionError'')
              | Some v \<Rightarrow>
                  (case (if percent \<notin> set v then Inr v
                         else (case d of
                           0 \<Rightarrow> Inl (Python_Error ''InterpolationDepthError'')
                         | Suc d' \<Rightarrow> interpolate m d' v)) of
                    Inl e \<Rightarrow> Inl e
                  | Inr h \<Rightarrow> map_sum id ((@) h) (interpolate m d r))))))"
  by pat_completeness auto
termination
  by (relation "measures [\<lambda>(m, d, s). d, \<lambda>(m, d, s). length s]") (auto dest: key_match_shorter)

definition max_interpolation_depth :: nat where
  "max_interpolation_depth = 10"

text \<open>A parser with one section: the raw options.\<close>

definition set_option :: "string \<Rightarrow> string \<Rightarrow> (string \<rightharpoonup> string) \<Rightarrow> exn + (string \<rightharpoonup> string)" where
  "set_option k v opts =
     (if option_settable v then Inr (opts(lower k \<mapsto> v)) else Inl (Python_Error ''ValueError''))"

definition get_option :: "string \<Rightarrow> (string \<rightharpoonup> string) \<Rightarrow> exn + string option" where
  "get_option k opts =
     (case opts (lower k) of
        None \<Rightarrow> Inr None
      | Some v \<Rightarrow> map_sum id Some (interpolate opts (max_interpolation_depth - 1) v))"

section \<open>Values without references\<close>

definition escape_percent :: "string \<Rightarrow> string" where
  "escape_percent v = concat (map (\<lambda>c. if c = percent then [percent, percent] else [c]) v)"

lemma remove_all_no_match: "p \<noteq> [] \<Longrightarrow> \<not> contains_str p v \<Longrightarrow> remove_all p v = v"
  by (induction v) (auto simp: remove_all.simps(2))

lemma key_match_paren: "key_match s = Some x \<Longrightarrow> take 1 s = ''(''"
  by (cases s) (auto simp: key_match_def Let_def split: if_splits)

lemma drop_keys_plain: "\<not> contains_str ''%('' v \<Longrightarrow> drop_keys v = v"
proof (induction v)
  case Nil
  then show ?case by simp
next
  case (Cons c s)
  show ?case
  proof (cases "c = percent")
    case True
    then have "take 1 s \<noteq> ''(''"
      using Cons.prems by auto
    then have "key_match s = None"
      using key_match_paren [of s] by (cases "key_match s") auto
    with True Cons show ?thesis by simp
  next
    case False
    with Cons show ?thesis by simp
  qed
qed

lemma contains_hd: "contains_str (c # p) v \<Longrightarrow> c \<in> set v"
  by (auto simp: contains_str_iff)

lemma plain_settable:
  assumes "percent \<notin> set v"
  shows "option_settable v"
proof -
  have "\<not> contains_str ''%%'' v" "\<not> contains_str ''%('' v"
    using assms by (auto dest: contains_hd)
  with assms show ?thesis
    by (simp add: option_settable_def remove_all_no_match drop_keys_plain)
qed

lemma plain_interpolate: "percent \<notin> set v \<Longrightarrow> interpolate m d v = Inr v"
  by (induction v) auto

lemma raw_percent_refused:
  assumes "percent \<in> set v" and "\<not> contains_str ''%%'' v" and "\<not> contains_str ''%('' v"
  shows "\<not> option_settable v"
  using assms by (simp add: option_settable_def remove_all_no_match drop_keys_plain)

lemma remove_escaped: "remove_all ''%%'' (escape_percent v) = filter (\<lambda>c. c \<noteq> percent) v"
  by (induction v) (auto simp: escape_percent_def remove_all.simps(2))

lemma escaped_settable: "option_settable (escape_percent v)"
proof -
  have "\<not> contains_str ''%('' (filter (\<lambda>c. c \<noteq> percent) v)"
    using contains_hd [of percent "''(''" "filter (\<lambda>c. c \<noteq> percent) v"] by auto
  then show ?thesis
    by (simp add: option_settable_def remove_escaped drop_keys_plain)
qed

lemma interpolate_escaped: "interpolate m d (escape_percent v) = Inr v"
  by (induction v) (auto simp: escape_percent_def)

text \<open>What is set is what is read, unless the value has a percent sign; with its percent signs doubled any
  value is.\<close>

lemma set_then_get:
  "percent \<notin> set v \<Longrightarrow> \<exists>o'. set_option k v opts = Inr o' \<and> get_option k o' = Inr (Some v)"
  by (simp add: set_option_def get_option_def plain_settable plain_interpolate)

lemma set_escaped_then_get:
  "\<exists>o'. set_option k (escape_percent v) opts = Inr o' \<and> get_option k o' = Inr (Some v)"
  by (simp add: set_option_def get_option_def escaped_settable interpolate_escaped)

end
