(* ===== verification/Schema.thy ===== *)
theory Schema
  imports Python_Text
begin

text \<open>
  The database schema, from its two sources: the declarative models with the naming convention of
  their metadata (\<^verbatim>\<open>app/infrastructure/database/models\<close>) and the Alembic migrations
  (\<^verbatim>\<open>migrations/versions\<close>). A schema is a list of tables; the operations of a migration act on it
  and fail where the database would.
\<close>

datatype column_type = Uuid_Type | String_Type nat | Boolean_Type | Datetime_Tz

record column =
  col_name :: string
  col_type :: column_type
  col_nullable :: bool
  col_server_default :: "string option"

datatype table_constraint =
    Primary_Key string "string list"
  | Foreign_Key string "string list" string "string list" "string option"

record table_index =
  idx_name :: string
  idx_columns :: "string list"
  idx_unique :: bool

record table =
  tbl_name :: string
  tbl_columns :: "column list"
  tbl_constraints :: "table_constraint set"
  tbl_indexes :: "table_index list"

type_synonym schema = "table list"

section \<open>The models\<close>

record mapped_column =
  mc_name :: string
  mc_type :: column_type
  mc_primary_key :: bool
  mc_foreign_key :: "(string \<times> string \<times> string option) option"
  mc_unique :: bool
  mc_index :: bool
  mc_nullable :: bool
  mc_server_default :: "string option"

text \<open>The defaults of \<^verbatim>\<open>mapped_column\<close> for what a model leaves out.\<close>

definition mapped :: "string \<Rightarrow> column_type \<Rightarrow> mapped_column" where
  "mapped n t =
     \<lparr>mc_name = n, mc_type = t, mc_primary_key = False, mc_foreign_key = None, mc_unique = False,
      mc_index = False, mc_nullable = False, mc_server_default = None\<rparr>"

record model =
  mdl_tablename :: string
  mdl_columns :: "mapped_column list"

definition user_model :: model where
  "user_model =
     \<lparr>mdl_tablename = ''users'',
      mdl_columns =
        [(mapped ''id'' Uuid_Type)\<lparr>mc_primary_key := True\<rparr>,
         (mapped ''email'' (String_Type 320))\<lparr>mc_unique := True, mc_index := True\<rparr>,
         mapped ''hashed_password'' (String_Type 255),
         mapped ''is_active'' Boolean_Type,
         mapped ''created_at'' Datetime_Tz,
         (mapped ''updated_at'' Datetime_Tz)\<lparr>mc_server_default := Some ''now()''\<rparr>]\<rparr>"

definition refresh_token_model :: model where
  "refresh_token_model =
     \<lparr>mdl_tablename = ''refresh_tokens'',
      mdl_columns =
        [(mapped ''jti'' Uuid_Type)\<lparr>mc_primary_key := True\<rparr>,
         (mapped ''user_id'' Uuid_Type)
           \<lparr>mc_foreign_key := Some (''users'', ''id'', Some ''CASCADE''), mc_index := True\<rparr>,
         (mapped ''family_id'' Uuid_Type)\<lparr>mc_index := True\<rparr>,
         mapped ''expires_at'' Datetime_Tz,
         (mapped ''revoked_at'' Datetime_Tz)\<lparr>mc_nullable := True\<rparr>,
         (mapped ''created_at'' Datetime_Tz)\<lparr>mc_server_default := Some ''now()''\<rparr>]\<rparr>"

text \<open>The naming convention: \<^verbatim>\<open>ix_%(column_0_label)s\<close> (the label is table and column),
  \<^verbatim>\<open>fk_%(table_name)s_%(column_0_name)s_%(referred_table_name)s\<close> and \<^verbatim>\<open>pk_%(table_name)s\<close>.\<close>

definition ix_name :: "string \<Rightarrow> string \<Rightarrow> string" where
  "ix_name table_name column_0 = ''ix_'' @ table_name @ ''_'' @ column_0"

definition fk_name :: "string \<Rightarrow> string \<Rightarrow> string \<Rightarrow> string" where
  "fk_name table_name column_0 referred = ''fk_'' @ table_name @ ''_'' @ column_0 @ ''_'' @ referred"

definition pk_name :: "string \<Rightarrow> string" where
  "pk_name table_name = ''pk_'' @ table_name"

text \<open>The table SQLAlchemy derives from a model. A column that is unique and indexed has one unique
  index and no separate constraint.\<close>

definition model_table :: "model \<Rightarrow> table" where
  "model_table m =
     (let t = mdl_tablename m; cs = mdl_columns m in
      \<lparr>tbl_name = t,
       tbl_columns = map (\<lambda>c. \<lparr>col_name = mc_name c, col_type = mc_type c,
         col_nullable = mc_nullable c, col_server_default = mc_server_default c\<rparr>) cs,
       tbl_constraints =
         set (Primary_Key (pk_name t) (map mc_name (filter mc_primary_key cs)) #
           concat (map (\<lambda>c. case mc_foreign_key c of
               None \<Rightarrow> []
             | Some (rt, rc, od) \<Rightarrow> [Foreign_Key (fk_name t (mc_name c) rt) [mc_name c] rt [rc] od]) cs)),
       tbl_indexes = map (\<lambda>c. \<lparr>idx_name = ix_name t (mc_name c), idx_columns = [mc_name c],
         idx_unique = mc_unique c\<rparr>) (filter mc_index cs)\<rparr>)"

definition metadata :: schema where
  "metadata = [model_table user_model, model_table refresh_token_model]"

section \<open>The migrations\<close>

datatype migration_op =
    Create_Table string "column list" "table_constraint list"
  | Create_Index string string "string list" bool
  | Drop_Index string string
  | Drop_Table string

definition find_table :: "string \<Rightarrow> schema \<Rightarrow> table option" where
  "find_table n s = find (\<lambda>t. tbl_name t = n) s"

definition change_table :: "string \<Rightarrow> (table \<Rightarrow> table) \<Rightarrow> schema \<Rightarrow> schema" where
  "change_table n f s = map (\<lambda>t. if tbl_name t = n then f t else t) s"

text \<open>A table that another one refers to cannot be dropped.\<close>

definition referred_to :: "string \<Rightarrow> schema \<Rightarrow> bool" where
  "referred_to n s \<longleftrightarrow> list_ex (\<lambda>t. tbl_name t \<noteq> n \<and>
     (\<exists>c \<in> tbl_constraints t. case c of Foreign_Key _ _ r _ _ \<Rightarrow> r = n | _ \<Rightarrow> False)) s"

fun refers_to_known :: "schema \<Rightarrow> table_constraint \<Rightarrow> bool" where
  "refers_to_known s (Foreign_Key _ _ r rcs _) =
     (case find_table r s of
        None \<Rightarrow> False | Some t \<Rightarrow> list_all (\<lambda>c. c \<in> col_name ` set (tbl_columns t)) rcs)"
| "refers_to_known s (Primary_Key _ _) = True"

fun apply_op :: "migration_op \<Rightarrow> schema \<Rightarrow> schema option" where
  "apply_op (Create_Table n cols cons) s =
     (if find_table n s \<noteq> None \<or> \<not> list_all (refers_to_known s) cons then None
      else Some (s @ [\<lparr>tbl_name = n, tbl_columns = cols, tbl_constraints = set cons, tbl_indexes = []\<rparr>]))"
| "apply_op (Create_Index i n cols uniq) s =
     (case find_table n s of
        None \<Rightarrow> None
      | Some t \<Rightarrow>
          if list_ex (\<lambda>t. list_ex (\<lambda>x. idx_name x = i) (tbl_indexes t)) s \<or>
             \<not> list_all (\<lambda>c. c \<in> col_name ` set (tbl_columns t)) cols then None
          else Some (change_table n (\<lambda>t. t\<lparr>tbl_indexes := tbl_indexes t @
            [\<lparr>idx_name = i, idx_columns = cols, idx_unique = uniq\<rparr>]\<rparr>) s))"
| "apply_op (Drop_Index i n) s =
     (case find_table n s of
        None \<Rightarrow> None
      | Some t \<Rightarrow>
          if \<not> list_ex (\<lambda>x. idx_name x = i) (tbl_indexes t) then None
          else Some (change_table n
            (\<lambda>t. t\<lparr>tbl_indexes := filter (\<lambda>x. idx_name x \<noteq> i) (tbl_indexes t)\<rparr>) s))"
| "apply_op (Drop_Table n) s =
     (if find_table n s = None \<or> referred_to n s then None
      else Some (filter (\<lambda>t. tbl_name t \<noteq> n) s))"

fun apply_ops :: "migration_op list \<Rightarrow> schema \<Rightarrow> schema option" where
  "apply_ops [] s = Some s"
| "apply_ops (p # ps) s = (case apply_op p s of None \<Rightarrow> None | Some s' \<Rightarrow> apply_ops ps s')"

record migration =
  mig_revision :: string
  mig_down_revision :: "string option"
  mig_upgrade :: "migration_op list"
  mig_downgrade :: "migration_op list"

definition column_of :: "string \<Rightarrow> column_type \<Rightarrow> column" where
  "column_of n t = \<lparr>col_name = n, col_type = t, col_nullable = False, col_server_default = None\<rparr>"

definition migration_0001 :: migration where
  "migration_0001 =
     \<lparr>mig_revision = ''0001_initial'', mig_down_revision = None,
      mig_upgrade =
        [Create_Table ''users''
           [column_of ''id'' Uuid_Type, column_of ''email'' (String_Type 320),
            column_of ''hashed_password'' (String_Type 255), column_of ''is_active'' Boolean_Type,
            column_of ''created_at'' Datetime_Tz,
            (column_of ''updated_at'' Datetime_Tz)\<lparr>col_server_default := Some ''now()''\<rparr>]
           [Primary_Key ''pk_users'' [''id'']],
         Create_Index ''ix_users_email'' ''users'' [''email''] True],
      mig_downgrade = [Drop_Index ''ix_users_email'' ''users'', Drop_Table ''users'']\<rparr>"

definition migration_0002 :: migration where
  "migration_0002 =
     \<lparr>mig_revision = ''0002_refresh_tokens'', mig_down_revision = Some ''0001_initial'',
      mig_upgrade =
        [Create_Table ''refresh_tokens''
           [column_of ''jti'' Uuid_Type, column_of ''user_id'' Uuid_Type,
            column_of ''family_id'' Uuid_Type, column_of ''expires_at'' Datetime_Tz,
            (column_of ''revoked_at'' Datetime_Tz)\<lparr>col_nullable := True\<rparr>,
            (column_of ''created_at'' Datetime_Tz)\<lparr>col_server_default := Some ''now()''\<rparr>]
           [Foreign_Key ''fk_refresh_tokens_user_id_users'' [''user_id''] ''users'' [''id'']
              (Some ''CASCADE''),
            Primary_Key ''pk_refresh_tokens'' [''jti'']],
         Create_Index ''ix_refresh_tokens_user_id'' ''refresh_tokens'' [''user_id''] False,
         Create_Index ''ix_refresh_tokens_family_id'' ''refresh_tokens'' [''family_id''] False],
      mig_downgrade =
        [Drop_Index ''ix_refresh_tokens_family_id'' ''refresh_tokens'',
         Drop_Index ''ix_refresh_tokens_user_id'' ''refresh_tokens'',
         Drop_Table ''refresh_tokens'']\<rparr>"

definition migrations :: "migration list" where
  "migrations = [migration_0001, migration_0002]"

fun upgrade_all :: "migration list \<Rightarrow> schema \<Rightarrow> schema option" where
  "upgrade_all [] s = Some s"
| "upgrade_all (m # ms) s =
     (case apply_ops (mig_upgrade m) s of None \<Rightarrow> None | Some s' \<Rightarrow> upgrade_all ms s')"

text \<open>\<^verbatim>\<open>alembic downgrade base\<close>: the newest migration first.\<close>

fun downgrade_all :: "migration list \<Rightarrow> schema \<Rightarrow> schema option" where
  "downgrade_all [] s = Some s"
| "downgrade_all (m # ms) s =
     (case downgrade_all ms s of None \<Rightarrow> None | Some s' \<Rightarrow> apply_ops (mig_downgrade m) s')"

fun linear_chain :: "string option \<Rightarrow> migration list \<Rightarrow> bool" where
  "linear_chain r [] = True"
| "linear_chain r (m # ms) = (mig_down_revision m = r \<and> linear_chain (Some (mig_revision m)) ms)"

lemmas schema_defs = metadata_def model_table_def user_model_def refresh_token_model_def mapped_def
  ix_name_def fk_name_def pk_name_def migrations_def migration_0001_def migration_0002_def
  column_of_def find_table_def change_table_def referred_to_def

lemma upgrade_metadata: "upgrade_all migrations [] = Some metadata"
  by code_simp

lemma downgrade_metadata: "downgrade_all migrations metadata = Some []"
  by code_simp

end
