(* ===== verification/Migration_Runner.thy ===== *)
theory Migration_Runner
  imports Config_Parser Config Schema
begin

text \<open>
  The Alembic environment (\<^verbatim>\<open>migrations/env.py\<close>): the database URL goes from the settings through
  Alembic's options to the engine, and the migrations run inside a transaction of a connection that is
  closed afterwards. Alembic and SQLAlchemy are the parameter \<open>call\<close>, what they do on each call; the
  context managers of the source are the calls at their entry and exit.
\<close>

section \<open>The environment\<close>

record configure_options =
  co_url :: "string option"
  co_connection :: bool
  co_target_metadata :: schema
  co_literal_binds :: bool
  co_paramstyle :: "string option"
  co_compare_type :: bool

datatype alembic_call =
    File_Config string
  | Engine_From_Config "string option"
  | Connect
  | Close_Connection
  | Dispose
  | Configure configure_options
  | Begin_Transaction
  | Commit_Transaction
  | Rollback_Transaction
  | Run_Migrations

text \<open>\<open>mw_options\<close> is the main section of the configuration file, \<open>mw_cached\<close> the memo of
  \<open>get_settings\<close>.\<close>

record 'a migration_world =
  mw_options :: "string \<rightharpoonup> string"
  mw_cached :: "settings option"
  mw_database :: 'a

type_synonym 'a alembic = "alembic_call \<Rightarrow> (exn, 'a, unit) io"

definition alembic :: "'a alembic \<Rightarrow> alembic_call \<Rightarrow> (exn, 'a migration_world, unit) io" where
  "alembic call k w = (case call k (mw_database w) of (r, a) \<Rightarrow> (r, w\<lparr>mw_database := a\<rparr>))"

definition url_option :: string where
  "url_option = ''sqlalchemy.url''"

definition set_main_option :: "string \<Rightarrow> string \<Rightarrow> (exn, 'a migration_world, unit) io" where
  "set_main_option k v w =
     (case set_option k v (mw_options w) of
        Inl x \<Rightarrow> (Inl x, w)
      | Inr opts \<Rightarrow> (Inr (), w\<lparr>mw_options := opts\<rparr>))"

definition get_main_option :: "string \<Rightarrow> (exn, 'a migration_world, string option) io" where
  "get_main_option k w = (get_option k (mw_options w), w)"

text \<open>The rejection of the settings surfaces as pydantic's error.\<close>

definition read_settings :: "string + settings \<Rightarrow> (exn, 'a migration_world, settings) io" where
  "read_settings read w =
     (case get_settings read (mw_cached w) of
        (Inl e, c) \<Rightarrow> (Inl (Python_Error ''ValidationError''), w\<lparr>mw_cached := c\<rparr>)
      | (Inr s, c) \<Rightarrow> (Inr s, w\<lparr>mw_cached := c\<rparr>))"

abbreviation database_url :: "settings \<Rightarrow> string" where
  "database_url s \<equiv> dbs_url (set_database s)"

text \<open>\<^verbatim>\<open>with context.begin_transaction(): context.run_migrations()\<close>\<close>

definition in_transaction :: "'a alembic \<Rightarrow> (exn, 'a migration_world, unit) io" where
  "in_transaction call =
     thenM (alembic call Begin_Transaction)
     (thenM (tryM (alembic call Run_Migrations)
               (\<lambda>x. thenM (alembic call Rollback_Transaction) (raiseM x)))
       (alembic call Commit_Transaction))"

definition run_migrations_offline :: "'a alembic \<Rightarrow> (exn, 'a migration_world, unit) io" where
  "run_migrations_offline call =
     bindM (get_main_option url_option) (\<lambda>url.
     thenM (alembic call (Configure
              \<lparr>co_url = url, co_connection = False, co_target_metadata = metadata,
               co_literal_binds = True, co_paramstyle = Some ''named'', co_compare_type = True\<rparr>))
       (in_transaction call))"

definition do_run_migrations :: "'a alembic \<Rightarrow> (exn, 'a migration_world, unit) io" where
  "do_run_migrations call =
     thenM (alembic call (Configure
              \<lparr>co_url = None, co_connection = True, co_target_metadata = metadata,
               co_literal_binds = False, co_paramstyle = None, co_compare_type = True\<rparr>))
       (in_transaction call)"

text \<open>The engine is made from the options with the prefix \<^verbatim>\<open>sqlalchemy.\<close>; only the URL is among them.\<close>

definition run_migrations_online :: "'a alembic \<Rightarrow> (exn, 'a migration_world, unit) io" where
  "run_migrations_online call =
     bindM (get_main_option url_option) (\<lambda>url.
     thenM (alembic call (Engine_From_Config url))
     (thenM (alembic call Connect)
     (thenM (finallyM (do_run_migrations call) (alembic call Close_Connection))
       (alembic call Dispose))))"

text \<open>The module's own statements: the configuration, then the run in the mode Alembic was started in.\<close>

definition configure_env :: "'a alembic \<Rightarrow> string option \<Rightarrow> string + settings \<Rightarrow> (exn, 'a migration_world, unit) io" where
  "configure_env call config_file read =
     thenM (case config_file of None \<Rightarrow> retM () | Some f \<Rightarrow> alembic call (File_Config f))
     (bindM (read_settings read) (\<lambda>s. set_main_option url_option (database_url s)))"

definition run_env ::
  "'a alembic \<Rightarrow> string option \<Rightarrow> string + settings \<Rightarrow> bool \<Rightarrow> (exn, 'a migration_world, unit) io" where
  "run_env call config_file read offline =
     thenM (configure_env call config_file read)
       (if offline then run_migrations_offline call else run_migrations_online call)"

section \<open>The contract of Alembic\<close>

text \<open>
  What is committed is the schema and the number of migrations it has (the version table); inside a
  transaction the same pair is pending. A migration that fails raises, and what it did is undone by the
  rollback (the database has transactional data definition, as Postgres).
\<close>

definition migrate :: "nat \<times> schema \<Rightarrow> (nat \<times> schema) option" where
  "migrate v = map_option (\<lambda>s. (length migrations, s)) (upgrade_all (drop (fst v) migrations) (snd v))"

datatype connection_state = No_Engine | Idle_Engine "string option" | Connected "string option" | Disposed

locale alembic_environment =
  fixes call :: "'a alembic"
    and disk :: "'a \<Rightarrow> nat \<times> schema"
    and pending :: "'a \<Rightarrow> (nat \<times> schema) option"
    and conn :: "'a \<Rightarrow> connection_state"
  assumes file_config: "\<exists>a'. call (File_Config f) a = (Inr (), a') \<and> disk a' = disk a \<and>
      pending a' = pending a \<and> conn a' = conn a"
    and configure: "\<exists>a'. call (Configure opts) a = (Inr (), a') \<and> disk a' = disk a \<and>
      pending a' = pending a \<and> conn a' = conn a"
    and engine: "conn a = No_Engine \<Longrightarrow> \<exists>a'. call (Engine_From_Config url) a = (Inr (), a') \<and>
      disk a' = disk a \<and> pending a' = pending a \<and> conn a' = Idle_Engine url"
    and connect: "conn a = Idle_Engine url \<Longrightarrow> \<exists>a'. call Connect a = (Inr (), a') \<and>
      disk a' = disk a \<and> pending a' = pending a \<and> conn a' = Connected url"
    and close: "conn a = Connected url \<Longrightarrow> \<exists>a'. call Close_Connection a = (Inr (), a') \<and>
      disk a' = disk a \<and> pending a' = None \<and> conn a' = Idle_Engine url"
    and dispose: "conn a = Idle_Engine url \<Longrightarrow> \<exists>a'. call Dispose a = (Inr (), a') \<and>
      disk a' = disk a \<and> pending a' = pending a \<and> conn a' = Disposed"
    and begin_transaction: "conn a = Connected url \<Longrightarrow> pending a = None \<Longrightarrow>
      \<exists>a'. call Begin_Transaction a = (Inr (), a') \<and> disk a' = disk a \<and> pending a' = Some (disk a) \<and>
        conn a' = conn a"
    and commit_transaction: "pending a = Some v \<Longrightarrow>
      \<exists>a'. call Commit_Transaction a = (Inr (), a') \<and> disk a' = v \<and> pending a' = None \<and> conn a' = conn a"
    and rollback_transaction: "pending a = Some v \<Longrightarrow>
      \<exists>a'. call Rollback_Transaction a = (Inr (), a') \<and> disk a' = disk a \<and> pending a' = None \<and>
        conn a' = conn a"
    and migrations_pass: "pending a = Some v \<Longrightarrow> migrate v = Some v' \<Longrightarrow>
      \<exists>a'. call Run_Migrations a = (Inr (), a') \<and> disk a' = disk a \<and> pending a' = Some v' \<and>
        conn a' = conn a"
    and migrations_fail: "pending a = Some v \<Longrightarrow> migrate v = None \<Longrightarrow>
      \<exists>x a'. call Run_Migrations a = (Inl x, a') \<and> disk a' = disk a \<and> pending a' \<noteq> None \<and>
        conn a' = conn a"
begin

lemma in_transaction_run:
  assumes "conn (mw_database w) = Connected url" and "pending (mw_database w) = None"
  shows "\<exists>r a. in_transaction call w = (r, w\<lparr>mw_database := a\<rparr>) \<and> pending a = None \<and>
    conn a = Connected url \<and>
    (case migrate (disk (mw_database w)) of
       None \<Rightarrow> (\<exists>x. r = Inl x) \<and> disk a = disk (mw_database w)
     | Some v \<Rightarrow> r = Inr () \<and> disk a = v)"
proof -
  obtain a1 where a1: "call Begin_Transaction (mw_database w) = (Inr (), a1)"
      "disk a1 = disk (mw_database w)" "pending a1 = Some (disk (mw_database w))" "conn a1 = Connected url"
    using begin_transaction [OF assms] assms(1) by auto
  show ?thesis
  proof (cases "migrate (disk (mw_database w))")
    case None
    obtain x a2 v where a2: "call Run_Migrations a1 = (Inl x, a2)" "disk a2 = disk a1" "pending a2 = Some v"
        "conn a2 = conn a1"
      using migrations_fail [OF a1(3) None] by auto
    obtain a3 where "call Rollback_Transaction a2 = (Inr (), a3)" "disk a3 = disk a2" "pending a3 = None"
        "conn a3 = conn a2"
      using rollback_transaction [OF a2(3)] by blast
    with None a1 a2 show ?thesis
      by (intro exI [of _ "Inl x"] exI [of _ a3]) (simp add: in_transaction_def io_simps alembic_def)
  next
    case (Some v)
    obtain a2 where a2: "call Run_Migrations a1 = (Inr (), a2)" "disk a2 = disk a1" "pending a2 = Some v"
        "conn a2 = conn a1"
      using migrations_pass [OF a1(3) Some] by blast
    obtain a3 where "call Commit_Transaction a2 = (Inr (), a3)" "disk a3 = v" "pending a3 = None"
        "conn a3 = conn a2"
      using commit_transaction [OF a2(3)] by blast
    with Some a1 a2 show ?thesis
      by (intro exI [of _ "Inr ()"] exI [of _ a3]) (simp add: in_transaction_def io_simps alembic_def)
  qed
qed

lemma online_run:
  assumes "conn (mw_database w) = No_Engine" and "pending (mw_database w) = None"
    and "get_option url_option (mw_options w) = Inr url"
  shows "\<exists>r a. run_migrations_online call w = (r, w\<lparr>mw_database := a\<rparr>) \<and> pending a = None \<and>
    (case migrate (disk (mw_database w)) of
       None \<Rightarrow> (\<exists>x. r = Inl x) \<and> disk a = disk (mw_database w) \<and> conn a = Idle_Engine url
     | Some v \<Rightarrow> r = Inr () \<and> disk a = v \<and> conn a = Disposed)"
proof -
  obtain a1 where a1: "call (Engine_From_Config url) (mw_database w) = (Inr (), a1)"
      "disk a1 = disk (mw_database w)" "pending a1 = None" "conn a1 = Idle_Engine url"
    using engine [OF assms(1), of url] assms(2) by auto
  obtain a2 where a2: "call Connect a1 = (Inr (), a2)" "disk a2 = disk a1" "pending a2 = None"
      "conn a2 = Connected url"
    using connect [OF a1(4)] a1(3) by auto
  let ?opts = "\<lparr>co_url = None, co_connection = True, co_target_metadata = metadata,
               co_literal_binds = False, co_paramstyle = None, co_compare_type = True\<rparr>"
  obtain a3 where a3: "call (Configure ?opts) a2 = (Inr (), a3)" "disk a3 = disk a2" "pending a3 = None"
      "conn a3 = Connected url"
    using configure [of ?opts a2] a2 by auto
  have "\<exists>r a. in_transaction call (w\<lparr>mw_database := a3\<rparr>) = (r, w\<lparr>mw_database := a\<rparr>) \<and>
      pending a = None \<and> conn a = Connected url \<and>
      (case migrate (disk a3) of None \<Rightarrow> (\<exists>x. r = Inl x) \<and> disk a = disk a3
       | Some v \<Rightarrow> r = Inr () \<and> disk a = v)"
    using in_transaction_run [of "w\<lparr>mw_database := a3\<rparr>" url] a3(3,4) by (simp cong: option.case_cong)
  then obtain r a4 where a4: "in_transaction call (w\<lparr>mw_database := a3\<rparr>) = (r, w\<lparr>mw_database := a4\<rparr>)"
      "pending a4 = None" "conn a4 = Connected url"
      "case migrate (disk a3) of None \<Rightarrow> (\<exists>x. r = Inl x) \<and> disk a4 = disk a3
       | Some v \<Rightarrow> r = Inr () \<and> disk a4 = v"
    by blast
  obtain a5 where a5: "call Close_Connection a4 = (Inr (), a5)" "disk a5 = disk a4" "pending a5 = None"
      "conn a5 = Idle_Engine url"
    using close [OF a4(3)] by blast
  obtain a6 where a6: "call Dispose a5 = (Inr (), a6)" "disk a6 = disk a5" "pending a6 = None"
      "conn a6 = Disposed"
    using dispose [OF a5(4)] a5(3) by auto
  have run: "finallyM (do_run_migrations call) (alembic call Close_Connection) (w\<lparr>mw_database := a2\<rparr>) =
      (r, w\<lparr>mw_database := a5\<rparr>)"
    by (simp add: finallyM_def do_run_migrations_def io_simps alembic_def a3(1) a4(1) a5(1))
  have start: "run_migrations_online call w =
      thenM (finallyM (do_run_migrations call) (alembic call Close_Connection)) (alembic call Dispose)
        (w\<lparr>mw_database := a2\<rparr>)"
    by (simp add: run_migrations_online_def get_main_option_def assms(3) io_simps alembic_def a1(1) a2(1))
  show ?thesis
  proof (cases "migrate (disk (mw_database w))")
    case None
    then obtain x where "r = Inl x" "disk a4 = disk a3"
      using a4(4) a1(2) a2(2) a3(2) by auto
    with None show ?thesis
      using a1(2) a2(2) a3(2) a5
      by (intro exI [of _ r] exI [of _ a5]) (simp add: start thenM_def bindM_def run)
  next
    case (Some v)
    then have "r = Inr ()" "disk a4 = v"
      using a4(4) a1(2) a2(2) a3(2) by auto
    with Some show ?thesis
      using a5 a6
      by (intro exI [of _ r] exI [of _ a6]) (simp add: start thenM_def bindM_def run alembic_def)
  qed
qed

lemma started:
  fixes ini :: "string option"
  assumes "conn (mw_database w) = No_Engine" and "pending (mw_database w) = None"
  shows "\<exists>a. (case ini of None \<Rightarrow> retM () | Some f \<Rightarrow> alembic call (File_Config f)) w =
    (Inr (), w\<lparr>mw_database := a\<rparr>) \<and> disk a = disk (mw_database w) \<and> pending a = None \<and> conn a = No_Engine"
proof (cases ini)
  case None
  with assms show ?thesis by (intro exI [of _ "mw_database w"]) simp
next
  case (Some f)
  obtain a where "call (File_Config f) (mw_database w) = (Inr (), a)" "disk a = disk (mw_database w)"
      "pending a = pending (mw_database w)" "conn a = conn (mw_database w)"
    using file_config by blast
  with Some assms show ?thesis
    by (intro exI [of _ a]) (simp add: alembic_def)
qed

lemma env_run:
  assumes "conn (mw_database w) = No_Engine" and "pending (mw_database w) = None" and "mw_cached w = None"
    and "settings_init read = Inr s"
    and "set_option url_option (dbs_url (set_database s)) (mw_options w) = Inr opts"
    and "get_option url_option opts = Inr url"
  shows "\<exists>r w'. run_env call ini read False w = (r, w') \<and> pending (mw_database w') = None \<and>
    (case migrate (disk (mw_database w)) of
       None \<Rightarrow> (\<exists>x. r = Inl x) \<and> disk (mw_database w') = disk (mw_database w) \<and>
         conn (mw_database w') = Idle_Engine url
     | Some v \<Rightarrow> r = Inr () \<and> disk (mw_database w') = v \<and> conn (mw_database w') = Disposed)"
proof -
  obtain a where a: "(case ini of None \<Rightarrow> retM () | Some f \<Rightarrow> alembic call (File_Config f)) w =
      (Inr (), w\<lparr>mw_database := a\<rparr>)" "disk a = disk (mw_database w)" "pending a = None" "conn a = No_Engine"
    using started [OF assms(1,2)] by blast
  let ?w = "w\<lparr>mw_database := a, mw_cached := Some s, mw_options := opts\<rparr>"
  have run: "run_env call ini read False w = run_migrations_online call ?w"
    using a(1) assms(3-5)
    by (simp add: run_env_def configure_env_def io_simps read_settings_def get_settings_def set_main_option_def)
  have "\<exists>r b. run_migrations_online call ?w = (r, ?w\<lparr>mw_database := b\<rparr>) \<and> pending b = None \<and>
    (case migrate (disk (mw_database w)) of
       None \<Rightarrow> (\<exists>x. r = Inl x) \<and> disk b = disk (mw_database w) \<and> conn b = Idle_Engine url
     | Some v \<Rightarrow> r = Inr () \<and> disk b = v \<and> conn b = Disposed)"
    using online_run [of ?w url] a assms(6) by (simp cong: option.case_cong)
  then obtain r b where "run_migrations_online call ?w = (r, ?w\<lparr>mw_database := b\<rparr>)" "pending b = None"
    "case migrate (disk (mw_database w)) of
       None \<Rightarrow> (\<exists>x. r = Inl x) \<and> disk b = disk (mw_database w) \<and> conn b = Idle_Engine url
     | Some v \<Rightarrow> r = Inr () \<and> disk b = v \<and> conn b = Disposed"
    by blast
  then show ?thesis
    unfolding run by (intro exI [of _ r] exI [of _ "?w\<lparr>mw_database := b\<rparr>"]) (simp cong: option.case_cong)
qed

lemma env_stops:
  assumes "conn (mw_database w) = No_Engine" and "pending (mw_database w) = None" and "mw_cached w = None"
    and "settings_init read = Inr s"
    and "set_option url_option (dbs_url (set_database s)) (mw_options w) = Inl x \<or>
      (\<exists>opts. set_option url_option (dbs_url (set_database s)) (mw_options w) = Inr opts \<and>
        get_option url_option opts = Inl x)"
  shows "raises (run_env call ini read offline w) x (\<lambda>w'. disk (mw_database w') = disk (mw_database w) \<and>
    pending (mw_database w') = None \<and> conn (mw_database w') = No_Engine)"
proof -
  obtain a where "(case ini of None \<Rightarrow> retM () | Some f \<Rightarrow> alembic call (File_Config f)) w =
      (Inr (), w\<lparr>mw_database := a\<rparr>)" "disk a = disk (mw_database w)" "pending a = None" "conn a = No_Engine"
    using started [OF assms(1,2)] by blast
  then show ?thesis
    using assms(3-5)
    by (auto simp: raises_def run_env_def configure_env_def io_simps read_settings_def get_settings_def set_main_option_def
        run_migrations_online_def run_migrations_offline_def get_main_option_def)
qed

end

section \<open>An instance\<close>

text \<open>A database in memory; it models no line of the program.\<close>

record memory_database =
  md_disk :: "nat \<times> schema"
  md_pending :: "(nat \<times> schema) option"
  md_conn :: connection_state

fun memory_call :: "memory_database alembic" where
  "memory_call (File_Config f) a = (Inr (), a)"
| "memory_call (Configure opts) a = (Inr (), a)"
| "memory_call (Engine_From_Config url) a = (Inr (), a\<lparr>md_conn := Idle_Engine url\<rparr>)"
| "memory_call Connect a =
     (case md_conn a of
        Idle_Engine url \<Rightarrow> (Inr (), a\<lparr>md_conn := Connected url\<rparr>)
      | _ \<Rightarrow> (Inl (Python_Error ''InvalidRequestError''), a))"
| "memory_call Close_Connection a =
     (case md_conn a of
        Connected url \<Rightarrow> (Inr (), a\<lparr>md_conn := Idle_Engine url, md_pending := None\<rparr>)
      | _ \<Rightarrow> (Inl (Python_Error ''InvalidRequestError''), a))"
| "memory_call Dispose a = (Inr (), a\<lparr>md_conn := Disposed\<rparr>)"
| "memory_call Begin_Transaction a = (Inr (), a\<lparr>md_pending := Some (md_disk a)\<rparr>)"
| "memory_call Commit_Transaction a =
     (Inr (), a\<lparr>md_disk := (case md_pending a of None \<Rightarrow> md_disk a | Some v \<Rightarrow> v), md_pending := None\<rparr>)"
| "memory_call Rollback_Transaction a = (Inr (), a\<lparr>md_pending := None\<rparr>)"
| "memory_call Run_Migrations a =
     (case md_pending a of
        None \<Rightarrow> (Inl (Python_Error ''InvalidRequestError''), a)
      | Some v \<Rightarrow>
          (case migrate v of
             None \<Rightarrow> (Inl (Python_Error ''ProgrammingError''), a)
           | Some v' \<Rightarrow> (Inr (), a\<lparr>md_pending := Some v'\<rparr>)))"

interpretation memory: alembic_environment memory_call md_disk md_pending md_conn
  by unfold_locales auto

lemma migrate_empty: "migrate (0, []) = Some (2, metadata)"
  using upgrade_metadata by (simp add: migrate_def migrations_def)

lemma migrate_again: "migrate (2, s) = Some (2, s)"
  by (simp add: migrate_def migrations_def)

end
