(* ===== verification/Error_Handlers.thy ===== *)
theory Error_Handlers
  imports Ports
begin

text \<open>
  The mapping of every error to an RFC 9457 problem response (\<^verbatim>\<open>app/api/exception_handlers.py\<close>):
  the table of domain errors with its lookup along the class hierarchy, the four handlers, and the
  documentation of the responses. The reason phrases of \<^verbatim>\<open>http.HTTPStatus\<close> differ between the
  Python versions the project supports and are a parameter.
\<close>

section \<open>Problem documents and responses\<close>

record validation_issue =
  vi_loc :: string
  vi_msg :: string
  vi_type :: string

text \<open>\<^verbatim>\<open>ProblemDetail\<close>, with the \<^verbatim>\<open>errors\<close> of \<^verbatim>\<open>ValidationProblemDetail\<close> when it is one.\<close>

record problem =
  pb_type :: string
  pb_title :: string
  pb_status :: int
  pb_detail :: "string option"
  pb_instance :: "string option"
  pb_errors :: "validation_issue list option"

record response =
  rsp_status :: int
  rsp_media_type :: string
  rsp_problem :: problem
  rsp_headers :: "(string \<times> string) list"

text \<open>What the handlers read of the request; \<open>er_request_id\<close> is \<^verbatim>\<open>request.state.request_id\<close>.\<close>

record error_request =
  er_method :: string
  er_path :: string
  er_request_id :: "string option"

text \<open>\<^verbatim>\<open>dict.setdefault\<close> on an insertion-ordered dictionary of headers.\<close>

definition dict_setdefault ::
  "string \<Rightarrow> string \<Rightarrow> (string \<times> string) list \<Rightarrow> (string \<times> string) list" where
  "dict_setdefault k v d = (if map_of d k = None then d @ [(k, v)] else d)"

section \<open>The table\<close>

type_synonym error_spec = "int \<times> string \<times> string"

fun error_map :: "domain_class \<Rightarrow> error_spec option" where
  "error_map UserNotFoundError = Some (404, ''user-not-found'', ''User not found'')"
| "error_map EmailAlreadyExistsError = Some (409, ''email-already-exists'', ''Email already exists'')"
| "error_map InvalidCredentialsError = Some (401, ''invalid-credentials'', ''Invalid credentials'')"
| "error_map InvalidTokenError = Some (401, ''invalid-token'', ''Invalid token'')"
| "error_map TokenExpiredError = Some (401, ''token-expired'', ''Token expired'')"
| "error_map ValidationError = Some (422, ''validation-error'', ''Validation error'')"
| "error_map DomainError = None"

definition default_spec :: error_spec where
  "default_spec = (400, ''domain-error'', ''Domain error'')"

text \<open>The walk along the method resolution order; classes outside the hierarchy are skipped.\<close>

fun first_spec :: "(domain_class \<Rightarrow> error_spec option) \<Rightarrow> domain_class list \<Rightarrow> error_spec option" where
  "first_spec m [] = None"
| "first_spec m (c # cs) = (case m c of None \<Rightarrow> first_spec m cs | Some spec \<Rightarrow> Some spec)"

definition spec_for :: "domain_class \<Rightarrow> error_spec" where
  "spec_for c = (case first_spec error_map (domain_mro c) of None \<Rightarrow> default_spec | Some s \<Rightarrow> s)"

section \<open>The handlers\<close>

definition request_id_header :: string where
  "request_id_header = ''X-Request-ID''"

definition problem_response ::
  "error_request \<Rightarrow> problem \<Rightarrow> (string \<times> string) list option \<Rightarrow> response" where
  "problem_response request problem headers =
     (let h = (case headers of None \<Rightarrow> [] | Some hs \<Rightarrow> hs);
          h = (if pb_status problem = 401 then dict_setdefault ''WWW-Authenticate'' ''Bearer'' h else h);
          h = (case er_request_id request of
                 None \<Rightarrow> h | Some rid \<Rightarrow> dict_setdefault request_id_header rid h)
      in \<lparr>rsp_status = pb_status problem, rsp_media_type = ''application/problem+json'',
          rsp_problem = problem, rsp_headers = h\<rparr>)"

fun class_name :: "domain_class \<Rightarrow> string" where
  "class_name DomainError = ''DomainError''"
| "class_name ValidationError = ''ValidationError''"
| "class_name UserNotFoundError = ''UserNotFoundError''"
| "class_name EmailAlreadyExistsError = ''EmailAlreadyExistsError''"
| "class_name InvalidCredentialsError = ''InvalidCredentialsError''"
| "class_name InvalidTokenError = ''InvalidTokenError''"
| "class_name TokenExpiredError = ''TokenExpiredError''"

fun exn_name :: "exn \<Rightarrow> string" where
  "exn_name (Domain c m) = class_name c"
| "exn_name (Http_Exception s d h) = ''HTTPException''"
| "exn_name (Request_Validation es) = ''RequestValidationError''"
| "exn_name (Integrity_Error m) = ''IntegrityError''"
| "exn_name (Python_Error n) = n"

definition domain_problem :: "error_request \<Rightarrow> domain_class \<Rightarrow> string \<Rightarrow> problem" where
  "domain_problem request c message =
     (let (status, slug, title) = spec_for c in
      \<lparr>pb_type = ''about:blank#'' @ slug, pb_title = title, pb_status = status,
       pb_detail = Some message, pb_instance = Some (er_path request), pb_errors = None\<rparr>)"

definition domain_error_handler :: "error_request \<Rightarrow> exn \<Rightarrow> (exn, env, response) io" where
  "domain_error_handler request x =
     (case x of
        Domain c message \<Rightarrow>
          thenM (log_at ''warning'' ''request.domain_error''
                   [(''error'', class_name c), (''status'', str_int (fst (spec_for c))),
                    (''path'', er_path request)])
            (retM (problem_response request (domain_problem request c message) None))
      | _ \<Rightarrow> raiseM x)"

fun loc_part_str :: "loc_part \<Rightarrow> string" where
  "loc_part_str (Loc_Name s) = s"
| "loc_part_str (Loc_Index i) = str_int i"

definition validation_issue_of :: "issue \<Rightarrow> validation_issue" where
  "validation_issue_of i =
     \<lparr>vi_loc = join ''.'' (map loc_part_str (issue_loc i)), vi_msg = issue_msg i,
      vi_type = issue_type i\<rparr>"

definition validation_error_handler :: "error_request \<Rightarrow> exn \<Rightarrow> (exn, env, response) io" where
  "validation_error_handler request x =
     (case x of
        Request_Validation issues \<Rightarrow>
          retM (problem_response request
            \<lparr>pb_type = ''about:blank#request-validation-error'', pb_title = ''Request validation error'',
             pb_status = 422, pb_detail = Some ''The request body or parameters failed validation.'',
             pb_instance = Some (er_path request),
             pb_errors = Some (map validation_issue_of issues)\<rparr> None)
      | _ \<Rightarrow> raiseM x)"

definition http_exception_handler ::
  "(int \<Rightarrow> string option) \<Rightarrow> error_request \<Rightarrow> exn \<Rightarrow> (exn, env, response) io" where
  "http_exception_handler phrase request x =
     (case x of
        Http_Exception status detail headers \<Rightarrow>
          (let title = (case phrase status of None \<Rightarrow> ''HTTP error'' | Some p \<Rightarrow> p) in
           retM (problem_response request
             \<lparr>pb_type = ''about:blank#http-error'', pb_title = title, pb_status = status,
              pb_detail = Some detail, pb_instance = Some (er_path request), pb_errors = None\<rparr> headers))
      | _ \<Rightarrow> raiseM x)"

definition unhandled_exception_handler :: "error_request \<Rightarrow> exn \<Rightarrow> (exn, env, response) io" where
  "unhandled_exception_handler request x =
     thenM (log_at ''error'' ''request.unhandled_error''
              [(''error'', exn_name x), (''method'', er_method request), (''path'', er_path request)])
       (retM (problem_response request
          \<lparr>pb_type = ''about:blank'', pb_title = ''Internal Server Error'', pb_status = 500,
           pb_detail = Some ''An unexpected error occurred.'', pb_instance = Some (er_path request),
           pb_errors = None\<rparr> None))"

text \<open>\<^verbatim>\<open>register_exception_handlers\<close>: Starlette picks the handler of the first registered class in the
  method resolution order of the exception.\<close>

datatype handled_class = Handles_Domain | Handles_Validation | Handles_Http | Handles_All

fun handled_by :: "exn \<Rightarrow> handled_class" where
  "handled_by (Domain c m) = Handles_Domain"
| "handled_by (Request_Validation es) = Handles_Validation"
| "handled_by (Http_Exception s d h) = Handles_Http"
| "handled_by _ = Handles_All"

definition registered_handler ::
  "(int \<Rightarrow> string option) \<Rightarrow> handled_class \<Rightarrow> error_request \<Rightarrow> exn \<Rightarrow> (exn, env, response) io" where
  "registered_handler phrase c =
     (case c of
        Handles_Domain \<Rightarrow> domain_error_handler
      | Handles_Validation \<Rightarrow> validation_error_handler
      | Handles_Http \<Rightarrow> http_exception_handler phrase
      | Handles_All \<Rightarrow> unhandled_exception_handler)"

definition error_response ::
  "(int \<Rightarrow> string option) \<Rightarrow> error_request \<Rightarrow> exn \<Rightarrow> (exn, env, response) io" where
  "error_response phrase request x = registered_handler phrase (handled_by x) request x"

section \<open>The documented responses\<close>

datatype problem_model = Problem_Detail | Validation_Problem_Detail

definition response_specs :: "(int \<times> string \<times> problem_model) list" where
  "response_specs =
     [(401, ''Missing or invalid credentials'', Problem_Detail),
      (404, ''Resource not found'', Problem_Detail),
      (409, ''Conflicting resource state'', Problem_Detail),
      (422, ''Request validation error'', Validation_Problem_Detail),
      (429, ''Rate limit exceeded'', Problem_Detail),
      (500, ''Unexpected server error'', Problem_Detail)]"

text \<open>A status without a specification is a \<^verbatim>\<open>KeyError\<close>.\<close>

fun problem_responses :: "int list \<Rightarrow> exn + (int \<times> string \<times> problem_model) list" where
  "problem_responses [] = Inr []"
| "problem_responses (c # cs) =
     (case map_of response_specs c of
        None \<Rightarrow> Inl (Python_Error ''KeyError'')
      | Some (description, model) \<Rightarrow>
          (case problem_responses cs of
             Inl x \<Rightarrow> Inl x
           | Inr rs \<Rightarrow> Inr ((c, description, model) # filter (\<lambda>r. fst r \<noteq> c) rs)))"

section \<open>Properties\<close>

lemma spec_for_eqs [simp]:
  "spec_for DomainError = (400, ''domain-error'', ''Domain error'')"
  "spec_for ValidationError = (422, ''validation-error'', ''Validation error'')"
  "spec_for UserNotFoundError = (404, ''user-not-found'', ''User not found'')"
  "spec_for EmailAlreadyExistsError = (409, ''email-already-exists'', ''Email already exists'')"
  "spec_for InvalidCredentialsError = (401, ''invalid-credentials'', ''Invalid credentials'')"
  "spec_for InvalidTokenError = (401, ''invalid-token'', ''Invalid token'')"
  "spec_for TokenExpiredError = (401, ''token-expired'', ''Token expired'')"
  by (simp_all add: spec_for_def default_spec_def)

lemma first_spec_find:
  "first_spec m cs = (case find (\<lambda>c. m c \<noteq> None) cs of None \<Rightarrow> None | Some c \<Rightarrow> m c)"
  by (induction cs) (auto split: option.split)

lemma setdefault_present: "map_of (dict_setdefault k v d) k \<noteq> None"
  by (simp add: dict_setdefault_def map_add_def)

lemma setdefault_keeps:
  "map_of d k = Some x \<Longrightarrow> map_of (dict_setdefault j v d) k = Some x"
  by (simp add: dict_setdefault_def map_add_def)

lemma setdefault_new: "map_of d k = None \<Longrightarrow> map_of (dict_setdefault k v d) k = Some v"
  by (simp add: dict_setdefault_def map_add_def)

lemma setdefault_other: "j \<noteq> k \<Longrightarrow> map_of (dict_setdefault j v d) k = map_of d k"
  by (auto simp: dict_setdefault_def map_add_def split: option.split)

lemma problem_response_simps [simp]:
  "rsp_status (problem_response r p h) = pb_status p"
  "rsp_media_type (problem_response r p h) = ''application/problem+json''"
  "rsp_problem (problem_response r p h) = p"
  by (simp_all add: problem_response_def Let_def)

lemma problem_response_auth:
  assumes "pb_status p = 401"
  shows "map_of (rsp_headers (problem_response r p h)) ''WWW-Authenticate'' \<noteq> None"
proof -
  have ne: "request_id_header \<noteq> ''WWW-Authenticate''"
    by (simp add: request_id_header_def)
  show ?thesis
    using assms setdefault_present
    by (auto simp: problem_response_def Let_def setdefault_other [OF ne] split: option.split)
qed

lemma problem_response_request_id:
  assumes "er_request_id r = Some rid"
  shows "map_of (rsp_headers (problem_response r p h)) request_id_header \<noteq> None"
  using assms setdefault_present by (auto simp: problem_response_def Let_def)

lemma problem_response_default_headers:
  "rsp_headers (problem_response r p None) =
   (if pb_status p = 401 then [(''WWW-Authenticate'', ''Bearer'')] else []) @
   (case er_request_id r of None \<Rightarrow> [] | Some rid \<Rightarrow> [(request_id_header, rid)])"
  by (simp add: problem_response_def Let_def dict_setdefault_def request_id_header_def split: option.split)

text \<open>Every exception is answered, with the status of its kind.\<close>

fun status_of :: "exn \<Rightarrow> int" where
  "status_of (Domain c m) = fst (spec_for c)"
| "status_of (Http_Exception s d h) = s"
| "status_of (Request_Validation es) = 422"
| "status_of (Integrity_Error m) = 500"
| "status_of (Python_Error n) = 500"

lemma error_response_total:
  "\<exists>r e'. error_response phrase request x e = (Inr r, e') \<and>
     (e' = e \<or> (\<exists>l. e' = e\<lparr>logs := logs e @ [l]\<rparr>)) \<and>
     rsp_status r = status_of x \<and> rsp_media_type r = ''application/problem+json'' \<and>
     pb_status (rsp_problem r) = status_of x \<and> pb_instance (rsp_problem r) = Some (er_path request)"
  by (cases x)
     (auto simp: error_response_def registered_handler_def domain_error_handler_def
       validation_error_handler_def http_exception_handler_def unhandled_exception_handler_def
       domain_problem_def io_simps Let_def split: prod.split)

lemma error_response_is_problem:
  assumes "error_response phrase request x e = (Inr r, e')"
  shows "\<exists>p h. r = problem_response request p h"
  using assms
  by (cases x)
     (auto simp: error_response_def registered_handler_def domain_error_handler_def
       validation_error_handler_def http_exception_handler_def unhandled_exception_handler_def
       io_simps Let_def)

lemma error_response_answers:
  "\<exists>r e'. error_response phrase request x e = (Inr r, e') \<and>
     (e' = e \<or> (\<exists>l. e' = e\<lparr>logs := logs e @ [l]\<rparr>)) \<and>
     rsp_status r = status_of x \<and> rsp_media_type r = ''application/problem+json'' \<and>
     pb_status (rsp_problem r) = status_of x \<and> pb_instance (rsp_problem r) = Some (er_path request) \<and>
     (if status_of x = 401 then map_of (rsp_headers r) ''WWW-Authenticate'' \<noteq> None else True) \<and>
     (case er_request_id request of
        None \<Rightarrow> True | Some _ \<Rightarrow> map_of (rsp_headers r) request_id_header \<noteq> None)"
proof -
  obtain r e' where r: "error_response phrase request x e = (Inr r, e')"
     "e' = e \<or> (\<exists>l. e' = e\<lparr>logs := logs e @ [l]\<rparr>)" "rsp_status r = status_of x"
     "rsp_media_type r = ''application/problem+json''" "pb_status (rsp_problem r) = status_of x"
     "pb_instance (rsp_problem r) = Some (er_path request)"
    using error_response_total by blast
  obtain p h where p: "r = problem_response request p h"
    using error_response_is_problem [OF r(1)] by blast
  have "status_of x = 401 \<Longrightarrow> map_of (rsp_headers r) ''WWW-Authenticate'' \<noteq> None"
    using problem_response_auth [of p request h] r(5) by (simp add: p)
  moreover have "er_request_id request = Some i \<Longrightarrow> map_of (rsp_headers r) request_id_header \<noteq> None" for i
    using problem_response_request_id [of request i p h] by (simp add: p)
  ultimately show ?thesis
    using r by (intro exI [of _ r] exI [of _ e'] conjI) (auto split: option.split)
qed

end
