(* ===== verification/Middleware.thy ===== *)
theory Middleware
  imports Error_Handlers Config Python_Re
begin

text \<open>
  The ASGI middleware (\<^verbatim>\<open>app/api/middleware.py\<close>): request ids and access log, security headers, and
  the cap on request bodies, each wrapped around an inner application, and the order they are
  installed in.

  An ASGI application takes the scope of a connection, a channel to receive messages from and a
  channel to send messages to. The variables that the closures of the middleware share
  (\<^verbatim>\<open>nonlocal\<close>), the mutable \<^verbatim>\<open>scope["state"]\<close> and the context variables of structlog live in the
  connection state.
\<close>

section \<open>ASGI\<close>

type_synonym headers = "(string \<times> string) list"

datatype message =
    Http_Request string
  | Http_Response_Start int headers
  | Http_Response_Body string
  | Other_Message string

record scope =
  sc_type :: string
  sc_method :: string
  sc_path :: string
  sc_headers :: headers

record conn =
  cn_env :: env
  cn_context :: "(string \<times> string) list"
  cn_request_id :: "string option"
  cn_status_code :: int
  cn_received :: int
  cn_inbox :: "message list"
  cn_sent :: "message list"

type_synonym asgi_receive = "(exn, conn, message) io"
type_synonym asgi_send = "message \<Rightarrow> (exn, conn, unit) io"
type_synonym asgi_app = "scope \<Rightarrow> asgi_receive \<Rightarrow> asgi_send \<Rightarrow> (exn, conn, unit) io"

text \<open>Header names are case-insensitive: \<open>Headers.get\<close> and \<open>MutableHeaders.setdefault\<close>.\<close>

definition header_get :: "string \<Rightarrow> headers \<Rightarrow> string option" where
  "header_get name hs = map_option snd (find (\<lambda>h. lower (fst h) = lower name) hs)"

definition header_setdefault :: "string \<Rightarrow> string \<Rightarrow> headers \<Rightarrow> headers" where
  "header_setdefault name v hs = (if header_get name hs = None then hs @ [(lower name, v)] else hs)"

text \<open>\<open>structlog\<close>: an event is completed with the bound context (\<^verbatim>\<open>merge_contextvars\<close>).\<close>

definition with_context :: "(string \<times> string) list \<Rightarrow> (string \<times> string) list \<Rightarrow> (string \<times> string) list" where
  "with_context ctx attrs = attrs @ filter (\<lambda>(k, v). map_of attrs k = None) ctx"

definition log_in_context :: "string \<Rightarrow> string \<Rightarrow> (string \<times> string) list \<Rightarrow> (exn, conn, unit) io" where
  "log_in_context level event attrs c =
     (case log_at level event (with_context (cn_context c) attrs) (cn_env c) of
        (r, e) \<Rightarrow> (r, c\<lparr>cn_env := e\<rparr>))"

section \<open>Request ids and the access log\<close>

definition request_id_char :: "char \<Rightarrow> bool" where
  "request_id_char c \<longleftrightarrow>
     (let n = code_point c in
      65 \<le> n \<and> n \<le> 90 \<or> 97 \<le> n \<and> n \<le> 122 \<or> 48 \<le> n \<and> n \<le> 57 \<or> c \<in> {CHR ''.'', CHR ''_'', CHR ''-''})"

definition request_id_re :: re_pattern where
  "request_id_re = [Rep request_id_char 1 (Some 64)]"

definition resolve_request_id :: "string option \<Rightarrow> (exn, env, string) io" where
  "resolve_request_id raw =
     (case raw of
        Some r \<Rightarrow>
          (if re_fullmatch request_id_re r then retM r
           else bindM uuid4 (\<lambda>u. retM (uuid_str u)))
      | None \<Rightarrow> bindM uuid4 (\<lambda>u. retM (uuid_str u)))"

definition on_conn_env :: "(exn, env, 'a) io \<Rightarrow> (exn, conn, 'a) io" where
  "on_conn_env m c = (case m (cn_env c) of (r, e) \<Rightarrow> (r, c\<lparr>cn_env := e\<rparr>))"

definition send_with_request_id :: "string \<Rightarrow> asgi_send \<Rightarrow> asgi_send" where
  "send_with_request_id request_id send message =
     (case message of
        Http_Response_Start status hs \<Rightarrow>
          thenM (modifyM (\<lambda>c. c\<lparr>cn_status_code := status\<rparr>))
            (send (Http_Response_Start status (header_setdefault request_id_header request_id hs)))
      | _ \<Rightarrow> send message)"

text \<open>\<open>duration\<close> is the text of the measured duration.\<close>

definition request_context_middleware :: "string \<Rightarrow> asgi_app \<Rightarrow> asgi_app" where
  "request_context_middleware duration app scope receive send =
     (if sc_type scope \<noteq> ''http'' then app scope receive send
      else
        bindM (on_conn_env (resolve_request_id (header_get request_id_header (sc_headers scope))))
          (\<lambda>request_id.
        thenM (modifyM (\<lambda>c. c\<lparr>cn_request_id := Some request_id,
                 cn_context := filter (\<lambda>(k, v). k \<noteq> ''request_id'') (cn_context c) @
                   [(''request_id'', request_id)],
                 cn_status_code := 500\<rparr>))
        (finallyM (app scope receive (send_with_request_id request_id send))
          (bindM (readM cn_status_code) (\<lambda>status_code.
           thenM (log_in_context ''info'' ''http.request''
                    [(''method'', sc_method scope), (''path'', sc_path scope),
                     (''status'', str_int status_code), (''duration_ms'', duration),
                     (''request_id'', request_id)])
             (modifyM (\<lambda>c. c\<lparr>cn_context := []\<rparr>)))))))"

section \<open>Security headers\<close>

definition security_headers :: "bool \<Rightarrow> headers \<Rightarrow> headers" where
  "security_headers hsts hs =
     (let hs = header_setdefault ''X-Content-Type-Options'' ''nosniff'' hs;
          hs = header_setdefault ''X-Frame-Options'' ''DENY'' hs;
          hs = header_setdefault ''Referrer-Policy'' ''no-referrer'' hs;
          hs = header_setdefault ''Permissions-Policy'' ''geolocation=(), camera=(), microphone=()'' hs
      in if hsts
         then header_setdefault ''Strict-Transport-Security'' ''max-age=63072000; includeSubDomains'' hs
         else hs)"

definition send_with_headers :: "bool \<Rightarrow> asgi_send \<Rightarrow> asgi_send" where
  "send_with_headers hsts send message =
     (case message of
        Http_Response_Start status hs \<Rightarrow> send (Http_Response_Start status (security_headers hsts hs))
      | _ \<Rightarrow> send message)"

definition security_headers_middleware :: "bool \<Rightarrow> asgi_app \<Rightarrow> asgi_app" where
  "security_headers_middleware hsts app scope receive send =
     (if sc_type scope \<noteq> ''http'' then app scope receive send
      else app scope receive (send_with_headers hsts send))"

section \<open>The cap on request bodies\<close>

definition limited_receive :: "int \<Rightarrow> asgi_receive \<Rightarrow> asgi_receive" where
  "limited_receive max_bytes receive =
     bindM receive (\<lambda>message.
     case message of
       Http_Request body \<Rightarrow>
         thenM (modifyM (\<lambda>c. c\<lparr>cn_received := cn_received c + int (length body)\<rparr>))
         (bindM (readM cn_received) (\<lambda>received.
          if received > max_bytes
          then raiseM (Http_Exception 413 ''Request body too large.'' None)
          else retM message))
     | _ \<Rightarrow> retM message)"

definition body_size_limit_middleware :: "int \<Rightarrow> asgi_app \<Rightarrow> asgi_app" where
  "body_size_limit_middleware max_bytes app scope receive send =
     (if sc_type scope \<noteq> ''http'' then app scope receive send
      else thenM (modifyM (\<lambda>c. c\<lparr>cn_received := 0\<rparr>))
             (app scope (limited_receive max_bytes receive) send))"

section \<open>Installation\<close>

datatype layer =
    Body_Size_Limit int
  | Security_Headers bool
  | Gzip
  | Trusted_Host "string list"
  | Request_Context
  | Cors "string list" bool "string list" "string list" "string list"

text \<open>The calls of \<open>add_middleware\<close> in their order; each one wraps what was added before.\<close>

definition setup_middleware :: "settings \<Rightarrow> layer list" where
  "setup_middleware s =
     [Body_Size_Limit (app_max_request_body_bytes (set_app s)),
      Security_Headers (is_production s),
      Gzip,
      Trusted_Host (app_allowed_hosts (set_app s)),
      Request_Context] @
     (if app_cors_origins (set_app s) \<noteq> [] then
        [Cors (app_cors_origins (set_app s)) True
           [''GET'', ''POST'', ''PUT'', ''PATCH'', ''DELETE'', ''OPTIONS'']
           [''Authorization'', ''Content-Type'', request_id_header] [request_id_header]]
      else [])"

text \<open>The layers of the libraries are parameters.\<close>

record foreign_layers =
  fl_gzip :: "asgi_app \<Rightarrow> asgi_app"
  fl_trusted_host :: "string list \<Rightarrow> asgi_app \<Rightarrow> asgi_app"
  fl_cors :: "string list \<Rightarrow> bool \<Rightarrow> string list \<Rightarrow> string list \<Rightarrow> string list \<Rightarrow> asgi_app \<Rightarrow> asgi_app"

fun apply_layer :: "foreign_layers \<Rightarrow> string \<Rightarrow> layer \<Rightarrow> asgi_app \<Rightarrow> asgi_app" where
  "apply_layer F d (Body_Size_Limit n) = body_size_limit_middleware n"
| "apply_layer F d (Security_Headers hsts) = security_headers_middleware hsts"
| "apply_layer F d Gzip = fl_gzip F"
| "apply_layer F d (Trusted_Host hosts) = fl_trusted_host F hosts"
| "apply_layer F d Request_Context = request_context_middleware d"
| "apply_layer F d (Cors origins cred meths hdrs expose) = fl_cors F origins cred meths hdrs expose"

definition middleware_stack :: "foreign_layers \<Rightarrow> string \<Rightarrow> settings \<Rightarrow> asgi_app \<Rightarrow> asgi_app" where
  "middleware_stack F d s app = fold (apply_layer F d) (setup_middleware s) app"

section \<open>Properties\<close>

lemmas asgi_simps = io_simps modifyM_def finallyM_def

lemma header_get_append:
  "header_get n (hs @ gs) = (case header_get n hs of None \<Rightarrow> header_get n gs | Some v \<Rightarrow> Some v)"
  by (simp add: header_get_def find_append split: option.split)

lemma setdefault_get:
  "header_get n (header_setdefault m v hs) =
   (if lower n = lower m then Some (case header_get m hs of None \<Rightarrow> v | Some x \<Rightarrow> x)
    else header_get n hs)"
proof -
  have "lower n = lower m \<Longrightarrow> header_get n gs = header_get m gs" for gs
    by (simp add: header_get_def)
  moreover have "header_get n [(lower m, v)] = (if lower n = lower m then Some v else None)"
    by (simp add: header_get_def)
  ultimately show ?thesis
    by (auto simp: header_setdefault_def header_get_append split: option.split)
qed

lemma lower_names:
  "lower ''X-Content-Type-Options'' = ''x-content-type-options''"
  "lower ''X-Frame-Options'' = ''x-frame-options''"
  "lower ''Referrer-Policy'' = ''referrer-policy''"
  "lower ''Permissions-Policy'' = ''permissions-policy''"
  "lower ''Strict-Transport-Security'' = ''strict-transport-security''"
  "lower ''x-content-type-options'' = ''x-content-type-options''"
  "lower ''x-frame-options'' = ''x-frame-options''"
  "lower ''referrer-policy'' = ''referrer-policy''"
  "lower ''permissions-policy'' = ''permissions-policy''"
  "lower ''strict-transport-security'' = ''strict-transport-security''"
  "lower request_id_header = ''x-request-id''"
  "lower ''x-request-id'' = ''x-request-id''"
  by code_simp+

lemma resolve_request_id_safe:
  "\<exists>rid e'. resolve_request_id raw e = (Inr rid, e') \<and>
     1 \<le> length rid \<and> length rid \<le> 64 \<and> list_all request_id_char rid \<and>
     (raw = Some rid \<or> rid = uuid_str (uuid_feed e (uuid_draws e)))"
proof -
  have hex: "request_id_char c" if "c \<in> hex_chars \<or> c = CHR ''-''" for c
    using that hex_chars_code [of c] by (auto simp: request_id_char_def Let_def)
  have u: "1 \<le> length (uuid_str u) \<and> length (uuid_str u) \<le> 64 \<and> list_all request_id_char (uuid_str u)" for u
    using set_uuid_str [of u] hex by (auto simp: length_uuid_str list_all_iff)
  show ?thesis
  proof (cases "\<exists>r. raw = Some r \<and> re_fullmatch request_id_re r")
    case True
    then show ?thesis
      by (auto simp: resolve_request_id_def request_id_re_def re_fullmatch_class)
  next
    case False
    then show ?thesis
      using u [of "uuid_feed e (uuid_draws e)"]
      by (auto simp: resolve_request_id_def io_simps split: option.split)
  qed
qed

text \<open>Whatever the inner application does, one access event is logged and the context is empty after.\<close>

lemma request_context_clears:
  assumes "sc_type scope = ''http''"
  shows "cn_context (snd (request_context_middleware d app scope receive send c)) = []"
proof -
  obtain rid e' where "resolve_request_id (header_get request_id_header (sc_headers scope)) (cn_env c) =
      (Inr rid, e')"
    using resolve_request_id_safe by blast
  then show ?thesis
    using assms
    by (auto simp: request_context_middleware_def on_conn_env_def log_in_context_def asgi_simps
        split: prod.split sum.split)
qed

text \<open>What one pass through the layer does, for any inner application.\<close>

lemma request_context_run:
  assumes "sc_type scope = ''http''"
  shows "\<exists>rid c1. 1 \<le> length rid \<and> length rid \<le> 64 \<and> list_all request_id_char rid \<and>
    (header_get request_id_header (sc_headers scope) = Some rid \<or>
     rid = uuid_str (uuid_feed (cn_env c) (uuid_draws (cn_env c)))) \<and>
    cn_request_id c1 = Some rid \<and> map_of (cn_context c1) ''request_id'' = Some rid \<and>
    cn_sent c1 = cn_sent c \<and> cn_inbox c1 = cn_inbox c \<and>
    (case app scope receive (send_with_request_id rid send) c1 of (r, c2) \<Rightarrow>
      \<exists>c3. request_context_middleware duration app scope receive send c = (r, c3) \<and>
        cn_context c3 = [] \<and> cn_sent c3 = cn_sent c2 \<and>
        (\<exists>ctx. logs (cn_env c3) = logs (cn_env c2) @ [Log_Entry ''info'' ''http.request'' (with_context ctx
          [(''method'', sc_method scope), (''path'', sc_path scope), (''status'', str_int (cn_status_code c2)),
           (''duration_ms'', duration), (''request_id'', rid)])]))"
proof -
  obtain rid e' where rid: "resolve_request_id (header_get request_id_header (sc_headers scope)) (cn_env c) =
      (Inr rid, e')" "1 \<le> length rid" "length rid \<le> 64" "list_all request_id_char rid"
      "header_get request_id_header (sc_headers scope) = Some rid \<or>
       rid = uuid_str (uuid_feed (cn_env c) (uuid_draws (cn_env c)))"
    using resolve_request_id_safe by blast
  let ?c1 = "c\<lparr>cn_env := e', cn_request_id := Some rid,
      cn_context := filter (\<lambda>(k, v). k \<noteq> ''request_id'') (cn_context c) @ [(''request_id'', rid)],
      cn_status_code := 500\<rparr>"
  obtain r c2 where run: "app scope receive (send_with_request_id rid send) ?c1 = (r, c2)"
    by (cases "app scope receive (send_with_request_id rid send) ?c1")
  have "\<exists>c3. request_context_middleware duration app scope receive send c = (r, c3) \<and>
      cn_context c3 = [] \<and> cn_sent c3 = cn_sent c2 \<and>
      (\<exists>ctx. logs (cn_env c3) = logs (cn_env c2) @ [Log_Entry ''info'' ''http.request'' (with_context ctx
        [(''method'', sc_method scope), (''path'', sc_path scope), (''status'', str_int (cn_status_code c2)),
         (''duration_ms'', duration), (''request_id'', rid)])])"
    using assms rid(1) run
    by (auto simp: request_context_middleware_def on_conn_env_def log_in_context_def asgi_simps)
  moreover have "map_of (filter (\<lambda>(k, v). k \<noteq> ''request_id'') (cn_context c)) ''request_id'' = None"
    by (induction "cn_context c") (auto simp: map_of_eq_None_iff)
  ultimately show ?thesis
    using rid(2-5) run
    by (intro exI [of _ rid] exI [of _ ?c1]) (auto simp: map_add_def split: prod.split)
qed

text \<open>Starlette runs the handler registered for \<^verbatim>\<open>Exception\<close> outside every installed middleware; there it
  logs in whatever context is left.\<close>

definition unhandled_in_context :: "error_request \<Rightarrow> exn \<Rightarrow> (exn, conn, response) io" where
  "unhandled_in_context request x c =
     (case unhandled_exception_handler request x ((cn_env c)\<lparr>logs := []\<rparr>) of
        (r, e) \<Rightarrow> (r, c\<lparr>cn_env := (cn_env c)\<lparr>logs := logs (cn_env c) @
          map (\<lambda>l. case l of Log_Entry level event attrs \<Rightarrow>
            Log_Entry level event (with_context (cn_context c) attrs)) (logs e)\<rparr>\<rparr>))"

lemma unhandled_in_context_run:
  assumes "cn_context c = []"
  shows "\<exists>c2 r. unhandled_in_context request x c = (Inr r, c2) \<and>
    logs (cn_env c2) = logs (cn_env c) @ [Log_Entry ''error'' ''request.unhandled_error''
      [(''error'', exn_name x), (''method'', er_method request), (''path'', er_path request)]]"
  using assms by (simp add: unhandled_in_context_def unhandled_exception_handler_def io_simps with_context_def)

text \<open>Every response start an application sends through the layer carries the headers, and the
  messages are otherwise untouched.\<close>

definition secured :: "bool \<Rightarrow> message \<Rightarrow> message" where
  "secured hsts message =
     (case message of
        Http_Response_Start status hs \<Rightarrow> Http_Response_Start status (security_headers hsts hs)
      | _ \<Rightarrow> message)"

lemma security_layer:
  "security_headers_middleware hsts app scope receive send =
   (if sc_type scope \<noteq> ''http'' then app scope receive send
    else app scope receive (\<lambda>m. send (secured hsts m)))"
proof -
  have "send_with_headers hsts send = (\<lambda>m. send (secured hsts m))"
    by (rule ext) (simp add: send_with_headers_def secured_def split: message.split)
  then show ?thesis
    by (simp add: security_headers_middleware_def)
qed

lemma security_headers_present:
  "header_get ''x-content-type-options'' (security_headers hsts hs) \<noteq> None"
  "header_get ''x-frame-options'' (security_headers hsts hs) \<noteq> None"
  "header_get ''referrer-policy'' (security_headers hsts hs) \<noteq> None"
  "header_get ''permissions-policy'' (security_headers hsts hs) \<noteq> None"
  "hsts \<Longrightarrow> header_get ''strict-transport-security'' (security_headers hsts hs) \<noteq> None"
  by (simp_all add: security_headers_def Let_def setdefault_get lower_names)

text \<open>The cap: an application reading the body through the layer sees at most the allowed bytes.\<close>

definition inbox_receive :: asgi_receive where
  "inbox_receive c =
     (case cn_inbox c of
        [] \<Rightarrow> (Inr (Other_Message ''http.disconnect''), c)
      | m # ms \<Rightarrow> (Inr m, c\<lparr>cn_inbox := ms\<rparr>))"

fun body_bytes :: "message \<Rightarrow> int" where
  "body_bytes (Http_Request b) = int (length b)"
| "body_bytes _ = 0"

text \<open>Reading \<open>n\<close> messages, as a handler that collects the body does.\<close>

fun read_messages :: "asgi_receive \<Rightarrow> nat \<Rightarrow> (exn, conn, message list) io" where
  "read_messages receive 0 = retM []"
| "read_messages receive (Suc n) =
     bindM receive (\<lambda>m. bindM (read_messages receive n) (\<lambda>ms. retM (m # ms)))"

lemma limited_receive_run:
  assumes "cn_inbox c = m # ms"
  shows "limited_receive max_bytes inbox_receive c =
    (if (case m of Http_Request _ \<Rightarrow> True | _ \<Rightarrow> False) \<and> cn_received c + body_bytes m > max_bytes
     then (Inl (Http_Exception 413 ''Request body too large.'' None),
           c\<lparr>cn_inbox := ms, cn_received := cn_received c + body_bytes m\<rparr>)
     else (Inr m, c\<lparr>cn_inbox := ms, cn_received := cn_received c + body_bytes m\<rparr>))"
  using assms by (cases m) (simp_all add: limited_receive_def inbox_receive_def asgi_simps)

lemma read_limited:
  assumes "n \<le> length (cn_inbox c)" and "cn_received c \<le> max_bytes"
  shows "fst (read_messages (limited_receive max_bytes inbox_receive) n c) =
    (if cn_received c + sum_list (map body_bytes (take n (cn_inbox c))) \<le> max_bytes
     then Inr (take n (cn_inbox c))
     else Inl (Http_Exception 413 ''Request body too large.'' None))"
  using assms
proof (induction n arbitrary: c)
  case 0
  then show ?case by simp
next
  case (Suc n)
  then obtain m ms where inbox: "cn_inbox c = m # ms"
    by (cases "cn_inbox c") auto
  have nonneg: "0 \<le> body_bytes x" for x by (cases x) simp_all
  then have rest: "0 \<le> sum_list (map body_bytes (take n ms))"
    by (intro sum_list_nonneg) auto
  let ?c = "c\<lparr>cn_inbox := ms, cn_received := cn_received c + body_bytes m\<rparr>"
  show ?case
  proof (cases "cn_received c + body_bytes m > max_bytes")
    case True
    then have "case m of Http_Request _ \<Rightarrow> True | _ \<Rightarrow> False"
      using Suc.prems(2) by (cases m) simp_all
    with True rest inbox show ?thesis
      by (simp add: limited_receive_run [OF inbox] bindM_def)
  next
    case False
    then have "fst (read_messages (limited_receive max_bytes inbox_receive) n ?c) =
      (if cn_received c + body_bytes m + sum_list (map body_bytes (take n ms)) \<le> max_bytes
       then Inr (take n ms) else Inl (Http_Exception 413 ''Request body too large.'' None))"
      using Suc.IH [of ?c] Suc.prems(1) inbox by simp
    with False inbox show ?thesis
      by (auto simp: limited_receive_run [OF inbox] bindM_def add.assoc split: prod.split sum.split if_splits)
  qed
qed

text \<open>A channel that collects what is sent, and the whole of a capped read.\<close>

definition collect_send :: asgi_send where
  "collect_send message = modifyM (\<lambda>c. c\<lparr>cn_sent := cn_sent c @ [message]\<rparr>)"

lemma read_limited_state:
  assumes "fst (read_messages (limited_receive max_bytes inbox_receive) n c) = Inr ms"
    and "n \<le> length (cn_inbox c)"
  shows "snd (read_messages (limited_receive max_bytes inbox_receive) n c) =
    c\<lparr>cn_received := cn_received c + sum_list (map body_bytes (take n (cn_inbox c))),
      cn_inbox := drop n (cn_inbox c)\<rparr>"
  using assms
proof (induction n arbitrary: c ms)
  case 0
  then show ?case by simp
next
  case (Suc n)
  then obtain m xs where inbox: "cn_inbox c = m # xs"
    by (cases "cn_inbox c") auto
  let ?c = "c\<lparr>cn_inbox := xs, cn_received := cn_received c + body_bytes m\<rparr>"
  have step: "limited_receive max_bytes inbox_receive c = (Inr m, ?c)"
    using Suc.prems(1) by (auto simp: limited_receive_run [OF inbox] bindM_def split: if_splits)
  then obtain ks where "fst (read_messages (limited_receive max_bytes inbox_receive) n ?c) = Inr ks"
    using Suc.prems(1) by (auto simp: bindM_def split: prod.splits sum.splits)
  with Suc.IH [OF this] Suc.prems(2) inbox step show ?case
    by (auto simp: bindM_def add.assoc split: prod.splits sum.splits)
qed

lemma capped_body:
  assumes "sc_type scope = ''http''" and "0 \<le> max_bytes" and "n \<le> length (cn_inbox c)"
  shows "fst (body_size_limit_middleware max_bytes
      (\<lambda>_ receive _. bindM (read_messages receive n) (\<lambda>ms. use ms)) scope inbox_receive send c) =
    (if sum_list (map body_bytes (take n (cn_inbox c))) \<le> max_bytes
     then fst (use (take n (cn_inbox c)) (c\<lparr>cn_received := sum_list (map body_bytes (take n (cn_inbox c))),
       cn_inbox := drop n (cn_inbox c)\<rparr>))
     else Inl (Http_Exception 413 ''Request body too large.'' None))"
proof -
  let ?c = "c\<lparr>cn_received := 0\<rparr>" and ?read = "read_messages (limited_receive max_bytes inbox_receive) n"
  have out: "fst (?read ?c) = (if sum_list (map body_bytes (take n (cn_inbox c))) \<le> max_bytes
      then Inr (take n (cn_inbox c)) else Inl (Http_Exception 413 ''Request body too large.'' None))"
    using read_limited [of n ?c max_bytes] assms(2,3) by simp
  have "body_size_limit_middleware max_bytes (\<lambda>_ receive _. bindM (read_messages receive n) use)
      scope inbox_receive send c = bindM ?read use ?c"
    using assms(1) by (simp add: body_size_limit_middleware_def asgi_simps)
  with out read_limited_state [of max_bytes n ?c] assms(3) show ?thesis
    by (cases "?read ?c") (auto simp: bindM_def split: if_splits)
qed

lemma middleware_order:
  "middleware_stack F d s app =
   (if app_cors_origins (set_app s) \<noteq> []
    then fl_cors F (app_cors_origins (set_app s)) True
      [''GET'', ''POST'', ''PUT'', ''PATCH'', ''DELETE'', ''OPTIONS'']
      [''Authorization'', ''Content-Type'', request_id_header] [request_id_header]
    else id)
   (request_context_middleware d
   (fl_trusted_host F (app_allowed_hosts (set_app s))
   (fl_gzip F
   (security_headers_middleware (is_production s)
   (body_size_limit_middleware (app_max_request_body_bytes (set_app s)) app)))))"
  by (simp add: middleware_stack_def setup_middleware_def)

end
