(* ===== verification/Startup.thy ===== *)
theory Startup
  imports Middleware
begin

text \<open>
  What the start-up of the process configures: logging (\<^verbatim>\<open>app/core/logging.py\<close>), telemetry (\<^verbatim>\<open>app/core/telemetry\<close>) and the engine
  (\<^verbatim>\<open>app/infrastructure/database/session.py\<close>). These functions only configure libraries; what they
  compute from the settings is the configuration, modelled as data.
\<close>

section \<open>The engine\<close>

datatype pool_class = Default_Pool | Static_Pool

record engine_options =
  eng_url :: string
  eng_echo :: bool
  eng_pool :: pool_class
  eng_check_same_thread :: bool
  eng_pool_size :: "int option"
  eng_max_overflow :: "int option"
  eng_pre_ping :: bool

definition create_engine :: "database_settings \<Rightarrow> engine_options" where
  "create_engine s =
     (let url = dbs_url s in
      if starts_with url ''sqlite''
      then \<lparr>eng_url = url, eng_echo = dbs_echo s, eng_pool = Static_Pool, eng_check_same_thread = False,
            eng_pool_size = None, eng_max_overflow = None, eng_pre_ping = False\<rparr>
      else \<lparr>eng_url = url, eng_echo = dbs_echo s, eng_pool = Default_Pool, eng_check_same_thread = True,
            eng_pool_size = Some (dbs_pool_size s), eng_max_overflow = Some (dbs_max_overflow s),
            eng_pre_ping = True\<rparr>)"

text \<open>The sessions neither expire what they loaded on a commit nor flush before a query; the contract
  \<open>sqlalchemy_session\<close> is stated for these options.\<close>

record session_options =
  ses_bind :: engine_options
  ses_expire_on_commit :: bool
  ses_autoflush :: bool

definition create_session_factory :: "engine_options \<Rightarrow> session_options" where
  "create_session_factory engine =
     \<lparr>ses_bind = engine, ses_expire_on_commit = False, ses_autoflush = False\<rparr>"

section \<open>Logging\<close>

datatype log_level = Debug_Level | Info_Level

datatype processor =
    Merge_Contextvars | Add_Log_Level | Add_Logger_Name | Time_Stamper string bool
  | Stack_Info_Renderer | Trace_Context | Console_Renderer | Dict_Tracebacks | Json_Renderer
  | Wrap_For_Formatter | Remove_Processors_Meta

record stdlib_logger =
  sl_handlers :: "string list"
  sl_propagate :: bool

record logging_config =
  lg_level :: log_level
  lg_processors :: "processor list"
  lg_cache_on_first_use :: bool
  lg_foreign_pre_chain :: "processor list"
  lg_formatter :: "processor list"
  lg_root_handlers :: nat
  lg_loggers :: "(string \<times> stdlib_logger) list"

definition shared_processors :: "settings \<Rightarrow> processor list" where
  "shared_processors s =
     [Merge_Contextvars, Add_Log_Level, Add_Logger_Name, Time_Stamper ''iso'' True,
      Stack_Info_Renderer] @
     (if obs_enabled (set_observability s) then [Trace_Context] else [])"

definition tail_processors :: "settings \<Rightarrow> processor list" where
  "tail_processors s =
     (if set_environment s = Local then [Console_Renderer] else [Dict_Tracebacks, Json_Renderer])"

definition configure_logging :: "settings \<Rightarrow> logging_config" where
  "configure_logging s =
     \<lparr>lg_level = (if app_debug (set_app s) then Debug_Level else Info_Level),
      lg_processors = shared_processors s @ [Wrap_For_Formatter],
      lg_cache_on_first_use = True,
      lg_foreign_pre_chain = shared_processors s,
      lg_formatter = Remove_Processors_Meta # tail_processors s,
      lg_root_handlers = 1,
      lg_loggers =
        [(''uvicorn'', \<lparr>sl_handlers = [], sl_propagate = True\<rparr>),
         (''uvicorn.error'', \<lparr>sl_handlers = [], sl_propagate = True\<rparr>),
         (''uvicorn.access'', \<lparr>sl_handlers = [], sl_propagate = False\<rparr>)]\<rparr>"

section \<open>Telemetry\<close>

text \<open>The boolean says whether the queries are commented with the trace they belong to.\<close>

datatype instrumentation = Instrument_Fastapi | Instrument_Sqlalchemy bool | Instrument_Asyncpg

record telemetry_config =
  tel_service_name :: string
  tel_traces_endpoint :: string
  tel_metrics_endpoint :: string
  tel_instrumented :: "instrumentation list"

definition rstrip_slash :: "string \<Rightarrow> string" where
  "rstrip_slash s = rev (dropWhile (\<lambda>c. c = CHR ''/'') (rev s))"

definition configure_telemetry :: "settings \<Rightarrow> telemetry_config" where
  "configure_telemetry s =
     (let service_name = (if obs_service_name (set_observability s) \<noteq> []
                          then obs_service_name (set_observability s) else app_name (set_app s));
          endpoint = rstrip_slash (obs_otlp_endpoint (set_observability s))
      in \<lparr>tel_service_name = service_name, tel_traces_endpoint = endpoint @ ''/v1/traces'',
          tel_metrics_endpoint = endpoint @ ''/v1/metrics'',
          tel_instrumented = [Instrument_Fastapi, Instrument_Sqlalchemy True, Instrument_Asyncpg]\<rparr>)"

text \<open>\<open>format(n, "032x")\<close> pads on the left with zeros and never cuts.\<close>

fun hex_nat :: "nat \<Rightarrow> string" where
  "hex_nat n = (if n < 16 then [hex_digit n] else hex_nat (n div 16) @ [hex_digit (n mod 16)])"

declare hex_nat.simps [simp del]

definition format_hex :: "nat \<Rightarrow> nat \<Rightarrow> string" where
  "format_hex width n = (let h = hex_nat n in replicate (width - length h) (CHR ''0'') @ h)"

record span_context =
  sp_is_valid :: bool
  sp_trace_id :: nat
  sp_span_id :: nat

definition trace_context_processor ::
  "span_context \<Rightarrow> (string \<rightharpoonup> string) \<Rightarrow> (string \<rightharpoonup> string)" where
  "trace_context_processor span event_dict =
     (if sp_is_valid span
      then event_dict(''trace_id'' \<mapsto> format_hex 32 (sp_trace_id span),
                      ''span_id'' \<mapsto> format_hex 16 (sp_span_id span))
      else event_dict)"

text \<open>The ids of an OpenTelemetry span have 128 and 64 bits, so they take exactly their width.\<close>

lemma length_hex_nat: "n < 16 ^ k \<Longrightarrow> 0 < k \<Longrightarrow> length (hex_nat n) \<le> k"
proof (induction n arbitrary: k rule: hex_nat.induct)
  case (1 n)
  show ?case
  proof (cases "n < 16")
    case True
    with 1 show ?thesis by (simp add: hex_nat.simps [of n])
  next
    case False
    obtain j where k: "k = Suc j" "0 < j"
      using 1(2,3) False by (cases k; cases "k = 1") auto
    have "n div 16 < 16 ^ j"
      using 1(2) k(1) by (simp add: less_mult_imp_div_less mult.commute)
    with 1(1) [OF False this k(2)] False k show ?thesis
      by (simp add: hex_nat.simps [of n])
  qed
qed

lemma format_hex_width: "n < 16 ^ k \<Longrightarrow> 0 < k \<Longrightarrow> length (format_hex k n) = k"
  using length_hex_nat [of n k] by (simp add: format_hex_def Let_def)

end
