(* ===== verification/Container.thy ===== *)
theory Container
  imports Startup
begin

text \<open>
  The composition root as data: the factories that the providers of \<^verbatim>\<open>app/ioc/providers\<close> declare, the
  registry \<^verbatim>\<open>create_container\<close> (\<^verbatim>\<open>app/ioc/container.py\<close>) makes of them. Dishka is not part of the program; \<open>build\<close> is the resolution its
  documentation describes: the dependencies of a factory first, one instance per scope, a later factory
  for the same type instead of an earlier one, finalisation in the reverse order of construction.
\<close>

datatype component_key =
    Settings_Key | Database_Settings_Key | Jwt_Settings_Key | Redis_Settings_Key
  | Rate_Limit_Settings_Key | Engine_Key | Session_Factory_Key | Session_Key | Unit_Of_Work_Key
  | User_Query_Service_Key | Clock_Key | Password_Hasher_Key | Token_Service_Key | Redis_Client_Key
  | Rate_Limiter_Key | Event_Dispatcher_Key | Change_Password_Key | Create_User_Key | Login_Key
  | Logout_Key | Refresh_Token_Key | Get_User_Key | List_Users_Key

datatype di_scope = App_Scope | Request_Scope

text \<open>A factory: what it provides, in which scope, from what; \<open>fa_closes\<close> says that it yields its
  instance and cleans up afterwards.\<close>

record factory =
  fa_provides :: component_key
  fa_scope :: di_scope
  fa_needs :: "component_key list"
  fa_closes :: bool

definition factory_of :: "component_key \<Rightarrow> di_scope \<Rightarrow> component_key list \<Rightarrow> factory" where
  "factory_of k s needs = \<lparr>fa_provides = k, fa_scope = s, fa_needs = needs, fa_closes = False\<rparr>"

section \<open>The providers\<close>

definition config_provider :: "factory list" where
  "config_provider =
     [factory_of Settings_Key App_Scope [],
      factory_of Database_Settings_Key App_Scope [Settings_Key],
      factory_of Jwt_Settings_Key App_Scope [Settings_Key],
      factory_of Redis_Settings_Key App_Scope [Settings_Key],
      factory_of Rate_Limit_Settings_Key App_Scope [Settings_Key]]"

definition database_provider :: "factory list" where
  "database_provider =
     [(factory_of Engine_Key App_Scope [Database_Settings_Key])\<lparr>fa_closes := True\<rparr>,
      factory_of Session_Factory_Key App_Scope [Engine_Key],
      (factory_of Session_Key Request_Scope [Session_Factory_Key])\<lparr>fa_closes := True\<rparr>,
      factory_of Unit_Of_Work_Key Request_Scope [Session_Key],
      factory_of User_Query_Service_Key Request_Scope [Session_Key]]"

definition security_provider :: "factory list" where
  "security_provider =
     [factory_of Clock_Key App_Scope [],
      factory_of Password_Hasher_Key App_Scope [],
      factory_of Token_Service_Key App_Scope [Jwt_Settings_Key, Clock_Key]]"

definition cache_provider :: "factory list" where
  "cache_provider =
     [(factory_of Redis_Client_Key App_Scope [Redis_Settings_Key])\<lparr>fa_closes := True\<rparr>,
      factory_of Rate_Limiter_Key App_Scope [Redis_Client_Key]]"

definition events_provider :: "factory list" where
  "events_provider = [factory_of Event_Dispatcher_Key App_Scope []]"

text \<open>The needs of a handler are the parameters of its constructor.\<close>

definition use_cases_provider :: "factory list" where
  "use_cases_provider =
     [factory_of Change_Password_Key Request_Scope [Unit_Of_Work_Key, Password_Hasher_Key, Clock_Key],
      factory_of Create_User_Key Request_Scope
        [Unit_Of_Work_Key, Password_Hasher_Key, Clock_Key, Event_Dispatcher_Key],
      factory_of Login_Key Request_Scope [Unit_Of_Work_Key, Password_Hasher_Key, Token_Service_Key],
      factory_of Logout_Key Request_Scope [Unit_Of_Work_Key, Token_Service_Key, Clock_Key],
      factory_of Refresh_Token_Key Request_Scope [Unit_Of_Work_Key, Token_Service_Key, Clock_Key],
      factory_of Get_User_Key Request_Scope [User_Query_Service_Key],
      factory_of List_Users_Key Request_Scope [User_Query_Service_Key]]"

text \<open>\<^verbatim>\<open>FastapiProvider\<close> provides the request object, which no factory here needs.\<close>

definition create_container :: "factory list \<Rightarrow> factory list" where
  "create_container extra_providers =
     config_provider @ database_provider @ security_provider @ cache_provider @ events_provider @
     use_cases_provider @ extra_providers"

section \<open>Resolution\<close>

definition factory_for :: "factory list \<Rightarrow> component_key \<Rightarrow> factory option" where
  "factory_for registry k = find (\<lambda>f. fa_provides f = k) (rev registry)"

text \<open>\<open>build\<close> extends the list of the instances made so far, in the order of construction; \<open>None\<close> when a
  factory is missing, when an instance of the application would keep one of a request, or when the
  nesting exceeds \<open>n\<close>.\<close>

fun build :: "factory list \<Rightarrow> nat \<Rightarrow> di_scope \<Rightarrow> component_key list \<Rightarrow> component_key list \<Rightarrow>
    component_key list option" where
  "build registry n s [] made = Some made"
| "build registry 0 s (k # ks) made = None"
| "build registry (Suc n) s (k # ks) made =
     (if k \<in> set made then build registry (Suc n) s ks made
      else (case factory_for registry k of
        None \<Rightarrow> None
      | Some f \<Rightarrow>
          if s = App_Scope \<and> fa_scope f = Request_Scope then None
          else (case build registry n (fa_scope f) (fa_needs f) made of
            None \<Rightarrow> None
          | Some made' \<Rightarrow> build registry (Suc n) s ks (made' @ [k]))))"

definition finalised :: "factory list \<Rightarrow> component_key list \<Rightarrow> component_key list" where
  "finalised registry made =
     filter (\<lambda>k. case factory_for registry k of None \<Rightarrow> False | Some f \<Rightarrow> fa_closes f) (rev made)"

lemma factory_for_override:
  "factory_for (registry @ [f]) k = (if k = fa_provides f then Some f else factory_for registry k)"
  by (simp add: factory_for_def)

definition all_keys :: "component_key list" where
  "all_keys =
     [Settings_Key, Database_Settings_Key, Jwt_Settings_Key, Redis_Settings_Key, Rate_Limit_Settings_Key,
      Engine_Key, Session_Factory_Key, Session_Key, Unit_Of_Work_Key, User_Query_Service_Key, Clock_Key,
      Password_Hasher_Key, Token_Service_Key, Redis_Client_Key, Rate_Limiter_Key, Event_Dispatcher_Key,
      Change_Password_Key, Create_User_Key, Login_Key, Logout_Key, Refresh_Token_Key, Get_User_Key,
      List_Users_Key]"

text \<open>An instance is made after everything its factory needs, and once.\<close>

fun well_built :: "factory list \<Rightarrow> component_key list \<Rightarrow> component_key list \<Rightarrow> bool" where
  "well_built registry before [] = True"
| "well_built registry before (k # ks) =
     (k \<notin> set before \<and>
      (case factory_for registry k of None \<Rightarrow> False | Some f \<Rightarrow> list_all (\<lambda>x. x \<in> set before) (fa_needs f)) \<and>
      well_built registry (before @ [k]) ks)"

lemma all_keys_complete: "set all_keys = UNIV"
proof -
  have "k \<in> set all_keys" for k
    by (cases k) (simp_all add: all_keys_def)
  then show ?thesis by blast
qed

lemma builds_all_keys:
  "list_all (\<lambda>k. case build (create_container []) 8 Request_Scope [k] [] of
     None \<Rightarrow> False | Some made \<Rightarrow> k \<in> set made \<and> well_built (create_container []) [] made) all_keys"
  by code_simp


end
