(* ===== verification/Rate_Limiter.thy ===== *)
theory Rate_Limiter
  imports Ports Config
begin

text \<open>
  The Redis rate limiter (\<^verbatim>\<open>app/infrastructure/cache/rate_limiter.py\<close>) and the dependency of the public
  endpoints built on it (\<^verbatim>\<open>app/api/dependencies/rate_limit.py\<close>). Redis is not part of the program: it
  is a record of the three commands the limiter sends, with their documented effect on a counter and
  its deadline in \<open>redis_server\<close>. A check sends its commands one after the other; time passes, and
  other clients act, between checks.
\<close>

section \<open>The limiter\<close>

record 'r redis =
  rd_incr :: "string \<Rightarrow> (exn, 'r, int) io"
  rd_expire :: "string \<Rightarrow> int \<Rightarrow> (exn, 'r, unit) io"
  rd_ttl :: "string \<Rightarrow> (exn, 'r, int) io"

definition key_prefix :: string where
  "key_prefix = ''ratelimit''"

definition redis_check :: "'r redis \<Rightarrow> 'r rate_limiter" where
  "redis_check R key limit window_seconds =
     (let redis_key = key_prefix @ '':'' @ key in
      bindM (rd_incr R redis_key) (\<lambda>count.
      thenM (if count = 1 then rd_expire R redis_key window_seconds else retM ())
      (if count > limit
       then bindM (rd_ttl R redis_key) (\<lambda>ttl.
              retM \<lparr>rl_allowed = False, rl_retry_after_seconds = max ttl 1\<rparr>)
       else retM \<lparr>rl_allowed = True, rl_retry_after_seconds = 0\<rparr>)))"

text \<open>The client is made from the URL of the settings by \<^verbatim>\<open>Redis.from_url\<close>, and the limiter on it by the
  container's provider.\<close>

definition create_redis_client :: "(string \<Rightarrow> 'r redis) \<Rightarrow> string \<Rightarrow> 'r redis" where
  "create_redis_client from_url url = from_url url"

definition provided_rate_limiter :: "(string \<Rightarrow> 'r redis) \<Rightarrow> settings \<Rightarrow> 'r rate_limiter" where
  "provided_rate_limiter from_url config =
     redis_check (create_redis_client from_url (redis_url (set_redis config)))"

section \<open>The dependency\<close>

record client_request =
  rq_path :: string
  rq_client_host :: "string option"

definition rate_limit_key :: "client_request \<Rightarrow> string" where
  "rate_limit_key request =
     rq_path request @ '':'' @
     (case rq_client_host request of None \<Rightarrow> ''unknown'' | Some host \<Rightarrow> host)"

definition rate_limit_auth ::
  "'r rate_limiter \<Rightarrow> rate_limit_settings \<Rightarrow> client_request \<Rightarrow> (exn, 'r, unit) io" where
  "rate_limit_auth limiter settings request =
     bindM (limiter (rate_limit_key request) (rls_auth_requests settings)
              (rls_auth_window_seconds settings)) (\<lambda>decision.
     if \<not> rl_allowed decision
     then raiseM (Http_Exception 429 ''Too many requests; try again later.''
            (Some [(''Retry-After'', str_int (rl_retry_after_seconds decision))]))
     else retM ())"

text \<open>A burst of \<open>n\<close> checks of one key: how many of them pass.\<close>

fun burst :: "'r rate_limiter \<Rightarrow> nat \<Rightarrow> string \<Rightarrow> int \<Rightarrow> int \<Rightarrow> 'r \<Rightarrow> nat" where
  "burst L 0 key limit window r = 0"
| "burst L (Suc n) key limit window r =
     (case L key limit window r of
        (Inl _, r') \<Rightarrow> 0
      | (Inr d, r') \<Rightarrow> (if rl_allowed d then 1 else 0) + burst L n key limit window r')"

section \<open>What a fixed-window limiter promises\<close>

text \<open>\<open>hits\<close> counts the checks of a key in its current window.\<close>

locale rate_limiter_laws =
  fixes L :: "'r rate_limiter"
    and hits :: "'r \<Rightarrow> string \<Rightarrow> int"
    and ready :: "'r \<Rightarrow> bool"
  assumes hits_nonneg: "ready r \<Longrightarrow> 0 \<le> hits r key"
    and check_counts: "ready r \<Longrightarrow> 0 < window \<Longrightarrow>
      \<exists>retry. yields (L key limit window r)
        (if hits r key < limit then \<lparr>rl_allowed = True, rl_retry_after_seconds = 0\<rparr>
         else \<lparr>rl_allowed = False, rl_retry_after_seconds = retry\<rparr>)
        (\<lambda>r'. ready r' \<and> hits r' = (hits r)(key := hits r key + 1)) \<and> 1 \<le> retry"
begin

lemma burst_allows:
  assumes "ready r" and "0 < window"
  shows "burst L n key limit window r = min n (nat (limit - hits r key))"
  using assms(1)
proof (induction n arbitrary: r)
  case 0
  then show ?case by simp
next
  case (Suc n)
  obtain retry where
    y: "yields (L key limit window r)
      (if hits r key < limit then \<lparr>rl_allowed = True, rl_retry_after_seconds = 0\<rparr>
       else \<lparr>rl_allowed = False, rl_retry_after_seconds = retry\<rparr>)
      (\<lambda>r'. ready r' \<and> hits r' = (hits r)(key := hits r key + 1))"
    using check_counts [OF Suc.prems assms(2), of key limit] by blast
  obtain r' where r': "L key limit window r =
      (Inr (if hits r key < limit then \<lparr>rl_allowed = True, rl_retry_after_seconds = 0\<rparr>
         else \<lparr>rl_allowed = False, rl_retry_after_seconds = retry\<rparr>), r')"
      "ready r'" "hits r' = (hits r)(key := hits r key + 1)"
    using y by (elim yieldsE) blast
  then have "burst L (Suc n) key limit window r =
      (if hits r key < limit then 1 else 0) + min n (nat (limit - (hits r key + 1)))"
    using Suc.IH [OF r'(2)] by simp
  moreover have "hits r key < limit \<Longrightarrow> nat (limit - hits r key) = Suc (nat (limit - (hits r key + 1)))"
    by simp
  ultimately show ?case by (simp del: burst.simps)
qed

lemma limited_request:
  assumes "ready r" and "0 < rls_auth_window_seconds settings"
    and "hits r (rate_limit_key request) \<ge> rls_auth_requests settings"
  shows "\<exists>retry r'. 1 \<le> retry \<and> rate_limit_auth L settings request r =
    (Inl (Http_Exception 429 ''Too many requests; try again later.''
       (Some [(''Retry-After'', str_int retry)])), r')"
proof -
  obtain retry r' where "L (rate_limit_key request) (rls_auth_requests settings)
      (rls_auth_window_seconds settings) r =
      (Inr \<lparr>rl_allowed = False, rl_retry_after_seconds = retry\<rparr>, r')" "1 \<le> retry"
    using check_counts [OF assms(1,2), of "rate_limit_key request" "rls_auth_requests settings"] assms(3)
    by (auto elim!: yieldsE)
  then show ?thesis
    by (auto simp: rate_limit_auth_def io_simps)
qed

end

section \<open>Redis\<close>

text \<open>
  The value of a counter (0 without a key), its deadline in milliseconds of the server's clock if it
  has one, and the clock. \<open>INCR\<close> creates a key without a deadline and keeps the deadline of an
  existing one; \<open>TTL\<close> answers in seconds, rounded, and -1 for a key without a deadline.
\<close>

definition hits_of :: "('r \<Rightarrow> string \<Rightarrow> int) \<Rightarrow> 'r \<Rightarrow> string \<Rightarrow> int" where
  "hits_of counter r key = counter r (key_prefix @ '':'' @ key)"

locale redis_server =
  fixes R :: "'r redis"
    and counter :: "'r \<Rightarrow> string \<Rightarrow> int"
    and deadline :: "'r \<Rightarrow> string \<Rightarrow> int option"
    and clock :: "'r \<Rightarrow> int"
    and up :: "'r \<Rightarrow> bool"
  assumes counter_nonneg: "up r \<Longrightarrow> 0 \<le> counter r k"
    and deadline_ahead: "up r \<Longrightarrow> deadline r k = Some d \<Longrightarrow> clock r < d"
    and incr: "up r \<Longrightarrow> yields (rd_incr R k r) (counter r k + 1)
      (\<lambda>r'. up r' \<and> clock r' = clock r \<and> counter r' = (counter r)(k := counter r k + 1) \<and>
            deadline r' = (deadline r)(k := if counter r k = 0 then None else deadline r k))"
    and expire: "up r \<Longrightarrow> 0 < counter r k \<Longrightarrow> 0 < s \<Longrightarrow> yields (rd_expire R k s r) ()
      (\<lambda>r'. up r' \<and> clock r' = clock r \<and> counter r' = counter r \<and>
            deadline r' = (deadline r)(k \<mapsto> clock r + 1000 * s))"
    and ttl: "up r \<Longrightarrow> 0 < counter r k \<Longrightarrow> yields (rd_ttl R k r)
        (case deadline r k of None \<Rightarrow> -1 | Some d \<Rightarrow> (d - clock r + 500) div 1000)
      (\<lambda>r'. up r' \<and> clock r' = clock r \<and> counter r' = counter r \<and> deadline r' = deadline r)"
begin

lemma redis_check_run:
  assumes "up r" and "0 < window"
    and k: "k = key_prefix @ '':'' @ key"
  shows "\<exists>r'. up r' \<and> clock r' = clock r \<and> counter r' = (counter r)(k := counter r k + 1) \<and>
    deadline r' = (if counter r k = 0 then (deadline r)(k \<mapsto> clock r + 1000 * window) else deadline r) \<and>
    redis_check R key limit window r =
      (Inr (if counter r k < limit then \<lparr>rl_allowed = True, rl_retry_after_seconds = 0\<rparr>
         else \<lparr>rl_allowed = False, rl_retry_after_seconds =
           max (case deadline r' k of None \<Rightarrow> -1 | Some d \<Rightarrow> (d - clock r + 500) div 1000) 1\<rparr>), r')"
proof -
  obtain r1 where r1: "rd_incr R k r = (Inr (counter r k + 1), r1)" "up r1" "clock r1 = clock r"
      "counter r1 = (counter r)(k := counter r k + 1)"
      "deadline r1 = (deadline r)(k := if counter r k = 0 then None else deadline r k)"
    using incr [OF assms(1), of k] by (auto elim: yieldsE)
  have pos: "0 < counter r1 k"
    using counter_nonneg [OF assms(1), of k] by (simp add: r1(4))
  obtain r2 where r2: "(if counter r k + 1 = 1 then rd_expire R k window else retM ()) r1 = (Inr (), r2)"
      "up r2" "clock r2 = clock r" "counter r2 = counter r1"
      "deadline r2 = (if counter r k = 0 then (deadline r)(k \<mapsto> clock r + 1000 * window) else deadline r)"
  proof (cases "counter r k = 0")
    case True
    then show ?thesis
      using expire [OF r1(2) pos assms(2)] r1 that by (auto elim!: yieldsE)
  next
    case False
    then show ?thesis
      using r1 that [of r1] by (auto simp: fun_upd_idem)
  qed
  have pos2: "0 < counter r2 k"
    using pos r2(4) by simp
  obtain r3 where r3: "rd_ttl R k r2 =
      (Inr (case deadline r2 k of None \<Rightarrow> -1 | Some d \<Rightarrow> (d - clock r + 500) div 1000), r3)"
      "up r3" "clock r3 = clock r" "counter r3 = counter r2" "deadline r3 = deadline r2"
    using ttl [OF r2(2) pos2] unfolding r2(3) by (elim yieldsE) blast
  show ?thesis
  proof (cases "counter r k < limit")
    case True
    then have "redis_check R key limit window r =
        (Inr \<lparr>rl_allowed = True, rl_retry_after_seconds = 0\<rparr>, r2)"
      using r1(1) r2(1) unfolding redis_check_def Let_def k [symmetric]
      by (simp add: bindM_def thenM_def)
    with True r1 r2 show ?thesis by (intro exI [of _ r2]) simp
  next
    case False
    then have "redis_check R key limit window r =
        (Inr \<lparr>rl_allowed = False, rl_retry_after_seconds =
           max (case deadline r2 k of None \<Rightarrow> -1 | Some d \<Rightarrow> (d - clock r + 500) div 1000) 1\<rparr>, r3)"
      using r1(1) r2(1) r3(1) unfolding redis_check_def Let_def k [symmetric]
      by (simp add: bindM_def thenM_def)
    with False r1 r2 r3 show ?thesis by (intro exI [of _ r3]) simp
  qed
qed

end

sublocale redis_server \<subseteq> limiter: rate_limiter_laws "redis_check R" "hits_of counter" up
proof (unfold_locales, goal_cases)
  case (1 r key)
  then show ?case by (simp add: hits_of_def counter_nonneg)
next
  case (2 r window key limit)
  let ?k = "key_prefix @ '':'' @ key"
  obtain r' where r': "up r'" "counter r' = (counter r)(?k := counter r ?k + 1)"
    "redis_check R key limit window r =
      (Inr (if counter r ?k < limit then \<lparr>rl_allowed = True, rl_retry_after_seconds = 0\<rparr>
         else \<lparr>rl_allowed = False, rl_retry_after_seconds =
           max (case deadline r' ?k of None \<Rightarrow> -1 | Some d \<Rightarrow> (d - clock r + 500) div 1000) 1\<rparr>), r')"
    using redis_check_run [OF 2 refl, of key limit] by blast
  have "hits_of counter r' = (hits_of counter r)(key := hits_of counter r key + 1)"
    using r'(2) by (auto simp: hits_of_def)
  with r' show ?case
    by (intro exI [of _ "max (case deadline r' ?k of None \<Rightarrow> -1 | Some d \<Rightarrow> (d - clock r + 500) div 1000) 1"])
       (simp add: yields_def hits_of_def)
qed

context redis_server
begin

lemma fulfils_limiter_port: "rate_limiter_laws (redis_check R) (hits_of counter) up"
  by unfold_locales

text \<open>A denied check: how long to wait, and what is left of the key.\<close>

lemma denied_check:
  assumes "up r" and "0 < window" and "0 < limit" and k: "k = key_prefix @ '':'' @ key"
    and "limit \<le> counter r k"
  shows "\<exists>r'. up r' \<and> counter r' k = counter r k + 1 \<and> deadline r' = deadline r \<and> clock r' = clock r \<and>
    redis_check R key limit window r = (Inr \<lparr>rl_allowed = False, rl_retry_after_seconds =
      max (case deadline r k of None \<Rightarrow> -1 | Some d \<Rightarrow> (d - clock r + 500) div 1000) 1\<rparr>, r')"
  using redis_check_run [OF assms(1,2) k, of limit] assms(3,5) by auto

end

end
