(* ===== verification/Endpoints.thy ===== *)
theory Endpoints
  imports Assembly Rate_Limiter Error_Handlers
begin

text \<open>
  The HTTP endpoints (\<^verbatim>\<open>app/api/v1\<close>) with their request and response schemas, and the dependency that
  resolves the current user from a bearer token (\<^verbatim>\<open>app/api/dependencies/auth.py\<close>). FastAPI takes the
  fields out of the JSON body; what the schemas demand of them is modelled. \<^verbatim>\<open>EmailStr\<close> is pydantic's: the
  parameter \<open>email_str\<close> is the text it makes of an address, or nothing.
\<close>

section \<open>The current user\<close>

definition get_current_user ::
  "token_service \<Rightarrow> 's unit_of_work \<Rightarrow> string \<Rightarrow> (exn, ('s, 'r) world, user) io" where
  "get_current_user T U credentials =
     bindM (on_env (ts_decode T credentials)) (\<lambda>payload.
     if tp_token_type payload \<noteq> Access then raiseM (raised InvalidTokenError) else
     bindM (tryM (liftM (user_id_from_str (tp_subject payload)))
              (\<lambda>x. if is_domain ValidationError x then raiseM (raised InvalidTokenError)
                   else raiseM x)) (\<lambda>user_id.
     bindM (on_store (ur_get_by_id (uow_users U) user_id)) (\<lambda>found.
     case active_user found of
       None \<Rightarrow> raiseM (raised InvalidTokenError)
     | Some user \<Rightarrow> retM user)))"

text \<open>The decision as a function of the committed store.\<close>

definition current_user_decision :: "account_store \<Rightarrow> exn + token_payload \<Rightarrow> exn + user" where
  "current_user_decision st decoded =
     (case decoded of
        Inl x \<Rightarrow> Inl x
      | Inr p \<Rightarrow>
          if tp_token_type p \<noteq> Access then Inl (raised InvalidTokenError)
          else (case token_owner st p of
            None \<Rightarrow> Inl (raised InvalidTokenError)
          | Some u \<Rightarrow> Inr u))"

lemma current_user_stored:
  assumes "current_user_decision st d = Inr u"
  shows "\<exists>i. st_users st i = Some u \<and> usr_is_active u"
  using assms by (auto simp: current_user_decision_def token_owner_Some split: sum.splits if_splits option.splits)

text \<open>The decision follows the store: a token accepted for a user is accepted for its update.\<close>

lemma current_user_replaced:
  assumes "current_user_decision st d = Inr u"
    and "\<And>i. st_users st' i = (if i = uid_value (usr_id u) then Some v else st_users st i)"
    and "wf_store st" and "usr_is_active v"
  shows "current_user_decision st' d = Inr v"
proof -
  obtain p i where p: "d = Inr p" "tp_token_type p = Access" "user_id_from_str (tp_subject p) = Inr i"
      "st_users st (uid_value i) = Some u"
    using assms(1)
    by (auto simp: current_user_decision_def token_owner_Some split: sum.splits if_splits option.splits)
  then have "token_owner st' p = Some v"
    using assms(2,4) wf_storeD(1) [OF assms(3) p(4)] by (simp add: token_owner_Some)
  with p show ?thesis
    by (simp add: current_user_decision_def)
qed

context auth_ports
begin

lemma current_user_refines:
  assumes clean: "clean ok view durable w"
  shows "fst (get_current_user T U tok w) =
      current_user_decision (durable (store w)) (fst (ts_decode T tok (env w)))"
    and "settled ok view durable w (durable (store w)) (snd (get_current_user T U tok w))"
proof -
  let ?st = "durable (store w)" and ?out = "get_current_user T U tok w"
  note ok = clean_parts [OF clean]
  have "fst ?out = current_user_decision ?st (fst (ts_decode T tok (env w))) \<and>
      settled ok view durable w ?st (snd ?out)"
  proof (cases "fst (ts_decode T tok (env w))")
    case (Inl x)
    obtain n where n: "ts_decode T tok (env w) = (Inl x, (env w)\<lparr>clock_reads := n\<rparr>)"
        "env_ok ((env w)\<lparr>clock_reads := n\<rparr>)"
      using decode_step [OF clean Inl] .
    then show ?thesis
      by (simp add: get_current_user_def current_user_decision_def io_simps settled_env clean)
  next
    case (Inr p)
    obtain n where n: "ts_decode T tok (env w) = (Inr p, (env w)\<lparr>clock_reads := n\<rparr>)"
        "env_ok ((env w)\<lparr>clock_reads := n\<rparr>)"
      using decode_step [OF clean Inr] .
    show ?thesis
    proof (cases "tp_token_type p = Access")
      case False
      with n show ?thesis
        by (simp add: get_current_user_def current_user_decision_def io_simps settled_env clean)
    next
      case access: True
      show ?thesis
      proof (cases "user_id_from_str (tp_subject p)")
        case (Inl x)
        with n access user_id_from_str_error [OF Inl] show ?thesis
          by (simp add: get_current_user_def current_user_decision_def token_owner_def io_simps
              settled_env clean)
      next
        case (Inr i)
        obtain s1 where "ur_get_by_id (uow_users U) i (store w) = (Inr (st_users ?st (uid_value i)), s1)"
            "ok s1" "view s1 = ?st" "durable s1 = ?st"
          using load_user [OF clean, of i] .
        with n access Inr show ?thesis
          by (auto simp: get_current_user_def current_user_decision_def token_owner_def io_simps
              settled_def clean_def split: option.split)
      qed
    qed
  qed
  then show "fst ?out = current_user_decision ?st (fst (ts_decode T tok (env w)))"
    and "settled ok view durable w ?st (snd ?out)"
    by blast+
qed

end

section \<open>Schemas\<close>

definition password_bounds :: "string \<Rightarrow> bool" where
  "password_bounds p \<longleftrightarrow> 8 \<le> length p \<and> length p \<le> 128"

record register_request =
  reg_email :: string
  reg_password :: string

definition parse_register_request ::
  "(string \<Rightarrow> string option) \<Rightarrow> string \<Rightarrow> string \<Rightarrow> register_request option" where
  "parse_register_request email_str email password =
     (case email_str email of
        None \<Rightarrow> None
      | Some e \<Rightarrow>
          if password_bounds password then Some \<lparr>reg_email = e, reg_password = password\<rparr> else None)"

record login_request =
  lgr_email :: string
  lgr_password :: string

definition parse_login_request ::
  "(string \<Rightarrow> string option) \<Rightarrow> string \<Rightarrow> string \<Rightarrow> login_request option" where
  "parse_login_request email_str email password =
     map_option (\<lambda>e. \<lparr>lgr_email = e, lgr_password = password\<rparr>) (email_str email)"

record refresh_request =
  rfr_refresh_token :: string

record logout_request =
  lor_refresh_token :: string

record change_password_request =
  chg_current_password :: string
  chg_new_password :: string

definition parse_change_password_request :: "string \<Rightarrow> string \<Rightarrow> change_password_request option" where
  "parse_change_password_request current new =
     (if password_bounds new then Some \<lparr>chg_current_password = current, chg_new_password = new\<rparr> else None)"

record user_response =
  urs_id :: uuid
  urs_email :: string
  urs_is_active :: bool
  urs_created_at :: datetime

definition user_response_of_view :: "user_view \<Rightarrow> user_response" where
  "user_response_of_view v =
     \<lparr>urs_id = uv_id v, urs_email = uv_email v, urs_is_active = uv_is_active v,
      urs_created_at = uv_created_at v\<rparr>"

record user_page_response =
  ups_items :: "user_response list"
  ups_next_cursor :: "string option"

record token_response =
  tok_access_token :: string
  tok_refresh_token :: string
  tok_token_type :: token_kind_literal

definition token_response_of :: "token_pair \<Rightarrow> token_response" where
  "token_response_of tokens =
     \<lparr>tok_access_token = pair_access_token tokens, tok_refresh_token = pair_refresh_token tokens,
      tok_token_type = pair_token_type tokens\<rparr>"

section \<open>The auth endpoints\<close>

definition register_endpoint ::
  "'s session \<Rightarrow> pwdlib \<Rightarrow> 'r rate_limiter \<Rightarrow> settings \<Rightarrow> client_request \<Rightarrow> register_request \<Rightarrow>
   (exn, ('s, 'r) world, user_response) io" where
  "register_endpoint S P L config request body =
     thenM (on_cache (rate_limit_auth L (set_rate_limit config) request))
     (bindM (create_user_handler S P \<lparr>cu_email = reg_email body, cu_password = reg_password body\<rparr>)
        (\<lambda>view. retM (user_response_of_view view)))"

definition login_endpoint ::
  "'s session \<Rightarrow> pyjwt \<Rightarrow> pwdlib \<Rightarrow> 'r rate_limiter \<Rightarrow> settings \<Rightarrow> client_request \<Rightarrow> login_request \<Rightarrow>
   (exn, ('s, 'r) world, token_response) io" where
  "login_endpoint S J P L config request body =
     thenM (on_cache (rate_limit_auth L (set_rate_limit config) request))
     (bindM (login_handler S J P config \<lparr>lc_email = lgr_email body, lc_password = lgr_password body\<rparr>)
        (\<lambda>tokens. retM (token_response_of tokens)))"

definition logout_endpoint ::
  "'s session \<Rightarrow> pyjwt \<Rightarrow> settings \<Rightarrow> logout_request \<Rightarrow> (exn, ('s, 'r) world, unit) io" where
  "logout_endpoint S J config body =
     logout_handler S J config \<lparr>lo_refresh_token = lor_refresh_token body\<rparr>"

definition refresh_endpoint ::
  "'s session \<Rightarrow> pyjwt \<Rightarrow> settings \<Rightarrow> refresh_request \<Rightarrow> (exn, ('s, 'r) world, token_response) io" where
  "refresh_endpoint S J config body =
     bindM (refresh_handler S J config \<lparr>rc_refresh_token = rfr_refresh_token body\<rparr>)
       (\<lambda>tokens. retM (token_response_of tokens))"

section \<open>The users endpoints\<close>

definition current_user ::
  "'s session \<Rightarrow> pyjwt \<Rightarrow> settings \<Rightarrow> string \<Rightarrow> (exn, ('s, 'r) world, user) io" where
  "current_user S J config credentials =
     get_current_user (provided_token_service J config) (sql_unit_of_work S) credentials"

definition change_password_endpoint ::
  "'s session \<Rightarrow> pyjwt \<Rightarrow> pwdlib \<Rightarrow> settings \<Rightarrow> string \<Rightarrow> change_password_request \<Rightarrow>
   (exn, ('s, 'r) world, unit) io" where
  "change_password_endpoint S J P config credentials body =
     bindM (current_user S J config credentials) (\<lambda>user.
     change_password_handler S P
       \<lparr>cp_user_id = uid_value (usr_id user), cp_current_password = chg_current_password body,
        cp_new_password = chg_new_password body\<rparr>)"

definition read_me_endpoint ::
  "'s session \<Rightarrow> pyjwt \<Rightarrow> settings \<Rightarrow> string \<Rightarrow> (exn, ('s, 'r) world, user_response) io" where
  "read_me_endpoint S J config credentials =
     bindM (current_user S J config credentials) (\<lambda>user.
     retM \<lparr>urs_id = uid_value (usr_id user), urs_email = email_value (usr_email user),
           urs_is_active = usr_is_active user, urs_created_at = usr_created_at user\<rparr>)"

definition get_user_endpoint ::
  "'s session \<Rightarrow> pyjwt \<Rightarrow> settings \<Rightarrow> string \<Rightarrow> uuid \<Rightarrow> (exn, ('s, 'r) world, user_response) io" where
  "get_user_endpoint S J config credentials user_id =
     thenM (bindM (current_user S J config credentials) (\<lambda>_. retM ()))
     (bindM (get_user_handler S \<lparr>gu_user_id = user_id\<rparr>) (\<lambda>view. retM (user_response_of_view view)))"

text \<open>\<^verbatim>\<open>Query(ge=1, le=100)\<close> bounds the limit before the handler clamps it.\<close>

definition list_limit_valid :: "int \<Rightarrow> bool" where
  "list_limit_valid limit \<longleftrightarrow> 1 \<le> limit \<and> limit \<le> 100"

definition list_users_endpoint ::
  "(nat list \<Rightarrow> uuid option) \<Rightarrow> 's session \<Rightarrow> pyjwt \<Rightarrow> settings \<Rightarrow> string \<Rightarrow> int \<Rightarrow> string option \<Rightarrow>
   (exn, ('s, 'r) world, user_page_response) io" where
  "list_users_endpoint wide S J config credentials limit cursor =
     thenM (bindM (current_user S J config credentials) (\<lambda>_. retM ()))
     (bindM (list_users_handler wide S \<lparr>lu_limit = limit, lu_cursor = cursor\<rparr>) (\<lambda>page.
      retM \<lparr>ups_items = map user_response_of_view (page_items page),
            ups_next_cursor = page_next_cursor page\<rparr>))"

section \<open>The health probes\<close>

definition liveness_endpoint :: "(exn, ('s, 'r) world, (string \<times> string) list) io" where
  "liveness_endpoint = retM [(''status'', ''ok'')]"

definition readiness_endpoint :: "'s session \<Rightarrow> (exn, ('s, 'r) world, (string \<times> string) list) io" where
  "readiness_endpoint S = thenM (on_store (se_ping S)) (retM [(''status'', ''ready'')])"

section \<open>Routes and their documented responses\<close>

datatype http_method = GET | POST | PUT

record route =
  route_method :: http_method
  route_path :: string
  route_status :: int
  route_rate_limited :: bool
  route_authenticated :: bool
  route_documented :: "int list"

definition api_prefix :: string where
  "api_prefix = ''/api/v1''"

definition auth_routes :: "route list" where
  "auth_routes =
     [\<lparr>route_method = POST, route_path = ''/auth/register'', route_status = 201,
       route_rate_limited = True, route_authenticated = False, route_documented = [409, 429]\<rparr>,
      \<lparr>route_method = POST, route_path = ''/auth/login'', route_status = 200,
       route_rate_limited = True, route_authenticated = False, route_documented = [401, 429]\<rparr>,
      \<lparr>route_method = POST, route_path = ''/auth/logout'', route_status = 204,
       route_rate_limited = False, route_authenticated = False, route_documented = [401]\<rparr>,
      \<lparr>route_method = POST, route_path = ''/auth/refresh'', route_status = 200,
       route_rate_limited = False, route_authenticated = False, route_documented = [401]\<rparr>]"

definition users_routes :: "route list" where
  "users_routes =
     map (\<lambda>r. r\<lparr>route_path := ''/users'' @ route_path r, route_documented := 401 # route_documented r\<rparr>)
     [\<lparr>route_method = PUT, route_path = ''/me/password'', route_status = 204,
       route_rate_limited = False, route_authenticated = True, route_documented = []\<rparr>,
      \<lparr>route_method = GET, route_path = ''/me'', route_status = 200,
       route_rate_limited = False, route_authenticated = True, route_documented = []\<rparr>,
      \<lparr>route_method = GET, route_path = ''/{user_id}'', route_status = 200,
       route_rate_limited = False, route_authenticated = True, route_documented = []\<rparr>,
      \<lparr>route_method = GET, route_path = [], route_status = 200,
       route_rate_limited = False, route_authenticated = True, route_documented = []\<rparr>]"

definition health_routes :: "route list" where
  "health_routes =
     [\<lparr>route_method = GET, route_path = ''/health'', route_status = 200,
       route_rate_limited = False, route_authenticated = False, route_documented = []\<rparr>,
      \<lparr>route_method = GET, route_path = ''/health/ready'', route_status = 200,
       route_rate_limited = False, route_authenticated = False, route_documented = []\<rparr>]"

definition api_routes :: "route list" where
  "api_routes =
     map (\<lambda>r. r\<lparr>route_path := api_prefix @ route_path r,
                route_documented := [422, 500] @ route_documented r\<rparr>)
       (health_routes @ auth_routes @ users_routes)"

text \<open>Routes are tried in their order: the literal \<^verbatim>\<open>/me\<close> is declared before the parameter
  \<^verbatim>\<open>/{user_id}\<close>, so it is not taken for a user id.\<close>

fun position :: "('a \<Rightarrow> bool) \<Rightarrow> 'a list \<Rightarrow> nat option" where
  "position P [] = None"
| "position P (x # xs) = (if P x then Some 0 else map_option Suc (position P xs))"

section \<open>What the protected endpoints do\<close>

lemma bearer_run:
  assumes "third_party S good pending disk J P matches known" and "quiet good pending disk w"
  obtains w' where "current_user S J config tok w = (current_user_decision (committed disk w)
      (fst (ts_decode (provided_token_service J config) tok (env w))), w')"
    and "leaves good pending disk w (committed disk w) w'"
  using auth_ports.current_user_refines [OF third_party.ports [OF assms(1)] assms(2), of config tok]
  by (metis current_user_def prod.collapse)

lemma get_user_decides:
  assumes "sqlalchemy_session S good pending disk"
    and "uow_ok good pending disk s" and "content pending s = content disk s"
  shows "case st_users (content disk s) i of
      None \<Rightarrow> raises (get_user_execute (sql_user_query_service wide S) \<lparr>gu_user_id = i\<rparr> s) (raised UserNotFoundError)
        (moved (uow_ok good pending disk) (content pending) (content disk) id s)
    | Some u \<Rightarrow> \<exists>v. view_of u v \<and> yields (get_user_execute (sql_user_query_service wide S) \<lparr>gu_user_id = i\<rparr> s) v
        (moved (uow_ok good pending disk) (content pending) (content disk) id s)"
  using user_query_laws.get_user_laws [OF sqlalchemy_session.fulfils_query_port [OF assms(1)] assms(2,3)] .

lemma get_user_endpoint_run:
  assumes "third_party S good pending disk J P matches known" and "quiet good pending disk w"
    and "current_user_decision (committed disk w)
      (fst (ts_decode (provided_token_service J config) tok (env w))) = Inr u"
  shows "case st_users (committed disk w) i of
      None \<Rightarrow> raises (get_user_endpoint S J config tok i w) (raised UserNotFoundError)
        (leaves good pending disk w (committed disk w))
    | Some v \<Rightarrow> \<exists>view. view_of v view \<and>
        yields (get_user_endpoint S J config tok i w) (user_response_of_view view)
          (leaves good pending disk w (committed disk w))"
proof -
  obtain w' where run: "current_user S J config tok w = (Inr u, w')"
      "leaves good pending disk w (committed disk w) w'"
    using bearer_run [OF assms(1,2)] assms(3) by metis
  have "quiet good pending disk w'" "committed disk w' = committed disk w"
    using run(2) by (simp_all add: settled_def)
  then have s: "uow_ok good pending disk (store w')" "content pending (store w') = content disk (store w')"
    "content disk (store w') = committed disk w"
    by (simp_all add: clean_def)
  have later: "leaves good pending disk w (committed disk w) (w'\<lparr>store := s'\<rparr>)"
    if "moved (uow_ok good pending disk) (content pending) (content disk) id (store w') s'" for s'
    using that run(2) by (simp add: moved_def settled_def clean_def)
  let ?get = "get_user_execute (sql_user_query_service Map.empty S) \<lparr>gu_user_id = i\<rparr>"
  have get: "get_user_endpoint S J config tok i w =
      bindM (on_store ?get) (\<lambda>view. retM (user_response_of_view view)) w'"
    using run by (simp add: get_user_endpoint_def get_user_handler_def io_simps)
  have "sqlalchemy_session S good pending disk"
    using assms(1) by (simp add: third_party_def)
  note laws = get_user_decides [OF this s(1,2), where i = i and wide = Map.empty, unfolded s(3)]
  show ?thesis
  proof (cases "st_users (committed disk w) i")
    case None
    then obtain s' where "?get (store w') = (Inl (raised UserNotFoundError), s')"
        "moved (uow_ok good pending disk) (content pending) (content disk) id (store w') s'"
      using laws by (auto elim!: raisesE)
    with None later show ?thesis
      by (simp add: get raises_def io_simps)
  next
    case (Some v)
    then obtain view s' where "?get (store w') = (Inr view, s')" "view_of v view"
        "moved (uow_ok good pending disk) (content pending) (content disk) id (store w') s'"
      using laws by (auto elim!: yieldsE)
    with Some later show ?thesis
      by (auto simp: get yields_def io_simps intro!: exI [of _ view])
  qed
qed

end
