(* ===== verification/Application.thy ===== *)
theory Application
  imports Container Endpoints
begin

text \<open>
  The application factory and the life of the process (\<^verbatim>\<open>app/main.py\<close>). What the factory does to the
  libraries is the list of its calls, in their order.
\<close>

section \<open>The application\<close>

record app_options =
  ap_title :: string
  ap_version :: string
  ap_debug :: bool
  ap_docs_url :: "string option"
  ap_redoc_url :: "string option"
  ap_openapi_url :: "string option"

datatype startup_call =
    Configure_Logging logging_config
  | Make_Container "factory list" settings
  | Make_App app_options
  | Setup_Dishka
  | Add_Middleware layer
  | Add_Exception_Handler handled_class
  | Include_Router "route list"
  | Configure_Telemetry telemetry_config

text \<open>\<open>installed\<close> is the version of the distribution, when it is installed.\<close>

definition app_version :: "string option \<Rightarrow> string" where
  "app_version installed = (case installed of None \<Rightarrow> ''0.0.0'' | Some v \<Rightarrow> v)"

definition app_options_of :: "string option \<Rightarrow> settings \<Rightarrow> app_options" where
  "app_options_of installed resolved =
     \<lparr>ap_title = app_name (set_app resolved),
      ap_version = app_version installed,
      ap_debug = app_debug (set_app resolved),
      ap_docs_url = (if is_production resolved then None else Some ''/docs''),
      ap_redoc_url = (if is_production resolved then None else Some ''/redoc''),
      ap_openapi_url = (if is_production resolved then None else Some ''/openapi.json'')\<rparr>"

definition register_exception_handlers :: "handled_class list" where
  "register_exception_handlers = [Handles_Domain, Handles_Validation, Handles_Http, Handles_All]"

definition startup_calls :: "string option \<Rightarrow> factory list \<Rightarrow> settings \<Rightarrow> startup_call list" where
  "startup_calls installed extra_providers resolved =
     [Configure_Logging (configure_logging resolved),
      Make_Container (create_container extra_providers) resolved,
      Make_App (app_options_of installed resolved),
      Setup_Dishka] @
     map Add_Middleware (setup_middleware resolved) @
     map Add_Exception_Handler register_exception_handlers @
     [Include_Router api_routes] @
     (if obs_enabled (set_observability resolved)
      then [Configure_Telemetry (configure_telemetry resolved)] else [])"

text \<open>\<open>given\<close> are the settings a caller passes, \<open>read\<close> what the environment holds and \<open>cached\<close> the memo of
  \<open>get_settings\<close>.\<close>

definition create_app ::
  "string option \<Rightarrow> string + settings \<Rightarrow> settings option \<Rightarrow> factory list \<Rightarrow> settings option \<Rightarrow>
   (string + startup_call list) \<times> settings option" where
  "create_app installed read given extra_providers cached =
     (case given of
        Some s \<Rightarrow> (Inr (startup_calls installed extra_providers s), cached)
      | None \<Rightarrow>
          (case get_settings read cached of
             (Inl e, c) \<Rightarrow> (Inl e, c)
           | (Inr s, c) \<Rightarrow> (Inr (startup_calls installed extra_providers s), c)))"

section \<open>The life of the process\<close>

definition environment_str :: "environment \<Rightarrow> string" where
  "environment_str e =
     (case e of Local \<Rightarrow> ''local'' | Test \<Rightarrow> ''test'' | Staging \<Rightarrow> ''staging'' | Production \<Rightarrow> ''production'')"

text \<open>\<open>serve\<close> is the time between start-up and shut-down, \<open>close\<close> the closing of the container.\<close>

definition lifespan ::
  "settings \<Rightarrow> (exn, env, unit) io \<Rightarrow> (exn, env, unit) io \<Rightarrow> (exn, env, unit) io" where
  "lifespan resolved serve close =
     thenM (log_at ''info'' ''app.startup''
              [(''app'', app_name (set_app resolved)),
               (''environment'', environment_str (set_environment resolved)),
               (''debug'', if app_debug (set_app resolved) then ''True'' else ''False'')])
     (thenM serve
     (thenM close
     (log_at ''info'' ''app.shutdown'' [(''app'', app_name (set_app resolved))])))"

section \<open>Production\<close>

text \<open>An application that starts from the environment in production is configured safely and does not publish
  its schema; its container and middleware come from the same settings.\<close>

lemma create_app_cases:
  "create_app installed (Inr s) None extra None =
     (if is_production s \<and> \<not> safe_for_production s
      then (Inl (''unsafe production configuration: '' @ join ''; '' (config_problems s)), None)
      else (Inr (startup_calls installed extra s), Some s))"
  by (auto simp: create_app_def get_settings_def settings_init_def reject_unsafe_production_config_def
      config_problems_empty [symmetric] Let_def)

lemma published_schema:
  "Make_App options \<in> set (startup_calls installed extra s) \<Longrightarrow>
     ap_openapi_url options = (if is_production s then None else Some ''/openapi.json'')"
  by (auto simp: startup_calls_def app_options_of_def)

end
