(* ===== verification/Data_Properties.thy ===== *)
theory Data_Properties
  imports Example_World Migration_Runner Application
begin

text \<open>
  The properties of the data the program keeps and exchanges: the unit of work and the session scope,
  rows and aggregates, value objects, tokens, cursors and pages, the production settings and the
  schema. Each witness evaluates its property on the reference libraries.
\<close>

section \<open>Persistence\<close>

text \<open>C19. The SQLAlchemy unit of work keeps the contract of the application's UnitOfWork port: over any session
  that behaves as SQLAlchemy documents, every repository call, commit and rollback does to the account
  store in the tables exactly what the port promises, and the store stays well formed.\<close>

theorem session_fulfils_port:
  assumes "sqlalchemy_session S good pending disk"
  shows "unit_of_work_laws (sql_unit_of_work S) (uow_ok good pending disk) (content pending) (content disk)"
  using sqlalchemy_session.fulfils_port [OF assms] .

lemma session_fulfils_port_witness:
  "unit_of_work_laws (sql_unit_of_work mem_session) (uow_ok mem_good mem_pending mem_disk)
    (content mem_pending) (content mem_disk)"
  by (rule session_fulfils_port [OF mem.sqlalchemy_session_axioms])

text \<open>C20. Whatever a request did and however it ended, leaving the session scope returns its outcome unchanged and
  discards what it did not commit: the session is back at the committed content.\<close>

theorem unfinished_request_leaves_nothing:
  assumes "sqlalchemy_session S good pending disk"
    and "m w = (r, w1)" and "good (store w1)"
  shows "\<exists>w2. with_session S m w = (r, w2) \<and> good (store w2) \<and>
    pending (store w2) = disk (store w1) \<and> disk (store w2) = disk (store w1) \<and>
    cache w2 = cache w1 \<and> env w2 = env w1"
  using sqlalchemy_session.session_close [OF assms(1,3)] assms(2)
  by (auto simp: with_session_def on_store_def elim!: yieldsE)

lemma unfinished_request_leaves_nothing_witness:
  "\<exists>w2. with_session mem_session (thenM (on_store (sql_user_add mem_session (alice\<lparr>usr_id := UserId 2\<rparr>)))
      (raiseM (raised InvalidTokenError))) example_world = (Inl (raised InvalidTokenError) :: exn + unit, w2) \<and>
    mem_pending (store w2) = mem_disk (store example_world)"
proof -
  let ?m = "thenM (on_store (sql_user_add mem_session (alice\<lparr>usr_id := UserId 2\<rparr>)))
      (raiseM (raised InvalidTokenError)) :: (exn, (mem_state, unit) world, unit) io"
  let ?w1 = "example_world\<lparr>store := \<lparr>ms_pending = example_tables\<lparr>tb_users := tb_users example_tables @
      [user_to_model (alice\<lparr>usr_id := UserId 2\<rparr>)]\<rparr>, ms_disk = example_tables\<rparr>\<rparr>"
  have run: "?m example_world = (Inl (raised InvalidTokenError), ?w1)"
    by (simp add: io_simps sql_user_add_def mem_session_def mem_write_def example_world_def)
  have "mem_good (store ?w1)"
    by (simp add: mem_good_def keyed_def example_tables_def user_to_model_def alice_def
        token_to_model_def live_record_def used_record_def)
  from unfinished_request_leaves_nothing [OF mem.sqlalchemy_session_axioms, of ?m, OF run this]
  obtain w2 where w2: "with_session mem_session ?m example_world = (Inl (raised InvalidTokenError), w2)"
      "mem_pending (store w2) = mem_disk (store ?w1)"
    by blast
  have "mem_disk (store ?w1) = mem_disk (store example_world)"
    by (simp add: mem_disk_def example_world_def)
  then have "mem_pending (store w2) = mem_disk (store example_world)"
    using w2(2) by (rule trans [rotated])
  with w2(1) show ?thesis
    by (intro exI [of _ w2] conjI)
qed

text \<open>C21. A user and a refresh-token record survive the way to their rows and back, for every way a dialect may
  return the stored datetimes (with their zone as Postgres, without it as SQLite).\<close>

theorem rows_roundtrip:
  assumes "user_wf u" and "user_row_reads (user_to_model u) m"
    and "token_wf r" and "token_row_reads (token_to_model r) n"
  shows "user_to_domain m = Inr (stored u) \<and> token_to_domain n = r"
  using assms by (simp add: user_mapper_roundtrip token_mapper_roundtrip)

lemma rows_roundtrip_witness:
  "user_to_domain (read_user (user_to_model alice)) = Inr (stored alice) \<and>
   token_to_domain (read_token (token_to_model used_record)) = used_record"
  by (rule rows_roundtrip [OF alice_wf(1) read_user_reads _ read_token_reads])
     (simp add: token_wf_def used_record_def)

section \<open>Value objects\<close>

text \<open>C22. An email address is accepted exactly when its stripped, lower-cased form is a non-empty local part, one
  @, and a domain with an inner dot, without white space or further @; the normal form is what is stored,
  it is accepted again unchanged, and anything else is a ValidationError that quotes the input.\<close>

theorem email_normal_form:
  "email_new raw =
     (if \<exists>l d t. lower (strip raw) = l @ CHR ''@'' # d @ CHR ''.'' # t \<and>
          l \<noteq> [] \<and> d \<noteq> [] \<and> t \<noteq> [] \<and>
          list_all address_char l \<and> list_all address_char d \<and> list_all address_char t
      then Inr (Email (lower (strip raw)))
      else Inl (Domain ValidationError (''Invalid email address: '' @ repr_str raw))) \<and>
   (case email_new raw of Inl _ \<Rightarrow> True | Inr e \<Rightarrow> email_new (email_value e) = Inr e)"
proof -
  have "email_new raw = (if re_match email_re (lower (strip raw)) then Inr (Email (lower (strip raw)))
      else Inl (Domain ValidationError (''Invalid email address: '' @ repr_str raw)))"
    by (simp add: email_new_def Let_def)
  then show ?thesis
    unfolding email_re_stripped [OF lower_strip_ends]
    by (auto simp: email_new_Inr_iff email_re_stripped [OF lower_strip_ends] split: sum.split)
qed

section \<open>Tokens\<close>

text \<open>C23. A token issued by the service, of either type, decodes to its subject, type and identifier from the
  second it was issued in until its expiry, and raises TokenExpiredError from then on; whatever text is
  decoded, the only errors are InvalidTokenError and TokenExpiredError.\<close>

theorem token_roundtrip:
  assumes "pyjwt_library J"
    and "jwt_encode_token J settings C subject ty j lifetime e = (Inr it, e')" and "0 \<le> lifetime"
    and "int_timestamp (dt_add (it_expires_at it) (- lifetime)) * us_per_second
      \<le> timestamp_us (clock_feed e2 (clock_reads e2))"
  shows "fst (jwt_decode J settings (it_token it) e2) =
    (if timestamp_us (clock_feed e2 (clock_reads e2)) < int_timestamp (it_expires_at it) * us_per_second
     then Inr \<lparr>tp_subject = subject, tp_token_type = ty, tp_token_id = j\<rparr>
     else Inl (raised TokenExpiredError)) \<and>
    (case fst (jwt_decode J settings token e2) of
       Inl x \<Rightarrow> x = raised InvalidTokenError \<or> x = raised TokenExpiredError | Inr _ \<Rightarrow> True)"
  using pyjwt_library.jwt_decode_encoded [OF assms(1,2), of e2]
    pyjwt_library.jwt_decode_expired [OF assms(1-3), of e2] assms(4)
    pyjwt_library.jwt_decode_raises [OF assms(1), of settings token e2]
  by (auto simp: jwt_fresh_def Let_def split: sum.split)

lemma token_roundtrip_witness:
  "\<exists>it e'. jwt_encode_token ref_pyjwt default_jwt_settings system_clock ''alice'' Access 3
      (timedelta_minutes 15) example_env = (Inr it, e') \<and>
    fst (jwt_decode ref_pyjwt default_jwt_settings (it_token it) example_env) =
      Inr \<lparr>tp_subject = ''alice'', tp_token_type = Access, tp_token_id = 3\<rparr>"
proof -
  obtain it e' where run: "jwt_encode_token ref_pyjwt default_jwt_settings system_clock ''alice'' Access 3
      (timedelta_minutes 15) example_env = (Inr it, e')"
    and it: "it_expires_at it = dt_add (utc (1000 * us_per_second)) (timedelta_minutes 15)"
    by (simp add: jwt_encode_token_def io_simps system_clock_def example_env_def Let_def)
  have now: "timestamp_us (clock_feed example_env (clock_reads example_env)) = 1000 * us_per_second"
    by (simp add: example_env_def timestamp_us_def utc_def)
  have "0 \<le> timedelta_minutes 15"
      "int_timestamp (dt_add (it_expires_at it) (- timedelta_minutes 15)) * us_per_second
        \<le> timestamp_us (clock_feed example_env (clock_reads example_env))"
      "timestamp_us (clock_feed example_env (clock_reads example_env)) <
        int_timestamp (it_expires_at it) * us_per_second"
    unfolding it dt_add_cancel now
    by (simp_all add: int_timestamp_def timestamp_us_def utc_def dt_add_def timedelta_minutes_def
        us_per_second_def)
  with token_roundtrip [OF ref_jwt.pyjwt_library_axioms run, of example_env] run show ?thesis
    by auto
qed

section \<open>Pages\<close>

text \<open>C24. A pagination cursor decodes to the user id it was made from, and a listing with a text that is no cursor
  is refused with one fixed ValidationError before the database is asked.\<close>

theorem cursor_text:
  "decode_cursor wide (encode_cursor u) = Inr u \<and>
   (case decode_cursor wide c of
      Inl x \<Rightarrow> sql_query_list wide S limit (Some c) s =
        (Inl (Domain ValidationError ''Invalid pagination cursor.''), s)
    | Inr _ \<Rightarrow> True)"
  using decode_cursor_error [of wide c]
  by (auto simp: cursor_roundtrip sql_query_list_def io_simps split: sum.split)

text \<open>C25. Pagination is complete and terminates: a client that follows the cursors from the start, with any page
  size it asks for, gets every user exactly once, in the order of the ids, and no cursor after the last
  page; as many pages as users plus one are enough.\<close>

theorem pagination_complete:
  assumes "sqlalchemy_session S good pending disk"
    and "uow_ok good pending disk s" and "content pending s = content disk s"
    and "listing (content disk s) None us"
  shows "\<exists>vs. list_all2 view_of us vs \<and>
    yields (list_all_pages (sql_user_query_service wide S) limit (Suc (length us)) None s) (Some vs)
      (moved (uow_ok good pending disk) (content pending) (content disk) id s)"
  using user_query_laws.all_pages [OF sqlalchemy_session.fulfils_query_port [OF assms(1)] assms(2,3),
      where cursor = None and after = None and us = us and n = "Suc (length us)" and limit = limit and wide = wide] assms(4)
  by simp

lemma pagination_complete_witness:
  "\<exists>v s'. list_all_pages (sql_user_query_service Map.empty mem_session) 1 2 None (store example_world) =
      (Inr (Some [v]), s') \<and> uv_email v = ''alice@example.com''"
proof -
  have "listing (content mem_disk (store example_world)) None [alice]"
    by (auto simp: listing_def example_clean(2) split: if_splits)
  moreover have "uow_ok mem_good mem_pending mem_disk (store example_world)"
      "content mem_pending (store example_world) = content mem_disk (store example_world)"
    using example_clean(1) by (simp_all add: clean_def)
  ultimately have "\<exists>vs. list_all2 view_of [alice] vs \<and>
      yields (list_all_pages (sql_user_query_service Map.empty mem_session) 1 2 None (store example_world)) (Some vs)
        (moved (uow_ok mem_good mem_pending mem_disk) (content mem_pending) (content mem_disk) id (store example_world))"
    using pagination_complete [OF mem.sqlalchemy_session_axioms, where s = "store example_world" and us = "[alice]" and wide = Map.empty and limit = 1]
    by (simp add: numeral_2_eq_2 del: list_all_pages.simps)
  then show ?thesis
    by (auto elim!: yieldsE simp: list_all2_Cons1 view_of_def alice_def simp del: list_all_pages.simps)
qed

section \<open>Settings and schema\<close>

text \<open>C26. The settings validator lets a configuration pass unchanged exactly when it is not a production one or is
  safe for production (own secret of at least 32 bytes, no debug, no wildcard origins or hosts), and else
  names every problem; the defaults pass outside production and are unsafe in it. So the application does
  not start from an unsafe production environment, and in production it does not publish its schema.\<close>

theorem unsafe_production_refused:
  "(case get_settings (Inr s) None of
      (Inr t, cached) \<Rightarrow> t = s \<and> (is_production s \<longrightarrow> safe_for_production s) \<and>
        get_settings read cached = (Inr s, cached)
    | (Inl message, cached) \<Rightarrow> is_production s \<and> \<not> safe_for_production s \<and> cached = None \<and>
        message = ''unsafe production configuration: '' @ join ''; '' (config_problems s)) \<and>
   reject_unsafe_production_config default_settings = Inr default_settings \<and>
   \<not> safe_for_production default_settings \<and>
   create_app installed (Inr s) None extra None =
     (if is_production s \<and> \<not> safe_for_production s
      then (Inl (''unsafe production configuration: '' @ join ''; '' (config_problems s)), None)
      else (Inr (startup_calls installed extra s), Some s)) \<and>
   (Make_App options \<in> set (startup_calls installed extra s) \<longrightarrow>
     ap_openapi_url options = (if is_production s then None else Some ''/openapi.json''))"
proof (intro conjI impI)
  show "case get_settings (Inr s) None of
      (Inr t, cached) \<Rightarrow> t = s \<and> (is_production s \<longrightarrow> safe_for_production s) \<and>
        get_settings read cached = (Inr s, cached)
    | (Inl message, cached) \<Rightarrow> is_production s \<and> \<not> safe_for_production s \<and> cached = None \<and>
        message = ''unsafe production configuration: '' @ join ''; '' (config_problems s)"
    by (auto simp: get_settings_def settings_init_def reject_unsafe_production_config_def
        config_problems_empty [symmetric] Let_def)
qed (use published_schema [of options installed extra s] in
    \<open>auto simp: create_app_cases reject_unsafe_production_config_def is_production_def default_settings_def
       config_problems_empty [symmetric] config_problems_def default_jwt_settings_def Let_def\<close>)

lemma unsafe_production_refused_witness:
  "get_settings (Inr (default_settings\<lparr>set_environment := Production\<rparr>)) None =
    (Inl ''unsafe production configuration: JWT__SECRET is still the insecure default; APP__ALLOWED_HOSTS must list explicit hosts'', None)"
proof -
  let ?s = "default_settings\<lparr>set_environment := Production\<rparr>"
  have p: "is_production ?s"
    by (simp add: is_production_def)
  have "config_problems ?s = [''JWT__SECRET is still the insecure default'',
      ''APP__ALLOWED_HOSTS must list explicit hosts'']"
    by code_simp
  moreover obtain r c where run: "get_settings (Inr ?s) None = (r, c)"
    by (cases "get_settings (Inr ?s) None")
  ultimately show ?thesis
    using unsafe_production_refused [of ?s "Inr ?s"] p
    by (cases r) (simp_all add: config_problems_empty [symmetric])
qed




end
