(* ===== verification/Answers.thy ===== *)
theory Answers
  imports Endpoints
begin

text \<open>
  Which errors the handlers can end with, by the status their answer gets, and what every request leaves
  untouched. \<open>fails_with E\<close> says that an outcome is a result or an error answered with a status of \<open>E\<close>.
\<close>

section \<open>Errors by status\<close>

definition fails_with :: "int set \<Rightarrow> (exn + 'a) \<times> 'w \<Rightarrow> bool" where
  "fails_with E out = (case fst out of Inl x \<Rightarrow> status_of x \<in> E | Inr _ \<Rightarrow> True)"

lemma fails_with_yields: "yields out x Q \<Longrightarrow> fails_with E out"
  by (simp add: fails_with_def yields_def)

lemma fails_with_raises: "raises out x Q \<Longrightarrow> fails_with E out = (status_of x \<in> E)"
  by (simp add: fails_with_def raises_def)

lemma fails_with_mono: "fails_with E out \<Longrightarrow> E \<subseteq> F \<Longrightarrow> fails_with F out"
  by (auto simp: fails_with_def split: sum.splits)

lemma fails_with_bind:
  assumes "fails_with E (m w)" and "\<And>x w'. m w = (Inr x, w') \<Longrightarrow> fails_with E (f x w')"
  shows "fails_with E (bindM m f w)"
  using assms by (cases "m w") (auto simp: fails_with_def bindM_def split: sum.splits)

lemma invalid_token_status: "is_domain InvalidTokenError x \<Longrightarrow> status_of x = 401"
  by (cases x; cases "case x of Domain c m \<Rightarrow> c | _ \<Rightarrow> DomainError") (auto simp: domain_subclass_def)

lemma validation_status: "is_domain ValidationError x \<Longrightarrow> status_of x = 422"
  by (cases x; cases "case x of Domain c m \<Rightarrow> c | _ \<Rightarrow> DomainError") (auto simp: domain_subclass_def)

lemma refused_decision_status:
  assumes "refresh_decision st d now = Refused x" and "\<And>y. d = Inl y \<Longrightarrow> status_of y = 401"
  shows "status_of x = 401"
  using assms by (auto simp: refresh_decision_def split: sum.splits if_splits option.splits)

lemma user_decision_status:
  assumes "current_user_decision st d = Inl x" and "\<And>y. d = Inl y \<Longrightarrow> status_of y = 401"
  shows "status_of x = 401"
  using assms by (auto simp: current_user_decision_def split: sum.splits if_splits option.splits)

section \<open>What leaves the cache alone\<close>

named_theorems keeps_cache

definition same_cache :: "(exn, ('s, 'r) world, 'a) io \<Rightarrow> bool" where
  "same_cache m \<longleftrightarrow> (\<forall>w. cache (snd (m w)) = cache w)"

lemma same_cacheD: "same_cache m \<Longrightarrow> cache (snd (m w)) = cache w"
  by (simp add: same_cache_def)

lemma same_cache_steps [keeps_cache]:
  "same_cache (retM x)" "same_cache (raiseM e)" "same_cache (liftM r)" "same_cache (on_store f)"
  "same_cache (on_env g)"
  by (simp_all add: same_cache_def io_simps split: prod.split)

lemma same_cache_bind [keeps_cache]:
  "same_cache m \<Longrightarrow> (\<And>x. same_cache (f x)) \<Longrightarrow> same_cache (bindM m f)"
  by (simp add: same_cache_def bindM_def split: prod.split sum.split) (metis snd_conv)

lemma same_cache_then [keeps_cache]: "same_cache m \<Longrightarrow> same_cache k \<Longrightarrow> same_cache (thenM m k)"
  unfolding thenM_def by (rule same_cache_bind)

lemma same_cache_try [keeps_cache]:
  "same_cache m \<Longrightarrow> (\<And>x. same_cache (h x)) \<Longrightarrow> same_cache (tryM m h)"
  by (simp add: same_cache_def tryM_def split: prod.split sum.split) (metis snd_conv)

lemma same_cache_if [keeps_cache]: "same_cache a \<Longrightarrow> same_cache b \<Longrightarrow> same_cache (if P then a else b)"
  by simp

lemma same_cache_option [keeps_cache]:
  "same_cache a \<Longrightarrow> (\<And>x. same_cache (f x)) \<Longrightarrow> same_cache (case found of None \<Rightarrow> a | Some x \<Rightarrow> f x)"
  by (cases found) auto

lemma same_cache_bool [keeps_cache]: "same_cache a \<Longrightarrow> same_cache b \<Longrightarrow> same_cache (case t of True \<Rightarrow> a | False \<Rightarrow> b)"
  by (cases t) auto

lemma same_cache_pair [keeps_cache]: "(\<And>x y. same_cache (f x y)) \<Longrightarrow> same_cache (case p of (x, y) \<Rightarrow> f x y)"
  by (cases p) auto

lemma handlers_keep_cache:
  "same_cache (login_execute U H T lc)" "same_cache (refresh_execute U T C rc)"
  "same_cache (logout_execute U T C oc)" "same_cache (create_user_execute U H C D cc)"
  "same_cache (change_password_execute U H C pc)" "same_cache (get_current_user T U tok)"
  unfolding login_execute_def refresh_execute_def logout_execute_def create_user_execute_def
    change_password_execute_def get_current_user_def Let_def
  by (intro keeps_cache)+

section \<open>The errors of the handlers\<close>

context auth_ports
begin

lemma decode_status: "fst (ts_decode T tok e) = Inl x \<Longrightarrow> status_of x = 401"
  using decode_errors invalid_token_status by blast

lemma refresh_fails:
  assumes "clean ok view durable w" and "fresh_ids (durable (store w)) (env w)"
  shows "fails_with {401} (refresh_execute U T C \<lparr>rc_refresh_token = tok\<rparr> w)"
proof -
  obtain now where now: "refresh_now T C tok w = Inr now"
    using some_now [OF assms(1)] .
  have new: "st_tokens (durable (store w)) (next_uuid (env w)) = None"
    using assms(2) by (simp add: fresh_ids_def)
  show ?thesis
    using refresh_refines [OF assms(1) now new] refused_decision_status decode_status
    by (cases "refresh_decision (durable (store w)) (fst (ts_decode T tok (env w))) now")
       (auto simp: refresh_outcome_def fails_with_raises dest: fails_with_yields)
qed

lemma logout_fails:
  assumes "clean ok view durable w"
  shows "fails_with {401} (logout_execute U T C \<lparr>lo_refresh_token = tok\<rparr> w)"
  using logout_refines [OF assms, of tok] decode_status
  by (auto simp: logout_outcome_def logout_target_def fails_with_raises dest: fails_with_yields
      split: sum.splits if_splits option.splits)

lemma login_fails:
  assumes "clean ok view durable w" and "all_known known (durable (store w))"
    and "fresh_ids (durable (store w)) (env w)"
  shows "fails_with {401} (login_execute U H T c w)"
proof (cases "email_new (lc_email c)")
  case (Inl x)
  then show ?thesis by (simp add: login_malformed fails_with_def)
next
  case (Inr em)
  have new: "st_tokens (durable (store w)) (next_uuid (env w)) = None"
    using assms(3) by (simp add: fresh_ids_def)
  show ?thesis
    using login_refused [OF assms(1,2) Inr] login_succeeds [OF assms(1,2) _ new, of c]
    by (cases "\<exists>u. login_user matches (durable (store w)) c u")
       (auto simp: fails_with_raises dest: fails_with_yields)
qed

lemma change_password_fails:
  assumes "clean ok view durable w" and "all_known known (durable (store w))"
    and "st_users (durable (store w)) (cp_user_id c) \<noteq> None"
  shows "fails_with {401} (change_password_execute U H C c w)"
proof -
  obtain u where u: "st_users (durable (store w)) (cp_user_id c) = Some u"
    using assms(3) by blast
  then have "known (hp_value (usr_hashed_password u))"
    using assms(2) by (auto simp: all_known_def)
  from change_password_wrong_current [OF assms(1) u this] change_password_succeeds [OF assms(1) u this]
  show ?thesis
    by (cases "matches (cp_current_password c) (hp_value (usr_hashed_password u))")
       (auto simp: fails_with_raises dest: fails_with_yields)
qed

lemma create_user_fails:
  assumes "clean ok view durable w" and "fresh_ids (durable (store w)) (env w)"
    and len: "\<And>em. email_new (cu_email c) = Inr em \<Longrightarrow> length (email_value em) \<le> 320"
    and D: "\<And>events e. \<exists>e'. D events e = (Inr (), e')"
  shows "fails_with {409, 422} (create_user_execute U H C D c w)"
proof (cases "email_new (cu_email c)")
  case (Inl x)
  then show ?thesis
    using validation_status [of x] email_new_Inl [OF Inl]
    by (simp add: create_user_invalid_email fails_with_def)
next
  case (Inr em)
  show ?thesis
  proof (cases "email_taken (durable (store w)) em")
    case True
    from create_user_duplicate [OF assms(1) Inr True, where D = D] show ?thesis
      by (simp add: fails_with_raises)
  next
    case False
    have new: "st_users (durable (store w)) (next_uuid (env w)) = None"
      using assms(2) by (simp add: fresh_ids_def)
    obtain u :: user and w' where run: "create_user_execute U H C D c w =
        thenM (on_env (D [UserRegistered (next_uuid (env w)) (email_value em) (usr_created_at u)]))
          (retM \<lparr>uv_id = next_uuid (env w), uv_email = email_value em, uv_is_active = True,
                 uv_created_at = usr_created_at u\<rparr>) w'"
      using create_user_registers [OF assms(1) Inr len [OF Inr] False new, where D = D] by (elim exE conjE) (rule that)
    obtain e' where "D [UserRegistered (next_uuid (env w)) (email_value em) (usr_created_at u)] (env w') =
        (Inr (), e')"
      using D by blast
    then show ?thesis
      unfolding run by (simp add: fails_with_def io_simps)
  qed
qed

lemma current_user_fails:
  assumes "clean ok view durable w"
  shows "fails_with {401} (get_current_user T U tok w)"
  using current_user_refines(1) [OF assms, of tok] user_decision_status decode_status
  by (auto simp: fails_with_def split: sum.split)

end

section \<open>What is known of the stored hashes\<close>

text \<open>Every hash that a request stores comes from the hasher; most requests store none.\<close>

lemma all_known_kept:
  assumes "all_known known st" and "st_users st' = st_users st"
  shows "all_known known st'"
  using assms by (simp add: all_known_def)

lemma all_known_put:
  assumes "all_known known st" and "known (hp_value (usr_hashed_password u))"
  shows "all_known known (put_user u st)"
  using assms by (auto simp: all_known_def stored_def split: if_splits)

context auth_ports
begin

lemma refresh_keeps_users:
  assumes clean: "clean ok view durable w" and ids: "fresh_ids (durable (store w)) (env w)"
  shows "st_users (durable (store (snd (refresh_execute U T C \<lparr>rc_refresh_token = tok\<rparr> w)))) =
    st_users (durable (store w))"
proof -
  obtain now where now: "refresh_now T C tok w = Inr now"
    using some_now [OF clean] .
  have new: "st_tokens (durable (store w)) (next_uuid (env w)) = None"
    using ids by (simp add: fresh_ids_def)
  show ?thesis
    using refresh_refines [OF clean now new]
    by (cases "refresh_decision (durable (store w)) (fst (ts_decode T tok (env w))) now")
       (auto simp: refresh_outcome_def raises_def yields_def settled_def rotate_def revoke_family_def)
qed

lemma logout_keeps_users:
  assumes "clean ok view durable w"
  shows "st_users (durable (store (snd (logout_execute U T C \<lparr>lo_refresh_token = tok\<rparr> w)))) =
    st_users (durable (store w))"
  using logout_refines [OF assms, of tok]
  by (auto simp: logout_outcome_def raises_def yields_def settled_def revoke_family_def
      split: sum.splits option.splits)

lemma login_keeps_users:
  assumes "clean ok view durable w" and "all_known known (durable (store w))"
    and "fresh_ids (durable (store w)) (env w)"
  shows "st_users (durable (store (snd (login_execute U H T c w)))) = st_users (durable (store w))"
proof (cases "email_new (lc_email c)")
  case (Inl x)
  then show ?thesis by (simp add: login_malformed)
next
  case (Inr em)
  have new: "st_tokens (durable (store w)) (next_uuid (env w)) = None"
    using assms(3) by (simp add: fresh_ids_def)
  show ?thesis
  proof (cases "\<exists>u. login_user matches (durable (store w)) c u")
    case False
    with login_refused [OF assms(1,2) Inr] show ?thesis
      by (simp add: raises_def settled_def)
  next
    case True
    then obtain u where "login_user matches (durable (store w)) c u" ..
    from login_succeeds [OF assms(1,2) this new] show ?thesis
      by (auto simp: yields_def settled_def)
  qed
qed

lemma change_password_keeps_known:
  assumes "clean ok view durable w" and "all_known known (durable (store w))"
  shows "all_known known (durable (store (snd (change_password_execute U H C c w))))"
proof (cases "st_users (durable (store w)) (cp_user_id c)")
  case None
  with change_password_unknown_user [OF assms(1) None] assms(2) show ?thesis
    by (simp add: raises_def settled_def)
next
  case (Some u)
  then have k: "known (hp_value (usr_hashed_password u))"
    using assms(2) by (auto simp: all_known_def)
  show ?thesis
  proof (cases "matches (cp_current_password c) (hp_value (usr_hashed_password u))")
    case False
    with change_password_wrong_current [OF assms(1) Some k] assms(2) show ?thesis
      by (simp add: raises_def settled_def)
  next
    case True
    obtain h now where h: "known h" "durable (store (snd (change_password_execute U H C c w))) =
        revoke_where (\<lambda>r. rt_user_id r = usr_id u) now
          (put_user (user_change_password (HashedPassword h) u) (durable (store w)))"
      using change_password_succeeds [OF assms(1) Some k True] by (auto simp: yields_def settled_def)
    have "all_known known (put_user (user_change_password (HashedPassword h) u) (durable (store w)))"
      using h(1) by (intro all_known_put assms(2)) (simp add: user_change_password_def)
    then show ?thesis
      unfolding h(2) by (rule all_known_kept) simp
  qed
qed

lemma create_user_keeps_known:
  assumes "clean ok view durable w" and "fresh_ids (durable (store w)) (env w)"
    and "all_known known (durable (store w))"
    and len: "\<And>em. email_new (cu_email c) = Inr em \<Longrightarrow> length (email_value em) \<le> 320"
  shows "all_known known (durable (store (snd (create_user_execute U H C D c w))))"
proof (cases "email_new (cu_email c)")
  case (Inl x)
  then show ?thesis
    using assms(3) by (simp add: create_user_invalid_email)
next
  case (Inr em)
  show ?thesis
  proof (cases "email_taken (durable (store w)) em")
    case True
    from create_user_duplicate [OF assms(1) Inr True, where D = D] assms(3) show ?thesis
      by (simp add: raises_def settled_def)
  next
    case False
    have new: "st_users (durable (store w)) (next_uuid (env w)) = None"
      using assms(2) by (simp add: fresh_ids_def)
    obtain u :: user and w' where u: "known (hp_value (usr_hashed_password u))"
      and w': "durable (store w') = put_user u (durable (store w))"
      and run: "create_user_execute U H C D c w =
        thenM (on_env (D [UserRegistered (next_uuid (env w)) (email_value em) (usr_created_at u)]))
          (retM \<lparr>uv_id = next_uuid (env w), uv_email = email_value em, uv_is_active = True,
                 uv_created_at = usr_created_at u\<rparr>) w'"
      using create_user_registers [OF assms(1) Inr len [OF Inr] False new, where D = D]
      unfolding settled_def by (elim exE conjE) (rule that)
    have "store (snd (create_user_execute U H C D c w)) = store w'"
      unfolding run by (auto simp: io_simps split: prod.split sum.split)
    then show ?thesis
      using all_known_put [OF assms(3) u] by (simp add: w')
  qed
qed

end

end
