(* ===== verification/Http_Api.thy ===== *)
theory Http_Api
  imports Answers
begin

text \<open>
  The API as a whole: a request with its dependencies, the validation of its fields, the endpoint, and
  the answer. FastAPI resolves the dependencies of a route before it reports fields that fail their
  schema, and calls the endpoint only then; Starlette answers the registered exceptions inside the
  request's scope and everything else outside it, after the scope, and with it the session, is closed.
\<close>

section \<open>Requests\<close>

text \<open>The fields a client sends, before validation; \<^verbatim>\<open>Authorization\<close> headers as they are.\<close>

datatype api_request =
    Get_Health
  | Get_Ready
  | Post_Register client_request string string
  | Post_Login client_request string string
  | Post_Logout string
  | Post_Refresh string
  | Put_Password "string option" string string
  | Get_Me "string option"
  | Get_User "string option" uuid
  | Get_Users "string option" int "string option"

fun request_line :: "api_request \<Rightarrow> http_method \<times> string" where
  "request_line Get_Health = (GET, ''/api/v1/health'')"
| "request_line Get_Ready = (GET, ''/api/v1/health/ready'')"
| "request_line (Post_Register r e p) = (POST, ''/api/v1/auth/register'')"
| "request_line (Post_Login r e p) = (POST, ''/api/v1/auth/login'')"
| "request_line (Post_Logout t) = (POST, ''/api/v1/auth/logout'')"
| "request_line (Post_Refresh t) = (POST, ''/api/v1/auth/refresh'')"
| "request_line (Put_Password h c n) = (PUT, ''/api/v1/users/me/password'')"
| "request_line (Get_Me h) = (GET, ''/api/v1/users/me'')"
| "request_line (Get_User h i) = (GET, ''/api/v1/users/{user_id}'')"
| "request_line (Get_Users h l c) = (GET, ''/api/v1/users'')"

definition route_of :: "api_request \<Rightarrow> route option" where
  "route_of request =
     find (\<lambda>r. (route_method r, route_path r) = request_line request) api_routes"

section \<open>Endpoints with their dependencies\<close>

datatype api_content =
    Probe_Content "(string \<times> string) list"
  | User_Content user_response
  | Page_Content user_page_response
  | Token_Content token_response
  | No_Content

text \<open>What the application runs on: the libraries, the settings, and FastAPI's parts: \<open>sv_bearer\<close> is
  \<^verbatim>\<open>HTTPBearer\<close> on the \<^verbatim>\<open>Authorization\<close> header, \<open>sv_issues\<close> pydantic's report on a request that fails its
  schema.\<close>

record ('s, 'r) services =
  sv_session :: "'s session"
  sv_pyjwt :: pyjwt
  sv_pwdlib :: pwdlib
  sv_limiter :: "'r rate_limiter"
  sv_settings :: settings
  sv_email_str :: "string \<Rightarrow> string option"
  sv_wide :: "nat list \<Rightarrow> uuid option"
  sv_bearer :: "string option \<Rightarrow> exn + string"
  sv_issues :: "api_request \<Rightarrow> issue list"

abbreviation sv_current_user ::
  "('s, 'r) services \<Rightarrow> string \<Rightarrow> (exn, ('s, 'r) world, user) io" where
  "sv_current_user V \<equiv> current_user (sv_session V) (sv_pyjwt V) (sv_settings V)"

abbreviation limited :: "('s, 'r) services \<Rightarrow> client_request \<Rightarrow> (exn, ('s, 'r) world, unit) io" where
  "limited V request \<equiv>
     on_cache (rate_limit_auth (sv_limiter V) (set_rate_limit (sv_settings V)) request)"

fun call_endpoint :: "('s, 'r) services \<Rightarrow> api_request \<Rightarrow> (exn, ('s, 'r) world, api_content) io" where
  "call_endpoint V Get_Health = bindM liveness_endpoint (\<lambda>c. retM (Probe_Content c))"
| "call_endpoint V Get_Ready = bindM (readiness_endpoint (sv_session V)) (\<lambda>c. retM (Probe_Content c))"
| "call_endpoint V (Post_Register request email password) =
     (case parse_register_request (sv_email_str V) email password of
        None \<Rightarrow> thenM (limited V request)
          (raiseM (Request_Validation (sv_issues V (Post_Register request email password))))
      | Some body \<Rightarrow>
          bindM (register_endpoint (sv_session V) (sv_pwdlib V) (sv_limiter V) (sv_settings V) request body)
            (\<lambda>u. retM (User_Content u)))"
| "call_endpoint V (Post_Login request email password) =
     (case parse_login_request (sv_email_str V) email password of
        None \<Rightarrow> thenM (limited V request)
          (raiseM (Request_Validation (sv_issues V (Post_Login request email password))))
      | Some body \<Rightarrow>
          bindM (login_endpoint (sv_session V) (sv_pyjwt V) (sv_pwdlib V) (sv_limiter V) (sv_settings V)
                  request body)
            (\<lambda>t. retM (Token_Content t)))"
| "call_endpoint V (Post_Logout token) =
     thenM (logout_endpoint (sv_session V) (sv_pyjwt V) (sv_settings V) \<lparr>lor_refresh_token = token\<rparr>)
       (retM No_Content)"
| "call_endpoint V (Post_Refresh token) =
     bindM (refresh_endpoint (sv_session V) (sv_pyjwt V) (sv_settings V) \<lparr>rfr_refresh_token = token\<rparr>)
       (\<lambda>t. retM (Token_Content t))"
| "call_endpoint V (Put_Password header current new) =
     bindM (liftM (sv_bearer V header)) (\<lambda>credentials.
     case parse_change_password_request current new of
       None \<Rightarrow> bindM (sv_current_user V credentials)
         (\<lambda>_. raiseM (Request_Validation (sv_issues V (Put_Password header current new))))
     | Some body \<Rightarrow>
         thenM (change_password_endpoint (sv_session V) (sv_pyjwt V) (sv_pwdlib V) (sv_settings V)
                 credentials body)
           (retM No_Content))"
| "call_endpoint V (Get_Me header) =
     bindM (liftM (sv_bearer V header)) (\<lambda>credentials.
     bindM (read_me_endpoint (sv_session V) (sv_pyjwt V) (sv_settings V) credentials)
       (\<lambda>u. retM (User_Content u)))"
| "call_endpoint V (Get_User header i) =
     bindM (liftM (sv_bearer V header)) (\<lambda>credentials.
     bindM (get_user_endpoint (sv_session V) (sv_pyjwt V) (sv_settings V) credentials i)
       (\<lambda>u. retM (User_Content u)))"
| "call_endpoint V (Get_Users header limit cursor) =
     bindM (liftM (sv_bearer V header)) (\<lambda>credentials.
     if list_limit_valid limit then
       bindM (list_users_endpoint (sv_wide V) (sv_session V) (sv_pyjwt V) (sv_settings V) credentials
               limit cursor)
         (\<lambda>p. retM (Page_Content p))
     else bindM (sv_current_user V credentials)
       (\<lambda>_. raiseM (Request_Validation (sv_issues V (Get_Users header limit cursor)))))"

section \<open>Answers\<close>

datatype api_answer = Success int api_content | Problem_Answer response

fun answer_status :: "api_answer \<Rightarrow> int" where
  "answer_status (Success status c) = status"
| "answer_status (Problem_Answer r) = rsp_status r"

definition success_status :: "api_request \<Rightarrow> int" where
  "success_status request = (case route_of request of None \<Rightarrow> 200 | Some r \<Rightarrow> route_status r)"

definition answer_in_scope ::
  "(int \<Rightarrow> string option) \<Rightarrow> ('s, 'r) services \<Rightarrow> error_request \<Rightarrow> api_request \<Rightarrow>
   (exn, ('s, 'r) world, api_answer) io" where
  "answer_in_scope phrase V er request =
     tryM (bindM (call_endpoint V request) (\<lambda>c. retM (Success (success_status request) c)))
       (\<lambda>x. if handled_by x = Handles_All then raiseM x
            else bindM (on_env (error_response phrase er x)) (\<lambda>r. retM (Problem_Answer r)))"

definition serve ::
  "(int \<Rightarrow> string option) \<Rightarrow> ('s, 'r) services \<Rightarrow> error_request \<Rightarrow> api_request \<Rightarrow>
   (exn, ('s, 'r) world, api_answer) io" where
  "serve phrase V er request =
     tryM (with_session (sv_session V) (answer_in_scope phrase V er request))
       (\<lambda>x. bindM (on_env (error_response phrase er x)) (\<lambda>r. retM (Problem_Answer r)))"

text \<open>The statuses a route documents: its own, those of its routers, and that of success.\<close>

definition documented :: "api_request \<Rightarrow> int set" where
  "documented request =
     (case route_of request of None \<Rightarrow> {} | Some r \<Rightarrow> insert (route_status r) (set (route_documented r)))"

lemma documented_eqs:
  "documented Get_Health = {200, 422, 500}"
  "documented Get_Ready = {200, 422, 500}"
  "documented (Post_Register r e p) = {201, 409, 422, 429, 500}"
  "documented (Post_Login r e p) = {200, 401, 422, 429, 500}"
  "documented (Post_Logout t) = {204, 401, 422, 500}"
  "documented (Post_Refresh t) = {200, 401, 422, 500}"
  "documented (Put_Password h c n) = {204, 401, 422, 500}"
  "documented (Get_Me h) = {200, 401, 422, 500}"
  "documented (Get_User h i) = {200, 401, 422, 500}"
  "documented (Get_Users h l cu) = {200, 401, 422, 500}"
  by (simp_all add: documented_def route_of_def api_routes_def health_routes_def auth_routes_def
      users_routes_def api_prefix_def insert_commute)

lemma success_documented: "success_status request \<in> documented request"
  by (cases request)
     (simp_all add: success_status_def documented_def route_of_def api_routes_def health_routes_def
       auth_routes_def users_routes_def api_prefix_def)

section \<open>Every request is answered\<close>

text \<open>The contracts the application stands on, for the services it is given: FastAPI refuses a request
  without a bearer token with a 401 and pydantic's addresses fit their column.\<close>

locale api_services =
  third_party "sv_session V" good pending disk "sv_pyjwt V" "sv_pwdlib V" matches known +
  rate_limiter_laws "sv_limiter V" hits up
  for V :: "('s, 'r) services" and good :: "'s \<Rightarrow> bool" and pending :: "'s \<Rightarrow> database"
    and disk :: "'s \<Rightarrow> database" and matches :: "string \<Rightarrow> string \<Rightarrow> bool" and known :: "string \<Rightarrow> bool"
    and hits :: "'r \<Rightarrow> string \<Rightarrow> int" and up :: "'r \<Rightarrow> bool" +
  assumes window: "0 < rls_auth_window_seconds (set_rate_limit (sv_settings V))"
    and address_fits: "sv_email_str V e = Some e' \<Longrightarrow> length e' \<le> 320"
    and no_bearer: "sv_bearer V h = Inl x \<Longrightarrow> \<exists>detail headers. x = Http_Exception 401 detail headers"

text \<open>What a request leaves: nothing pending, the limiter in order, the store at most one step further, with
  hashes the hasher can verify.\<close>

definition sound_after ::
  "('s \<Rightarrow> bool) \<Rightarrow> ('s \<Rightarrow> database) \<Rightarrow> ('s \<Rightarrow> database) \<Rightarrow> (string \<Rightarrow> bool) \<Rightarrow> ('r \<Rightarrow> bool) \<Rightarrow>
   ('s, 'r) world \<Rightarrow> ('s, 'r) world \<Rightarrow> bool" where
  "sound_after good pending disk known up w w' \<longleftrightarrow>
     quiet good pending disk w' \<and> up (cache w') \<and> steps_to (committed disk w) (committed disk w') \<and>
     (all_known known (committed disk w) \<longrightarrow> all_known known (committed disk w'))"

text \<open>One request after which the next may come; the identifiers it draws are new.\<close>

definition api_step ::
  "(int \<Rightarrow> string option) \<Rightarrow> ('s, 'r) services \<Rightarrow> ('s \<Rightarrow> database) \<Rightarrow>
   ('s, 'r) world \<Rightarrow> ('s, 'r) world \<Rightarrow> bool" where
  "api_step phrase V disk w w' \<longleftrightarrow>
     fresh_ids (committed disk w) (env w) \<and> (\<exists>er request. w' = snd (serve phrase V er request w))"

lemma steps_to_refl [simp]: "steps_to st st"
  by (simp add: steps_to_def)

lemma email_new_length:
  assumes "email_new raw = Inr em"
  shows "length (email_value em) \<le> length raw"
proof -
  have "email_value em = lower (strip raw)"
    using assms by (auto simp: email_new_def Let_def split: if_splits)
  moreover have "length (strip raw) \<le> length raw"
    unfolding strip_def strip_by_def
    by (metis length_dropWhile_le length_rev order_trans)
  ultimately show ?thesis
    by (simp add: lower_def)
qed

text \<open>The errors of every endpoint, dependencies and validation included.\<close>

definition endpoint_errors :: "api_request \<Rightarrow> int set" where
  "endpoint_errors request =
     (case request of
        Get_Health \<Rightarrow> {}
      | Get_Ready \<Rightarrow> {500}
      | Post_Register _ _ _ \<Rightarrow> {409, 422, 429}
      | Post_Login _ _ _ \<Rightarrow> {401, 422, 429}
      | Post_Logout _ \<Rightarrow> {401}
      | Post_Refresh _ \<Rightarrow> {401}
      | Put_Password _ _ _ \<Rightarrow> {401, 422}
      | Get_Me _ \<Rightarrow> {401}
      | Get_User _ _ \<Rightarrow> {401, 404}
      | Get_Users _ _ _ \<Rightarrow> {401, 422})"

context api_services
begin

definition served :: "int set \<Rightarrow> ('s, 'r) world \<Rightarrow> (exn + 'a) \<times> ('s, 'r) world \<Rightarrow> bool" where
  "served E w out \<longleftrightarrow> fails_with E out \<and> sound_after good pending disk known up w (snd out)"

lemma served_retM [simp]: "served E w (retM x w') \<longleftrightarrow> sound_after good pending disk known up w w'"
  by (simp add: served_def fails_with_def)

lemma served_raiseM [simp]:
  "served E w (raiseM x w') \<longleftrightarrow> status_of x \<in> E \<and> sound_after good pending disk known up w w'"
  by (simp add: served_def fails_with_def)

lemma served_bind:
  assumes "served E w (m w)"
    and "\<And>x w'. m w = (Inr x, w') \<Longrightarrow> sound_after good pending disk known up w w' \<Longrightarrow> served E w (f x w')"
  shows "served E w (bindM m f w)"
  using assms by (cases "m w") (auto simp: served_def bindM_def fails_with_def split: sum.splits)

lemma served_then:
  assumes "served E w (m w)"
    and "\<And>x w'. m w = (Inr x, w') \<Longrightarrow> sound_after good pending disk known up w w' \<Longrightarrow> served E w (k w')"
  shows "served E w (thenM m k w)"
  unfolding thenM_def using assms by (rule served_bind)

lemma served_mono: "served E w out \<Longrightarrow> E \<subseteq> F \<Longrightarrow> served F w out"
  by (auto simp: served_def intro: fails_with_mono)

text \<open>A request that starts.\<close>

definition starts :: "('s, 'r) world \<Rightarrow> bool" where
  "starts w \<longleftrightarrow> quiet good pending disk w \<and> up (cache w) \<and> all_known known (committed disk w) \<and>
     fresh_ids (committed disk w) (env w)"

lemma startsD:
  assumes "starts w"
  shows "quiet good pending disk w" "up (cache w)" "all_known known (committed disk w)"
    "fresh_ids (committed disk w) (env w)" "sound_after good pending disk known up w w"
  using assms by (simp_all add: starts_def sound_after_def)

lemma served_left:
  assumes "up (cache w)" and "fails_with E (m w)" and "same_cache m"
    and "left_by (uow_ok good pending disk) (content pending) (content disk) (snd (m w)) (committed disk w)"
    and "all_known known (committed disk (snd (m w)))"
  shows "served E w (m w)"
  using assms same_cacheD [OF assms(3), of w]
  by (simp add: served_def sound_after_def left_by_def)

lemma served_cache:
  assumes "served E (w\<lparr>cache := c\<rparr>) out"
  shows "served E w out"
  using assms by (simp add: served_def sound_after_def)

lemma starts_cache: "starts w \<Longrightarrow> up c \<Longrightarrow> starts (w\<lparr>cache := c\<rparr>)"
  by (simp add: starts_def clean_def)

lemma limited_cases:
  assumes "starts w"
  obtains c where "up c" and "limited V request w = (Inr (), w\<lparr>cache := c\<rparr>)"
  | c x where "up c" and "limited V request w = (Inl x, w\<lparr>cache := c\<rparr>)" and "status_of x = 429"
proof -
  let ?rls = "set_rate_limit (sv_settings V)"
  obtain retry r' where "sv_limiter V (rate_limit_key request) (rls_auth_requests ?rls)
      (rls_auth_window_seconds ?rls) (cache w) =
      (Inr (if hits (cache w) (rate_limit_key request) < rls_auth_requests ?rls
         then \<lparr>rl_allowed = True, rl_retry_after_seconds = 0\<rparr>
         else \<lparr>rl_allowed = False, rl_retry_after_seconds = retry\<rparr>), r')" "up r'"
    using check_counts [OF startsD(2) [OF assms] window, of "rate_limit_key request" "rls_auth_requests ?rls"]
    by (auto elim!: yieldsE)
  then show ?thesis
    using that by (auto simp: rate_limit_auth_def io_simps split: if_splits)
qed

lemma served_limited:
  assumes "starts w" and "\<And>w'. starts w' \<Longrightarrow> served E w' (k w')" and "429 \<in> E"
  shows "served E w (thenM (limited V request) k w)"
proof (rule limited_cases [OF assms(1), of request])
  fix c assume "up c" "limited V request w = (Inr (), w\<lparr>cache := c\<rparr>)"
  then show ?thesis
    using served_cache [OF assms(2) [OF starts_cache [OF assms(1)]], of c] by (simp add: thenM_def bindM_def)
next
  fix c x assume "up c" "limited V request w = (Inl x, w\<lparr>cache := c\<rparr>)" "status_of x = 429"
  then show ?thesis
    using assms(3) startsD [OF starts_cache [OF assms(1), of c]]
    by (simp add: thenM_def bindM_def served_def fails_with_def sound_after_def)
qed

lemma dispatch_env_ok: "env_ok e \<Longrightarrow> env_ok (snd (default_event_dispatcher events e))"
  by (simp add: default_dispatch_run)

lemma handlers_served:
  assumes "starts w"
  shows "served {401} w (refresh_handler (sv_session V) (sv_pyjwt V) config \<lparr>rc_refresh_token = tok\<rparr> w)"
    and "served {401} w (logout_handler (sv_session V) (sv_pyjwt V) config \<lparr>lo_refresh_token = tok\<rparr> w)"
    and "served {401} w (login_handler (sv_session V) (sv_pyjwt V) (sv_pwdlib V) config lc w)"
    and "(\<And>em. email_new (cu_email cc) = Inr em \<Longrightarrow> length (email_value em) \<le> 320) \<Longrightarrow>
      served {409, 422} w (create_user_handler (sv_session V) (sv_pwdlib V) cc w)"
proof -
  note s = startsD [OF assms]
  show "served {401} w (refresh_handler (sv_session V) (sv_pyjwt V) config \<lparr>rc_refresh_token = tok\<rparr> w)"
    unfolding refresh_handler_def
    by (intro served_left s(2) auth_ports.refresh_fails [OF ports] auth_ports.refresh_step [OF ports]
        all_known_kept [OF s(3) auth_ports.refresh_keeps_users [OF ports]] handlers_keep_cache s)
  show "served {401} w (logout_handler (sv_session V) (sv_pyjwt V) config \<lparr>lo_refresh_token = tok\<rparr> w)"
    unfolding logout_handler_def
    by (intro served_left s(2) auth_ports.logout_fails [OF ports] auth_ports.logout_step [OF ports]
        all_known_kept [OF s(3) auth_ports.logout_keeps_users [OF ports]] handlers_keep_cache s)
  show "served {401} w (login_handler (sv_session V) (sv_pyjwt V) (sv_pwdlib V) config lc w)"
    unfolding login_handler_def
    by (intro served_left s(2) auth_ports.login_fails [OF ports] auth_ports.login_step [OF ports]
        all_known_kept [OF s(3) auth_ports.login_keeps_users [OF ports]] handlers_keep_cache s)
  assume len: "\<And>em. email_new (cu_email cc) = Inr em \<Longrightarrow> length (email_value em) \<le> 320"
  show "served {409, 422} w (create_user_handler (sv_session V) (sv_pwdlib V) cc w)"
    unfolding create_user_handler_def
    by (intro served_left s(2) auth_ports.create_user_fails [OF ports s(1,4)]
        auth_ports.create_user_step [OF ports s(1,4)]
        auth_ports.create_user_keeps_known [OF ports s(1,4,3)] handlers_keep_cache dispatch_env_ok)
       (simp_all add: len default_dispatch_run)
qed

text \<open>Behind the bearer token.\<close>

lemma served_current_user:
  assumes "starts w"
    and "\<And>u w'. leaves good pending disk w (committed disk w) w' \<Longrightarrow>
      st_users (committed disk w) (uid_value (usr_id u)) = Some u \<Longrightarrow> served E w (f u w')"
    and "401 \<in> E"
  shows "served E w (bindM (sv_current_user V credentials) f w)"
proof -
  note s = startsD [OF assms(1)]
  obtain r w' where run: "sv_current_user V credentials w = (r, w')"
    by (cases "sv_current_user V credentials w")
  have w': "leaves good pending disk w (committed disk w) w'"
    and r: "r = current_user_decision (committed disk w)
      (fst (ts_decode (provided_token_service (sv_pyjwt V) (sv_settings V)) credentials (env w)))"
    using auth_ports.current_user_refines [OF ports s(1), of "sv_settings V" credentials] run
    by (simp_all add: current_user_def)
  show ?thesis
  proof (cases r)
    case (Inl x)
    have "fails_with {401} (sv_current_user V credentials w)"
      using auth_ports.current_user_fails [OF ports s(1)] by (simp add: current_user_def)
    then have "status_of x = 401"
      by (simp add: fails_with_def run Inl)
    with assms(3) w' s(2) show ?thesis
      by (simp add: bindM_def run Inl served_def fails_with_def sound_after_def settled_def)
  next
    case (Inr u)
    then obtain i where "st_users (committed disk w) i = Some u"
      using current_user_stored r by metis
    then have "st_users (committed disk w) (uid_value (usr_id u)) = Some u"
      using wf_storeD(1) [OF auth_ports.clean_parts(4) [OF ports s(1)]] by metis
    with assms(2) [OF w'] show ?thesis
      by (simp add: bindM_def run Inr)
  qed
qed

lemma leaves_sound:
  assumes "starts w" and "leaves good pending disk w (committed disk w) w'"
  shows "sound_after good pending disk known up w w'"
  using assms by (simp add: sound_after_def settled_def starts_def)

lemma served_later:
  assumes "leaves good pending disk w (committed disk w) w'" and "served E w' out"
  shows "served E w out"
  using assms by (simp add: served_def sound_after_def settled_def)

lemma served_query:
  assumes "starts w" and w': "leaves good pending disk w (committed disk w) w'"
    and "q (store w') = (r, s)" and "moved (uow_ok good pending disk) (content pending) (content disk) id (store w') s"
    and "case r of Inl x \<Rightarrow> status_of x \<in> E | Inr _ \<Rightarrow> True"
  shows "served E w (on_store q w')"
proof -
  have "quiet good pending disk (w'\<lparr>store := s\<rparr>)" "committed disk (w'\<lparr>store := s\<rparr>) = committed disk w"
    "up (cache w')"
    using assms(1,4) w' by (simp_all add: settled_def clean_def moved_def starts_def)
  then show ?thesis
    using assms(3,5) by (simp add: on_store_def served_def fails_with_def sound_after_def split: sum.splits)
qed

lemma get_user_served:
  assumes "starts w" and w': "leaves good pending disk w (committed disk w) w'" and "404 \<in> E"
  shows "served E w (get_user_handler (sv_session V) query w')"
proof -
  obtain i where i: "query = \<lparr>gu_user_id = i\<rparr>"
    by (cases query) auto
  have s: "uow_ok good pending disk (store w')" "content pending (store w') = content disk (store w')"
    using w' by (simp_all add: settled_def clean_def)
  obtain r s' where "get_user_execute (sql_user_query_service Map.empty (sv_session V)) query (store w') = (r, s')"
    "moved (uow_ok good pending disk) (content pending) (content disk) id (store w') s'"
    "case r of Inl x \<Rightarrow> status_of x \<in> E | Inr _ \<Rightarrow> True"
    using user_query_laws.get_user_laws [OF queries s, of Map.empty i] assms(3) unfolding i
    by (auto split: option.splits elim!: yieldsE raisesE)
  then show ?thesis
    unfolding get_user_handler_def by (rule served_query [OF assms(1) w'])
qed

lemma list_users_served:
  assumes "starts w" and w': "leaves good pending disk w (committed disk w) w'" and "422 \<in> E"
  shows "served E w (list_users_handler wide (sv_session V) query w')"
proof -
  obtain limit cursor where q: "query = \<lparr>lu_limit = limit, lu_cursor = cursor\<rparr>"
    by (cases query) auto
  let ?Q = "sql_user_query_service wide (sv_session V)"
  have s: "uow_ok good pending disk (store w')" "content pending (store w') = content disk (store w')"
    using w' by (simp_all add: settled_def clean_def)
  obtain r s' where "list_users_execute ?Q query (store w') = (r, s')"
    "moved (uow_ok good pending disk) (content pending) (content disk) id (store w') s'"
    "case r of Inl x \<Rightarrow> status_of x \<in> E | Inr _ \<Rightarrow> True"
  proof (cases "\<exists>c x. cursor = Some c \<and> decode_cursor wide c = Inl x")
    case True
    then obtain c x where c: "cursor = Some c" "decode_cursor wide c = Inl x" by blast
    have "list_users_execute ?Q query (store w') = (Inl x, store w')"
      using user_query_laws.query_bad_cursor [OF queries c(2)] by (simp add: q c(1) list_users_execute_eq)
    moreover have "status_of x = 422"
      using decode_cursor_error [OF c(2)] by simp
    ultimately show ?thesis
      using that [of "Inl x" "store w'"] assms(3) s by (simp add: moved_def)
  next
    case False
    then obtain after where a: "case cursor of None \<Rightarrow> after = None
        | Some c \<Rightarrow> \<exists>a. decode_cursor wide c = Inr a \<and> after = Some a"
      by (cases cursor) (auto, metis sum.exhaust)
    obtain us vs where "yields (list_users_execute ?Q query (store w'))
        \<lparr>page_items = vs, page_next_cursor = next_cursor_of (nat (clamp limit)) us\<rparr>
        (moved (uow_ok good pending disk) (content pending) (content disk) id (store w'))"
      using user_query_laws.query_list [OF queries s clamp_bounds(1) a, of limit]
      unfolding q list_users_execute_eq by blast
    then show ?thesis
      using that by (auto elim!: yieldsE)
  qed
  then show ?thesis
    unfolding list_users_handler_def by (rule served_query [OF assms(1) w'])
qed

lemma change_password_served:
  assumes "starts w" and w': "leaves good pending disk w (committed disk w) w'"
    and "st_users (committed disk w) (cp_user_id c) \<noteq> None"
  shows "served {401} w (change_password_handler (sv_session V) (sv_pwdlib V) c w')"
proof -
  note s = startsD [OF assms(1)]
  have q: "quiet good pending disk w'" "all_known known (committed disk w')" "up (cache w')"
    "st_users (committed disk w') (cp_user_id c) \<noteq> None"
    using w' s(2,3) assms(3) by (simp_all add: settled_def)
  have "served {401} w' (change_password_handler (sv_session V) (sv_pwdlib V) c w')"
    unfolding change_password_handler_def
    by (intro served_left q auth_ports.change_password_fails [OF ports]
        auth_ports.change_password_step [OF ports]
        auth_ports.change_password_keeps_known [OF ports] handlers_keep_cache)
  then show ?thesis
    by (rule served_later [OF w'])
qed

lemma ping_served:
  assumes "starts w" and "500 \<in> E"
  shows "served E w (readiness_endpoint (sv_session V) w)"
proof -
  have q: "uow_ok good pending disk (store w)"
    using startsD(1) [OF assms(1)] by (simp add: clean_def)
  obtain r s' where ping: "se_ping (sv_session V) (store w) = (r, s')"
      "moved good pending disk id (store w) s'" "\<forall>x. r = Inl x \<longrightarrow> (\<exists>name. x = Python_Error name)"
    using session_ping uow_okD(1) [OF q] by blast
  have "moved (uow_ok good pending disk) (content pending) (content disk) id (store w) s'"
    using ping(2) q by (simp add: moved_def uow_ok_def content_def)
  moreover have "leaves good pending disk w (committed disk w) w"
    using startsD(1) [OF assms(1)] by (simp add: settled_def)
  ultimately have "served E w (on_store (se_ping (sv_session V)) w)"
    using ping(1,3) assms by (intro served_query [OF assms(1)]) (auto split: sum.split)
  then show ?thesis
    unfolding readiness_endpoint_def by (rule served_then) (simp add: served_def fails_with_def)
qed

lemma served_result: "served E w (m w') \<Longrightarrow> served E w (bindM m (\<lambda>x. retM (f x)) w')"
  by (cases "m w'") (auto simp: served_def bindM_def fails_with_def split: sum.splits)

lemma served_start_invalid: "starts w \<Longrightarrow> 422 \<in> E \<Longrightarrow> served E w (raiseM (Request_Validation issues) w)"
  using startsD(5) [of w] by (simp add: served_def fails_with_def)

lemma then_discarded: "thenM (bindM m (\<lambda>_. retM ())) k = bindM m (\<lambda>_. k)"
  by (rule ext) (simp add: thenM_def bindM_def split: prod.split sum.split)

lemma served_bearer:
  assumes "starts w" and "\<And>credentials. served E w (f credentials w)" and "401 \<in> E"
  shows "served E w (bindM (liftM (sv_bearer V h)) f w)"
proof (cases "sv_bearer V h")
  case (Inl x)
  then show ?thesis
    using no_bearer [OF Inl] startsD(5) [OF assms(1)] assms(3)
    by (auto simp: bindM_def served_def fails_with_def)
next
  case (Inr c)
  then show ?thesis
    using assms(2) by (simp add: bindM_def)
qed

lemma served_invalid:
  assumes "starts w" and "leaves good pending disk w (committed disk w) w'" and "422 \<in> E"
  shows "served E w (raiseM (Request_Validation issues) w')"
  using leaves_sound [OF assms(1,2)] assms(3) by (simp add: served_def fails_with_def)

lemma register_fits:
  assumes "parse_register_request (sv_email_str V) email password = Some body"
    and "email_new (reg_email body) = Inr em"
  shows "length (email_value em) \<le> 320"
  using assms(1) address_fits email_new_length [OF assms(2)]
  by (auto simp: parse_register_request_def split: option.splits if_splits intro: order_trans)

lemma register_served:
  assumes "starts w"
  shows "served {409, 422, 429} w (call_endpoint V (Post_Register request email password) w)"
proof (cases "parse_register_request (sv_email_str V) email password")
  case None
  then show ?thesis
    unfolding call_endpoint.simps None option.case
    by (intro served_limited [OF assms] served_start_invalid) simp_all
next
  case (Some body)
  have "served {409, 422, 429} w' (create_user_handler (sv_session V) (sv_pwdlib V)
      \<lparr>cu_email = reg_email body, cu_password = reg_password body\<rparr> w')"
    if "starts w'" for w'
    using register_fits [OF Some] by (intro served_mono [OF handlers_served(4) [OF that]]) auto
  then show ?thesis
    unfolding call_endpoint.simps Some option.case register_endpoint_def
    by (intro served_result served_limited [OF assms]) simp_all
qed

lemma login_served:
  assumes "starts w"
  shows "served {401, 422, 429} w (call_endpoint V (Post_Login request email password) w)"
proof (cases "parse_login_request (sv_email_str V) email password")
  case None
  then show ?thesis
    unfolding call_endpoint.simps None option.case
    by (intro served_limited [OF assms] served_start_invalid) simp_all
next
  case (Some body)
  have "served {401, 422, 429} w' (login_handler (sv_session V) (sv_pyjwt V) (sv_pwdlib V) (sv_settings V)
      \<lparr>lc_email = lgr_email body, lc_password = lgr_password body\<rparr> w')"
    if "starts w'" for w'
    by (intro served_mono [OF handlers_served(3) [OF that]]) auto
  then show ?thesis
    unfolding call_endpoint.simps Some option.case login_endpoint_def
    by (intro served_result served_limited [OF assms]) simp_all
qed

lemma put_password_served:
  assumes "starts w"
  shows "served {401, 422} w (call_endpoint V (Put_Password header current new) w)"
proof (cases "parse_change_password_request current new")
  case None
  then show ?thesis
    by (auto intro!: served_bearer [OF assms] served_current_user [OF assms] served_invalid [OF assms])
next
  case (Some body)
  have "served {401, 422} w (change_password_endpoint (sv_session V) (sv_pyjwt V) (sv_pwdlib V) (sv_settings V)
      credentials body w)" for credentials
    unfolding change_password_endpoint_def
    by (intro served_current_user [OF assms] served_mono [OF change_password_served [OF assms]]) auto
  then show ?thesis
    unfolding call_endpoint.simps Some option.case thenM_def
    by (intro served_bearer [OF assms] served_result) auto
qed

lemma call_endpoint_served:
  assumes "starts w"
  shows "served (endpoint_errors request) w (call_endpoint V request w)"
proof (cases request)
  case Get_Health
  then show ?thesis
    using startsD(5) [OF assms]
    by (simp add: endpoint_errors_def liveness_endpoint_def bindM_def served_def fails_with_def)
next
  case Get_Ready
  then show ?thesis
    by (auto simp: endpoint_errors_def intro: served_result ping_served [OF assms])
next
  case (Post_Register r e p)
  then show ?thesis
    unfolding endpoint_errors_def Post_Register api_request.case by (intro register_served assms)
next
  case (Post_Login r e p)
  then show ?thesis
    unfolding endpoint_errors_def Post_Login api_request.case by (intro login_served assms)
next
  case (Post_Logout t)
  then show ?thesis
    unfolding endpoint_errors_def Post_Logout api_request.case call_endpoint.simps logout_endpoint_def thenM_def
    by (intro served_result) (simp add: handlers_served(2) [OF assms])
next
  case (Post_Refresh t)
  then show ?thesis
    unfolding endpoint_errors_def Post_Refresh api_request.case call_endpoint.simps refresh_endpoint_def
    by (intro served_result) (simp add: handlers_served(1) [OF assms])
next
  case (Put_Password h c n)
  then show ?thesis
    unfolding endpoint_errors_def Put_Password api_request.case by (intro put_password_served assms)
next
  case (Get_Me h)
  then show ?thesis
    unfolding endpoint_errors_def Get_Me api_request.case call_endpoint.simps read_me_endpoint_def
    using leaves_sound [OF assms]
    by (intro served_bearer [OF assms] served_result served_current_user [OF assms])
       (simp_all add: served_def fails_with_def)
next
  case (Get_User h i)
  have "served {401, 404} w (get_user_endpoint (sv_session V) (sv_pyjwt V) (sv_settings V) credentials i w)"
    for credentials
    unfolding get_user_endpoint_def then_discarded
    by (intro served_current_user [OF assms] served_result get_user_served [OF assms]) simp_all
  then show ?thesis
    unfolding endpoint_errors_def Get_User api_request.case call_endpoint.simps
    by (intro served_bearer [OF assms] served_result) simp_all
next
  case (Get_Users h l c)
  have page: "served {401, 422} w (list_users_endpoint (sv_wide V) (sv_session V) (sv_pyjwt V) (sv_settings V)
      credentials l c w)" for credentials
    unfolding list_users_endpoint_def then_discarded
    by (intro served_current_user [OF assms] served_result list_users_served [OF assms]) simp_all
  have bad: "served {401, 422} w (bindM (sv_current_user V credentials)
      (\<lambda>_. raiseM (Request_Validation issues)) w)" for credentials issues
    by (intro served_current_user [OF assms] served_invalid [OF assms]) simp_all
  have "served {401, 422} w ((if list_limit_valid l
      then bindM (list_users_endpoint (sv_wide V) (sv_session V) (sv_pyjwt V) (sv_settings V) credentials l c)
        (\<lambda>p. retM (Page_Content p))
      else bindM (sv_current_user V credentials)
        (\<lambda>_. raiseM (Request_Validation (sv_issues V (Get_Users h l c))))) w)" for credentials
    using page bad by (cases "list_limit_valid l") (simp_all add: served_result)
  then show ?thesis
    unfolding endpoint_errors_def Get_Users api_request.case call_endpoint.simps
    by (intro served_bearer [OF assms]) simp_all
qed

text \<open>The answer, whatever the endpoint did.\<close>

lemma error_response_run:
  "\<exists>r e'. error_response phrase er x e = (Inr r, e') \<and> rsp_status r = status_of x \<and> (env_ok e \<longrightarrow> env_ok e')"
  using error_response_total [of phrase er x e] by auto

lemma answer_in_scope_run:
  assumes "starts w"
  shows "\<exists>r w'. answer_in_scope phrase V er request w = (r, w') \<and> sound_after good pending disk known up w w' \<and>
    (case r of
       Inr a \<Rightarrow> answer_status a \<in> insert (success_status request) (endpoint_errors request)
     | Inl x \<Rightarrow> status_of x \<in> endpoint_errors request)"
proof -
  obtain r w1 where run: "call_endpoint V request w = (r, w1)"
    by (cases "call_endpoint V request w")
  have s: "sound_after good pending disk known up w w1" "fails_with (endpoint_errors request) (r, w1)"
    using call_endpoint_served [OF assms, of request] by (simp_all add: run served_def)
  show ?thesis
  proof (cases r)
    case (Inr c)
    then show ?thesis
      using s(1) by (simp add: answer_in_scope_def io_simps run)
  next
    case (Inl x)
    obtain a e' where a: "error_response phrase er x (env w1) = (Inr a, e')" "rsp_status a = status_of x"
        "env_ok (env w1) \<longrightarrow> env_ok e'"
      using error_response_run by blast
    have "status_of x \<in> endpoint_errors request"
      using s(2) by (simp add: fails_with_def Inl)
    moreover have "sound_after good pending disk known up w (w1\<lparr>env := e'\<rparr>)"
      using s(1) a(3) by (simp add: sound_after_def clean_def)
    ultimately show ?thesis
      using s(1) a(1,2) by (cases "handled_by x = Handles_All") (simp_all add: answer_in_scope_def io_simps run Inl)
  qed
qed

lemma closed_scope:
  assumes "sound_after good pending disk known up w w1"
  shows "\<exists>w2. on_store (se_close (sv_session V)) w1 = (Inr (), w2) \<and> sound_after good pending disk known up w w2"
proof -
  have q: "uow_ok good pending disk (store w1)" "env_ok (env w1)" "up (cache w1)"
    "steps_to (committed disk w) (committed disk w1)"
    "all_known known (committed disk w) \<longrightarrow> all_known known (committed disk w1)"
    using assms by (simp_all add: sound_after_def clean_def)
  obtain s where s: "se_close (sv_session V) (store w1) = (Inr (), s)" "good s" "pending s = disk (store w1)"
      "disk s = disk (store w1)"
    using session_close [OF uow_okD(1) [OF q(1)]] by (auto elim: yieldsE)
  have "uow_ok good pending disk s" "content pending s = content disk s" "content disk s = committed disk w1"
    using s q(1) by (simp_all add: uow_ok_def content_def)
  then show ?thesis
    using s(1) q by (simp add: on_store_def sound_after_def clean_def)
qed

lemma serve_answers:
  assumes "starts w"
  shows "\<exists>a w'. serve phrase V er request w = (Inr a, w') \<and> sound_after good pending disk known up w w' \<and>
    answer_status a \<in> insert (success_status request) (endpoint_errors request)"
proof -
  obtain r w1 where r: "answer_in_scope phrase V er request w = (r, w1)" "sound_after good pending disk known up w w1"
    "case r of
       Inr a \<Rightarrow> answer_status a \<in> insert (success_status request) (endpoint_errors request)
     | Inl x \<Rightarrow> status_of x \<in> endpoint_errors request"
    using answer_in_scope_run [OF assms] by blast
  obtain w2 where w2: "on_store (se_close (sv_session V)) w1 = (Inr (), w2)" "sound_after good pending disk known up w w2"
    using closed_scope [OF r(2)] by blast
  then have scope: "with_session (sv_session V) (answer_in_scope phrase V er request) w = (r, w2)"
    by (simp add: with_session_def r(1))
  show ?thesis
  proof (cases r)
    case (Inr a)
    then show ?thesis
      using r(3) w2(2) by (simp add: serve_def tryM_def scope)
  next
    case (Inl x)
    obtain a e' where a: "error_response phrase er x (env w2) = (Inr a, e')" "rsp_status a = status_of x"
        "env_ok (env w2) \<longrightarrow> env_ok e'"
      using error_response_run by blast
    moreover have "sound_after good pending disk known up w (w2\<lparr>env := e'\<rparr>)"
      using w2(2) a(3) by (simp add: sound_after_def clean_def)
    ultimately show ?thesis
      using r(3) Inl by (simp add: serve_def io_simps scope)
  qed
qed

text \<open>Any number of requests, one after the other.\<close>

definition settled_world :: "('s, 'r) world \<Rightarrow> bool" where
  "settled_world w \<longleftrightarrow> quiet good pending disk w \<and> up (cache w) \<and> all_known known (committed disk w)"

lemma api_step_sound:
  assumes "api_step phrase V disk w w'" and "settled_world w"
  shows "settled_world w' \<and> steps_to (committed disk w) (committed disk w')"
proof -
  obtain er request where w': "w' = snd (serve phrase V er request w)" and "starts w"
    using assms by (auto simp: api_step_def settled_world_def starts_def)
  obtain a w2 where "serve phrase V er request w = (Inr a, w2)" "sound_after good pending disk known up w w2"
    using serve_answers [OF \<open>starts w\<close>, of phrase er request] by blast
  then show ?thesis
    using assms(2) unfolding w' by (simp add: sound_after_def settled_world_def)
qed

lemma api_steps_sound:
  assumes "(api_step phrase V disk)\<^sup>*\<^sup>* w w'" and "settled_world w"
  shows "settled_world w' \<and> auth_step\<^sup>*\<^sup>* (committed disk w) (committed disk w')"
  using assms
proof (induction rule: rtranclp.induct)
  case (rtrancl_into_rtrancl a b c)
  then have "settled_world b" "auth_step\<^sup>*\<^sup>* (committed disk a) (committed disk b)"
    by simp_all
  with api_step_sound [OF rtrancl_into_rtrancl.hyps(2)] show ?case
    by (auto simp: steps_to_def)
qed simp

end

text \<open>Without any contract: every request is answered, by its endpoint or by the handler of what it raised.\<close>

lemma serve_total:
  "\<exists>a w'. serve phrase V er request w = (Inr a, w') \<and>
     (case call_endpoint V request w of (r, w1) \<Rightarrow>
        case fst (se_close (sv_session V) (store w1)) of
          Inl _ \<Rightarrow> True
        | Inr _ \<Rightarrow> (case r of
            Inl x \<Rightarrow> \<exists>p. a = Problem_Answer p \<and> rsp_status p = status_of x
          | Inr c \<Rightarrow> a = Success (success_status request) c))"
proof -
  have error: "\<exists>p e'. error_response phrase er x e = (Inr p, e') \<and> rsp_status p = status_of x" for x e
    using error_response_total [of phrase er x e] by blast
  obtain r w1 where run: "call_endpoint V request w = (r, w1)"
    by (cases "call_endpoint V request w")
  obtain c s where close: "se_close (sv_session V) (store w1) = (c, s)"
    by (cases "se_close (sv_session V) (store w1)")
  have closes: "on_store (se_close (sv_session V)) v = (c, v\<lparr>store := s\<rparr>)" if "store v = store w1" for v
    using close that by (simp add: on_store_def)
  obtain r' w2 where scope: "answer_in_scope phrase V er request w = (r', w2)" "store w2 = store w1"
    and r': "case r of
        Inl x \<Rightarrow> r' = Inl x \<or> (\<exists>p. r' = Inr (Problem_Answer p) \<and> rsp_status p = status_of x)
      | Inr b \<Rightarrow> r' = Inr (Success (success_status request) b)"
  proof (cases r)
    case (Inl x)
    obtain p e' where "error_response phrase er x (env w1) = (Inr p, e')" "rsp_status p = status_of x"
      using error by blast
    with that Inl show ?thesis
      by (cases "handled_by x = Handles_All") (simp_all add: answer_in_scope_def io_simps run)
  qed (use that run in \<open>simp add: answer_in_scope_def io_simps\<close>)
  define out where "out = (case c of Inl y \<Rightarrow> Inl y | Inr _ \<Rightarrow> r')"
  have session: "with_session (sv_session V) (answer_in_scope phrase V er request) w = (out, w2\<lparr>store := s\<rparr>)"
    by (simp add: with_session_def scope(1) closes [OF scope(2)] out_def split: sum.split)
  show ?thesis
  proof (cases out)
    case (Inr a)
    then have "serve phrase V er request w = (Inr a, w2\<lparr>store := s\<rparr>)"
      by (simp add: serve_def tryM_def session)
    with Inr r' show ?thesis
      by (auto simp: run close out_def split: sum.splits)
  next
    case (Inl y)
    obtain p e' where p: "error_response phrase er y (env w2) = (Inr p, e')" "rsp_status p = status_of y"
      using error by blast
    then have "serve phrase V er request w = (Inr (Problem_Answer p), w2\<lparr>store := s, env := e'\<rparr>)"
      by (simp add: serve_def io_simps session Inl)
    with Inl r' p(2) show ?thesis
      by (auto simp: run close out_def split: sum.splits)
  qed
qed

text \<open>The documented statuses cover the errors of every endpoint but one.\<close>

lemma errors_documented:
  "insert (success_status request) (endpoint_errors request) \<subseteq>
   documented request \<union> (case request of Get_User _ _ \<Rightarrow> {404} | _ \<Rightarrow> {})"
  using success_documented [of request]
  by (cases request) (simp_all add: endpoint_errors_def documented_eqs)

end
