(* ===== verification/Reference_Redis.thy ===== *)
theory Reference_Redis
  imports Rate_Limiter
begin

text \<open>
  An instance of the contract of Redis: counters with optional deadlines and a clock. It models no
  line of the program; the properties of the rate limiter are evaluated on it.
\<close>

record redis_state =
  rs_clock :: int
  rs_keys :: "string \<Rightarrow> (int \<times> int option) option"

definition key_alive :: "redis_state \<Rightarrow> string \<Rightarrow> (int \<times> int option) option" where
  "key_alive r k =
     (case rs_keys r k of
        Some (n, d) \<Rightarrow>
          (if 0 < n \<and> (case d of None \<Rightarrow> True | Some t \<Rightarrow> rs_clock r < t) then Some (n, d) else None)
      | None \<Rightarrow> None)"

definition ref_counter :: "redis_state \<Rightarrow> string \<Rightarrow> int" where
  "ref_counter r k = (case key_alive r k of None \<Rightarrow> 0 | Some (n, _) \<Rightarrow> n)"

definition ref_deadline :: "redis_state \<Rightarrow> string \<Rightarrow> int option" where
  "ref_deadline r k = (case key_alive r k of None \<Rightarrow> None | Some (_, d) \<Rightarrow> d)"

definition ref_redis :: "redis_state redis" where
  "ref_redis =
     \<lparr>rd_incr = (\<lambda>k r. (Inr (ref_counter r k + 1),
        r\<lparr>rs_keys := (rs_keys r)(k \<mapsto> (ref_counter r k + 1, ref_deadline r k))\<rparr>)),
      rd_expire = (\<lambda>k s r. (Inr (), r\<lparr>rs_keys := (rs_keys r)
        (k := map_option (\<lambda>(n, _). (n, Some (rs_clock r + 1000 * s))) (key_alive r k))\<rparr>)),
      rd_ttl = (\<lambda>k r. (Inr (case key_alive r k of None \<Rightarrow> -2 | Some (_, None) \<Rightarrow> -1
        | Some (_, Some d) \<Rightarrow> (d - rs_clock r + 500) div 1000), r))\<rparr>"

lemma ref_counter_nonneg: "0 \<le> ref_counter r k"
  by (auto simp: ref_counter_def key_alive_def split: option.split prod.split)

lemma ref_deadline_ahead: "ref_deadline r k = Some d \<Longrightarrow> rs_clock r < d"
  by (auto simp: ref_deadline_def key_alive_def split: option.splits prod.splits if_splits)

lemma key_alive_update:
  "key_alive (r\<lparr>rs_keys := (rs_keys r)(k := x)\<rparr>) j =
   (if j = k then (case x of
        Some (n, d) \<Rightarrow>
          (if 0 < n \<and> (case d of None \<Rightarrow> True | Some t \<Rightarrow> rs_clock r < t) then Some (n, d) else None)
      | None \<Rightarrow> None) else key_alive r j)"
  by (auto simp: key_alive_def split: option.split)

lemma key_alive_cases:
  obtains "key_alive r k = None" "ref_counter r k = 0" "ref_deadline r k = None"
  | n d where "key_alive r k = Some (n, d)" "ref_counter r k = n" "ref_deadline r k = d" "0 < n"
      "case d of None \<Rightarrow> True | Some t \<Rightarrow> rs_clock r < t"
proof (cases "key_alive r k")
  case None
  then show ?thesis
    using that(1) by (simp add: ref_counter_def ref_deadline_def)
next
  case (Some p)
  then obtain n d where p: "key_alive r k = Some (n, d)" by (cases p) auto
  moreover have "0 < n" "case d of None \<Rightarrow> True | Some t \<Rightarrow> rs_clock r < t"
    using p by (auto simp: key_alive_def split: option.splits prod.splits if_splits)
  ultimately show ?thesis
    using that(2) by (simp add: ref_counter_def ref_deadline_def)
qed

interpretation ref_redis: redis_server ref_redis ref_counter ref_deadline rs_clock "\<lambda>_. True"
proof (unfold_locales, goal_cases)
  case (1 r k)
  show ?case by (rule ref_counter_nonneg)
next
  case (2 r k d)
  then show ?case by (simp add: ref_deadline_ahead)
next
  case (3 r k)
  show ?case
    by (cases rule: key_alive_cases [of r k])
       (auto simp: ref_redis_def yields_def ref_counter_def ref_deadline_def key_alive_update
         split: option.splits)
next
  case (4 r k s)
  then show ?case
    by (cases rule: key_alive_cases [of r k])
       (auto simp: ref_redis_def yields_def ref_counter_def ref_deadline_def key_alive_update
         split: option.splits)
next
  case (5 r k)
  then show ?case
    by (cases rule: key_alive_cases [of r k])
       (auto simp: ref_redis_def yields_def split: option.splits)
qed

end
