(* ===== verification/Example_Api.thy ===== *)
theory Example_Api
  imports Http_Api Reference_Redis Example_World
begin

text \<open>
  The services of the reference libraries, with FastAPI's \<^verbatim>\<open>HTTPBearer\<close> on the header and a length limit
  for addresses: an instance of the contract of the whole API, and the example world behind it.
\<close>

definition no_credentials :: exn where
  "no_credentials =
     Http_Exception 401 ''Not authenticated'' (Some [(''WWW-Authenticate'', ''Bearer'')])"

definition http_bearer :: "string option \<Rightarrow> exn + string" where
  "http_bearer header =
     (case header of
        None \<Rightarrow> Inl no_credentials
      | Some h \<Rightarrow> if starts_with h ''Bearer '' then Inr (drop 7 h) else Inl no_credentials)"

definition short_email :: "string \<Rightarrow> string option" where
  "short_email e = (if length e \<le> 254 then Some e else None)"

definition example_services :: "(mem_state, redis_state) services" where
  "example_services =
     \<lparr>sv_session = mem_session, sv_pyjwt = ref_pyjwt, sv_pwdlib = ref_pwdlib,
      sv_limiter = provided_rate_limiter (\<lambda>_. ref_redis) default_settings, sv_settings = default_settings,
      sv_email_str = short_email, sv_wide = Map.empty, sv_bearer = http_bearer,
      sv_issues = (\<lambda>_. [])\<rparr>"

lemma example_services_simps [simp]:
  "sv_session example_services = mem_session" "sv_pyjwt example_services = ref_pyjwt"
  "sv_pwdlib example_services = ref_pwdlib" "sv_limiter example_services = redis_check ref_redis"
  "sv_settings example_services = default_settings" "sv_email_str example_services = short_email"
  "sv_wide example_services = Map.empty" "sv_bearer example_services = http_bearer"
  by (simp_all add: example_services_def provided_rate_limiter_def create_redis_client_def)

lemma example_window: "rls_auth_window_seconds (set_rate_limit default_settings) = 60"
  by (simp add: default_settings_def default_rate_limit_settings_def)

interpretation example_api: api_services example_services mem_good mem_pending mem_disk ref_matches ref_known
  "hits_of ref_counter" "\<lambda>_. True"
proof (intro api_services.intro api_services_axioms.intro)
  show "third_party (sv_session example_services) mem_good mem_pending mem_disk (sv_pyjwt example_services)
      (sv_pwdlib example_services) ref_matches ref_known"
    by (simp add: example_third_party)
  show "rate_limiter_laws (sv_limiter example_services) (hits_of ref_counter) (\<lambda>_. True)"
    by (simp add: ref_redis.fulfils_limiter_port)
qed (auto simp: example_window short_email_def http_bearer_def no_credentials_def
      split: option.splits if_splits)

text \<open>The example world with an empty cache.\<close>

definition http_world :: "(mem_state, redis_state) world" where
  "http_world =
     \<lparr>store = store example_world, cache = \<lparr>rs_clock = 0, rs_keys = Map.empty\<rparr>, env = example_env\<rparr>"

lemma http_world_parts:
  "store http_world = store example_world" "env http_world = env example_world"
  by (simp_all add: http_world_def example_world_env)

lemma http_clean:
  "quiet mem_good mem_pending mem_disk http_world" "committed mem_disk http_world = example_store"
  "all_known ref_known (committed mem_disk http_world)"
  "fresh_ids (committed mem_disk http_world) (env http_world)"
  using example_clean example_known example_fresh by (simp_all add: clean_def http_world_parts)

text \<open>Alice's bearer token, and a request for a user that does not exist.\<close>

abbreviation alice_bearer :: string where
  "alice_bearer \<equiv> example_token Access (user_id_str (UserId 1)) 55"

lemma alice_decision:
  "current_user_decision example_store
     (Inr \<lparr>tp_subject = user_id_str (UserId 1), tp_token_type = Access, tp_token_id = 55\<rparr>) = Inr alice"
  by (simp add: current_user_decision_def token_owner_def active_user_def alice_def)

lemma unknown_user_fails:
  "\<exists>w1. call_endpoint example_services (Get_User (Some (''Bearer '' @ alice_bearer)) 2) http_world =
    (Inl (raised UserNotFoundError), w1)"
proof -
  have "http_bearer (Some (''Bearer '' @ alice_bearer)) = Inr alice_bearer"
    by (simp add: http_bearer_def starts_with_def)
  moreover have "raises (get_user_endpoint mem_session ref_pyjwt default_settings alice_bearer 2 http_world)
      (raised UserNotFoundError) (leaves mem_good mem_pending mem_disk http_world (committed mem_disk http_world))"
    using get_user_endpoint_run [OF example_third_party http_clean(1),
        of default_settings alice_bearer alice 2]
    by (simp add: http_world_parts example_payload alice_decision example_clean(2))
  ultimately show ?thesis
    by (auto simp: io_simps elim!: raisesE)
qed

abbreviation unknown_user_request :: api_request where
  "unknown_user_request \<equiv> Get_User (Some (''Bearer '' @ alice_bearer)) 2"

lemma unknown_user_in_scope:
  "\<exists>r w'. answer_in_scope phrase example_services er unknown_user_request http_world =
    (Inr (Problem_Answer r), w') \<and> rsp_status r = 404"
proof -
  obtain w1 where w1: "call_endpoint example_services unknown_user_request http_world =
      (Inl (raised UserNotFoundError), w1)"
    using unknown_user_fails by blast
  obtain r e' where "error_response phrase er (raised UserNotFoundError) (env w1) = (Inr r, e')"
      "rsp_status r = status_of (raised UserNotFoundError)"
    using error_response_total [of phrase er "raised UserNotFoundError" "env w1"] by auto
  with w1 show ?thesis
    by (simp add: answer_in_scope_def io_simps del: call_endpoint.simps)
qed

text \<open>The same world when only Alice's account exists.\<close>

definition alice_store :: account_store where
  "alice_store = put_user alice empty_store"

definition alice_world :: "(mem_state, redis_state) world" where
  "alice_world = http_world\<lparr>store :=
     (let t = \<lparr>tb_users = [user_to_model alice], tb_tokens = []\<rparr> in \<lparr>ms_pending = t, ms_disk = t\<rparr>)\<rparr>"

lemma alice_store_reachable: "reachable alice_store"
proof -
  have "auth_step empty_store alice_store"
    using alice_wf unfolding alice_store_def
    by (intro auth_step.registration) (auto simp: empty_store_def email_taken_def)
  then show ?thesis
    by (rule reachable.step [OF reachable.init])
qed

lemma alice_clean:
  "quiet mem_good mem_pending mem_disk alice_world" "committed mem_disk alice_world = alice_store"
  "all_known ref_known (committed mem_disk alice_world)"
  "fresh_ids (committed mem_disk alice_world) (env alice_world)"
proof -
  let ?t = "\<lparr>tb_users = [user_to_model alice], tb_tokens = []\<rparr>"
  have rows: "database_of ?t = rows_of alice_store"
    by (auto simp: database_of_def rows_of_def alice_store_def empty_store_def user_to_model_def alice_def stored_def)
  have "keyed ?t"
    by (simp add: keyed_def user_to_model_def)
  then show "quiet mem_good mem_pending mem_disk alice_world"
    using reachable_wf [OF alice_store_reachable]
    by (auto simp: clean_def uow_ok_def mem_good_def mem_pending_def mem_disk_def content_def
        alice_world_def rows env_ok_def http_world_def example_env_def Let_def)
  show st: "committed mem_disk alice_world = alice_store"
    using reachable_wf [OF alice_store_reachable]
    by (simp add: content_def mem_disk_def alice_world_def rows Let_def)
  show "all_known ref_known (committed mem_disk alice_world)"
    unfolding st by (simp add: all_known_def alice_store_def empty_store_def stored_def alice_def ref_known_def ref_hash_def starts_with_def)
  show "fresh_ids (committed mem_disk alice_world) (env alice_world)"
    unfolding st by (simp add: fresh_ids_def new_family_def alice_store_def empty_store_def alice_world_def
        http_world_parts example_next alice_def)
qed

end
