(* ===== verification/Middleware_Stack.thy ===== *)
theory Middleware_Stack
  imports Middleware
begin

text \<open>
  The installed stack as a whole: which headers a response carries when it has passed every layer. The
  layers of Starlette (compression, trusted hosts, CORS) are given by what they document; an instance
  shows that the contract can hold.
\<close>

section \<open>What an application sends\<close>

definition carries :: "string list \<Rightarrow> message \<Rightarrow> bool" where
  "carries names message =
     (case message of
        Http_Response_Start status hs \<Rightarrow> \<forall>n \<in> set names. header_get n hs \<noteq> None
      | _ \<Rightarrow> True)"

text \<open>Under a channel that keeps \<open>R\<close> of the messages on the wire whenever it is given a message with \<open>P\<close>,
  the application keeps \<open>R\<close>: it reaches the wire through its channel only, and with \<open>P\<close> only.\<close>

definition sends_only :: "scope \<Rightarrow> (message \<Rightarrow> bool) \<Rightarrow> asgi_app \<Rightarrow> bool" where
  "sends_only scope P app \<longleftrightarrow>
     (\<forall>R receive send c.
        (\<forall>m c. P m \<and> R (cn_sent c) \<longrightarrow> R (cn_sent (snd (send m c)))) \<and>
        (\<forall>c. R (cn_sent c) \<longrightarrow> R (cn_sent (snd (receive c)))) \<and> R (cn_sent c) \<longrightarrow>
        R (cn_sent (snd (app scope receive send c))))"

lemma sends_onlyI [intro?]:
  assumes "\<And>R receive send c. (\<And>m c. P m \<Longrightarrow> R (cn_sent c) \<Longrightarrow> R (cn_sent (snd (send m c)))) \<Longrightarrow>
    (\<And>c. R (cn_sent c) \<Longrightarrow> R (cn_sent (snd (receive c)))) \<Longrightarrow> R (cn_sent c) \<Longrightarrow>
    R (cn_sent (snd (app scope receive send c)))"
  shows "sends_only scope P app"
  unfolding sends_only_def using assms by blast

lemma sends_onlyD:
  assumes "sends_only scope P app"
    and "\<And>m c. P m \<Longrightarrow> R (cn_sent c) \<Longrightarrow> R (cn_sent (snd (send m c)))"
    and "\<And>c. R (cn_sent c) \<Longrightarrow> R (cn_sent (snd (receive c)))"
    and "R (cn_sent c)"
  shows "R (cn_sent (snd (app scope receive send c)))"
  using assms(1) [unfolded sends_only_def, rule_format, of R send receive c] assms(2-4) by blast

text \<open>A layer that only puts something between the application and the channel.\<close>

lemma sends_only_wrapped:
  assumes "sends_only scope P app" and "\<And>m. P m \<Longrightarrow> Q (f m)"
    and "\<And>receive send. layer scope receive send = app scope receive (\<lambda>m. send (f m))"
  shows "sends_only scope Q layer"
proof (rule sends_onlyI)
  fix R :: "message list \<Rightarrow> bool" and receive :: asgi_receive and send :: asgi_send and c :: conn
  assume *: "\<And>m c. Q m \<Longrightarrow> R (cn_sent c) \<Longrightarrow> R (cn_sent (snd (send m c)))"
    "\<And>c. R (cn_sent c) \<Longrightarrow> R (cn_sent (snd (receive c)))" "R (cn_sent c)"
  show "R (cn_sent (snd (layer scope receive send c)))"
    unfolding assms(3) by (rule sends_onlyD [OF assms(1)]) (simp_all add: * assms(2))
qed

lemma sends_only_mono: "sends_only scope P app \<Longrightarrow> (\<And>m. P m \<Longrightarrow> Q m) \<Longrightarrow> sends_only scope Q app"
  by (rule sends_only_wrapped [where f = "\<lambda>m. m" and P = P and app = app]) simp_all

text \<open>What is on the wire at the end, for a channel that collects.\<close>

lemma sends_only_collected:
  assumes "sends_only scope P app"
    and "m \<in> set (cn_sent (snd (app scope inbox_receive collect_send c)))"
  shows "m \<in> set (cn_sent c) \<or> P m"
proof -
  let ?R = "\<lambda>ms. \<forall>m \<in> set ms. m \<in> set (cn_sent c) \<or> P m"
  have "?R (cn_sent (snd (app scope inbox_receive collect_send c)))"
  proof (rule sends_onlyD [OF assms(1), where R = ?R])
    show "?R (cn_sent (snd (collect_send m c')))" if "P m" and "?R (cn_sent c')" for m c'
      using that by (simp add: collect_send_def modifyM_def)
    show "?R (cn_sent (snd (inbox_receive c')))" if "?R (cn_sent c')" for c'
      using that by (simp add: inbox_receive_def split: list.split)
  qed simp
  then show ?thesis
    using assms(2) by blast
qed

section \<open>The layers of the program\<close>

abbreviation security_names :: "bool \<Rightarrow> string list" where
  "security_names hsts \<equiv>
     [''X-Content-Type-Options'', ''X-Frame-Options'', ''Referrer-Policy'', ''Permissions-Policy''] @
     (if hsts then [''Strict-Transport-Security''] else [])"

lemma secured_carries: "carries (security_names hsts) (secured hsts m)"
  by (cases m)
     (auto simp: carries_def secured_def security_headers_def Let_def setdefault_get lower_names)

lemma security_layer_sends:
  assumes "sc_type scope = ''http''" and "sends_only scope P app"
  shows "sends_only scope (carries (security_names hsts)) (security_headers_middleware hsts app)"
  by (rule sends_only_wrapped [where f = "secured hsts", OF assms(2)])
     (rule secured_carries, simp add: security_layer assms(1))

lemma body_limit_sends:
  assumes "sc_type scope = ''http''" and "sends_only scope P app"
  shows "sends_only scope P (body_size_limit_middleware n app)"
proof (rule sends_onlyI)
  fix R :: "message list \<Rightarrow> bool" and receive :: asgi_receive and send :: asgi_send and c :: conn
  assume *: "\<And>m c. P m \<Longrightarrow> R (cn_sent c) \<Longrightarrow> R (cn_sent (snd (send m c)))"
    "\<And>c. R (cn_sent c) \<Longrightarrow> R (cn_sent (snd (receive c)))" "R (cn_sent c)"
  have limited: "cn_sent (snd (limited_receive n receive c)) = cn_sent (snd (receive c))" for c
    by (auto simp: limited_receive_def asgi_simps split: prod.split sum.split message.split)
  have "R (cn_sent (snd (app scope (limited_receive n receive) send (c\<lparr>cn_received := 0\<rparr>))))"
    by (rule sends_onlyD [OF assms(2)]) (simp_all add: * limited)
  then show "R (cn_sent (snd (body_size_limit_middleware n app scope receive send c)))"
    using assms(1) by (simp add: body_size_limit_middleware_def asgi_simps)
qed

lemma request_context_sent:
  assumes "sc_type scope = ''http''"
  obtains rid c1 where "cn_sent (snd (request_context_middleware d app scope receive send c)) =
      cn_sent (snd (app scope receive (send_with_request_id rid send) c1))"
    and "cn_sent c1 = cn_sent c"
proof -
  obtain rid e where rid: "resolve_request_id (header_get request_id_header (sc_headers scope)) (cn_env c) =
      (Inr rid, e)"
    using resolve_request_id_safe by blast
  let ?c1 = "c\<lparr>cn_env := e, cn_request_id := Some rid,
      cn_context := filter (\<lambda>(k, v). k \<noteq> ''request_id'') (cn_context c) @ [(''request_id'', rid)],
      cn_status_code := 500\<rparr>"
  have "cn_sent (snd (request_context_middleware d app scope receive send c)) =
      cn_sent (snd (app scope receive (send_with_request_id rid send) ?c1))"
    using assms(1) rid
    by (auto simp: request_context_middleware_def on_conn_env_def log_in_context_def asgi_simps
        split: prod.split sum.split)
  then show ?thesis
    by (rule that) simp
qed

lemma request_context_sends:
  assumes "sc_type scope = ''http''" and "sends_only scope (carries names) app"
  shows "sends_only scope (carries (request_id_header # names)) (request_context_middleware d app)"
proof (rule sends_onlyI)
  fix R :: "message list \<Rightarrow> bool" and receive :: asgi_receive and send :: asgi_send and c :: conn
  assume *: "\<And>m c. carries (request_id_header # names) m \<Longrightarrow> R (cn_sent c) \<Longrightarrow> R (cn_sent (snd (send m c)))"
    "\<And>c. R (cn_sent c) \<Longrightarrow> R (cn_sent (snd (receive c)))" "R (cn_sent c)"
  obtain rid c1 where run: "cn_sent (snd (request_context_middleware d app scope receive send c)) =
      cn_sent (snd (app scope receive (send_with_request_id rid send) c1))" "cn_sent c1 = cn_sent c"
    using request_context_sent [OF assms(1)] .
  have "R (cn_sent (snd (app scope receive (send_with_request_id rid send) c1)))"
  proof (rule sends_onlyD [OF assms(2)])
    fix m and c :: conn
    assume "carries names m" and "R (cn_sent c)"
    then show "R (cn_sent (snd (send_with_request_id rid send m c)))"
      by (cases m)
         (auto simp: send_with_request_id_def asgi_simps carries_def setdefault_get intro!: *(1))
  qed (use * run(2) in simp_all)
  then show "R (cn_sent (snd (request_context_middleware d app scope receive send c)))"
    by (simp only: run(1))
qed

section \<open>The layers of Starlette\<close>

text \<open>Compression changes the headers of the encoding; trusted hosts passes a request with an allowed host
  on and answers another one by itself, as CORS does with a preflight; other responses get headers from
  CORS.\<close>

definition encoding_headers :: "string set" where
  "encoding_headers = {''content-encoding'', ''content-length'', ''vary''}"

locale starlette_layers =
  fixes F :: foreign_layers
    and host_allowed :: "string list \<Rightarrow> scope \<Rightarrow> bool"
    and preflight :: "scope \<Rightarrow> bool"
  assumes gzip_keeps: "sends_only scope (carries names) app \<Longrightarrow>
      lower ` set names \<inter> encoding_headers = {} \<Longrightarrow> sends_only scope (carries names) (fl_gzip F app)"
    and host_passes: "host_allowed hosts scope \<Longrightarrow> fl_trusted_host F hosts app scope = app scope"
    and host_answers: "sends_only scope P app \<Longrightarrow> sends_only scope (\<lambda>_. True) (fl_trusted_host F hosts app)"
    and cors_keeps: "sends_only scope (carries names) app \<Longrightarrow> \<not> preflight scope \<Longrightarrow>
      sends_only scope (carries names) (fl_cors F origins credentials methods allowed exposed app)"
begin

lemma installed_cors:
  assumes "sends_only scope (carries names) app" and "\<not> preflight scope"
  shows "sends_only scope (carries names)
    ((if origins \<noteq> [] then fl_cors F origins True methods allowed exposed else id) app)"
  using assms by (auto intro: cors_keeps)

lemma stack_identifies:
  assumes "sc_type scope = ''http''" and "sends_only scope P app" and "\<not> preflight scope"
  shows "sends_only scope (carries [request_id_header]) (middleware_stack F d s app)"
proof -
  let ?inner = "body_size_limit_middleware (app_max_request_body_bytes (set_app s)) app"
  have "sends_only scope (carries []) (security_headers_middleware (is_production s) ?inner)"
    using security_layer_sends [OF assms(1) body_limit_sends [OF assms(1,2)]]
    by (rule sends_only_mono) (simp add: carries_def split: message.split)
  then have "sends_only scope (carries [])
      (fl_trusted_host F hosts (fl_gzip F (security_headers_middleware (is_production s) ?inner)))" for hosts
    by (intro sends_only_mono [OF host_answers [OF gzip_keeps]]) (auto simp: carries_def split: message.split)
  then show ?thesis
    unfolding middleware_order by (intro installed_cors request_context_sends assms(1,3))
qed

lemma stack_secures:
  assumes "sc_type scope = ''http''" and "sends_only scope P app" and "\<not> preflight scope"
    and "host_allowed (app_allowed_hosts (set_app s)) scope"
  shows "sends_only scope (carries (request_id_header # security_names (is_production s)))
    (middleware_stack F d s app)"
proof -
  let ?inner = "body_size_limit_middleware (app_max_request_body_bytes (set_app s)) app"
  let ?gzip = "fl_gzip F (security_headers_middleware (is_production s) ?inner)"
  have "sends_only scope (carries (security_names (is_production s))) ?gzip"
    by (intro gzip_keeps security_layer_sends [OF assms(1) body_limit_sends [OF assms(1,2)]])
       (auto simp: lower_names encoding_headers_def)
  then have "sends_only scope (carries (security_names (is_production s)))
      (fl_trusted_host F (app_allowed_hosts (set_app s)) ?gzip)"
    by (simp add: sends_only_def host_passes [OF assms(4)])
  then show ?thesis
    unfolding middleware_order by (intro installed_cors request_context_sends assms(1,3))
qed

end

section \<open>An instance\<close>

text \<open>Plain layers: compression marks the response, an unknown host gets a 400, a preflight a 200.\<close>

definition with_header :: "string \<Rightarrow> string \<Rightarrow> message \<Rightarrow> message" where
  "with_header n v message =
     (case message of
        Http_Response_Start status hs \<Rightarrow> Http_Response_Start status (header_setdefault n v hs)
      | _ \<Rightarrow> message)"

definition plain_host_allowed :: "string list \<Rightarrow> scope \<Rightarrow> bool" where
  "plain_host_allowed hosts scope \<longleftrightarrow>
     ''*'' \<in> set hosts \<or> (\<exists>h \<in> set hosts. header_get ''host'' (sc_headers scope) = Some h)"

definition plain_preflight :: "scope \<Rightarrow> bool" where
  "plain_preflight scope \<longleftrightarrow>
     sc_method scope = ''OPTIONS'' \<and> header_get ''access-control-request-method'' (sc_headers scope) \<noteq> None"

definition plain_layers :: foreign_layers where
  "plain_layers =
     \<lparr>fl_gzip = (\<lambda>app scope receive send.
        app scope receive (\<lambda>m. send (with_header ''Content-Encoding'' ''gzip'' m))),
      fl_trusted_host = (\<lambda>hosts app scope receive send.
        if plain_host_allowed hosts scope then app scope receive send
        else send (Http_Response_Start 400 [])),
      fl_cors = (\<lambda>origins credentials methods allowed exposed app scope receive send.
        if plain_preflight scope then send (Http_Response_Start 200 [])
        else app scope receive (\<lambda>m. send (with_header ''Access-Control-Allow-Origin'' (hd origins) m)))\<rparr>"

lemma with_header_carries: "carries names m \<Longrightarrow> carries names (with_header n v m)"
  by (cases m) (auto simp: carries_def with_header_def setdefault_get)

interpretation plain: starlette_layers plain_layers plain_host_allowed plain_preflight
proof
  fix scope names app
  assume "sends_only scope (carries names) app"
  then show "sends_only scope (carries names) (fl_gzip plain_layers app)"
    by (rule sends_only_wrapped [where f = "with_header ''Content-Encoding'' ''gzip''" and app = app])
       (simp_all add: plain_layers_def with_header_carries)
next
  fix scope P app hosts
  assume "sends_only scope P app"
  then have "sends_only scope (\<lambda>_. True) app"
    by (rule sends_only_mono) simp
  then show "sends_only scope (\<lambda>_. True) (fl_trusted_host plain_layers hosts app)"
    by (auto simp: plain_layers_def sends_only_def)
next
  fix scope names app origins credentials methods allowed exposed
  assume app: "sends_only scope (carries names) app" and no: "\<not> plain_preflight scope"
  show "sends_only scope (carries names)
      (fl_cors plain_layers origins credentials methods allowed exposed app)"
    by (rule sends_only_wrapped [OF app, where f = "with_header ''Access-Control-Allow-Origin'' (hd origins)"])
       (simp_all add: plain_layers_def with_header_carries no)
qed (simp add: plain_layers_def)

end
