(* ===== verification/Http_Properties.thy ===== *)
theory Http_Properties
  imports Example_Api Middleware_Stack
begin

text \<open>
  The properties of the HTTP layer: the rate limiter of the public endpoints, the answers to
  exceptions, and the middleware. Each witness evaluates its property on the reference libraries.
\<close>

section \<open>Rate limiting\<close>

text \<open>C29. Of any number of checks of one client and path in one window, exactly the first ones up to the limit
  pass, counting those already used.\<close>

theorem burst_is_limited:
  assumes "redis_server R counter deadline clk up" and "up r" and "0 < window"
  shows "burst (redis_check R) n key limit window r = min n (nat (limit - hits_of counter r key))"
  using rate_limiter_laws.burst_allows [OF redis_server.fulfils_limiter_port [OF assms(1)] assms(2,3)] .

lemma burst_is_limited_witness:
  "burst (redis_check ref_redis) 25 ''/api/v1/auth/login:10.0.0.1'' 10 60
    \<lparr>rs_clock = 0, rs_keys = Map.empty\<rparr> = 10"
  using burst_is_limited [OF ref_redis.redis_server_axioms,
      where r = "\<lparr>rs_clock = 0, rs_keys = Map.empty\<rparr>" and window = 60 and n = 25
        and key = "''/api/v1/auth/login:10.0.0.1''" and limit = 10]
  by (simp add: hits_of_def ref_counter_def key_alive_def del: burst.simps)

text \<open>C30. A check over the limit is refused and leaves the counter over the limit and the deadline of the window
  as it was. If the key has its deadline, the client is told to wait at least one second and at most
  the length of the window. If it has none (counter and deadline are set by two commands, and the process
  died between them), the client is told to wait one second, over and over: it is locked out for good.\<close>

theorem refused_check_decides:
  assumes "redis_server R counter deadline clk up" and "up r" and "0 < window" and "0 < limit"
    and "limit \<le> hits_of counter r key"
  shows "\<exists>retry r'. redis_check R key limit window r =
      (Inr \<lparr>rl_allowed = False, rl_retry_after_seconds = retry\<rparr>, r') \<and> up r' \<and>
    limit \<le> hits_of counter r' key \<and> deadline r' = deadline r \<and> clk r' = clk r \<and>
    (case deadline r (key_prefix @ '':'' @ key) of
       Some d \<Rightarrow> 1 \<le> retry \<and> (d \<le> clk r + 1000 * window \<longrightarrow> retry \<le> window)
     | None \<Rightarrow> retry = 1)"
proof -
  let ?k = "key_prefix @ '':'' @ key"
  let ?retry = "max (case deadline r ?k of None \<Rightarrow> -1 | Some d \<Rightarrow> (d - clk r + 500) div 1000) 1"
  have le: "limit \<le> counter r ?k"
    using assms(5) by (simp only: hits_of_def)
  obtain r' where r': "up r'" "counter r' ?k = counter r ?k + 1" "deadline r' = deadline r" "clk r' = clk r"
    and run: "redis_check R key limit window r =
      (Inr \<lparr>rl_allowed = False, rl_retry_after_seconds = ?retry\<rparr>, r')"
    using redis_server.denied_check [OF assms(1-4) refl le] by blast
  have more: "limit \<le> hits_of counter r' key"
    unfolding hits_of_def using le r'(2) by linarith
  have wait: "case deadline r ?k of
      Some d \<Rightarrow> 1 \<le> ?retry \<and> (d \<le> clk r + 1000 * window \<longrightarrow> ?retry \<le> window)
    | None \<Rightarrow> ?retry = 1"
  proof (cases "deadline r ?k")
    case (Some d)
    have "(d - clk r + 500) div 1000 \<le> window" if "d \<le> clk r + 1000 * window"
      using that by linarith
    with Some assms(3) show ?thesis by auto
  qed simp
  show ?thesis
    using run r' more wait by blast
qed

lemma refused_check_decides_witness:
  "(\<exists>retry r'. redis_check ref_redis ''k'' 10 60
      \<lparr>rs_clock = 0, rs_keys = [''ratelimit:k'' \<mapsto> (10, Some 42000)]\<rparr> =
      (Inr \<lparr>rl_allowed = False, rl_retry_after_seconds = retry\<rparr>, r') \<and> 1 \<le> retry \<and> retry \<le> 60) \<and>
   (\<exists>r'. redis_check ref_redis ''k'' 10 60
      \<lparr>rs_clock = 0, rs_keys = [''ratelimit:k'' \<mapsto> (10, None)]\<rparr> =
      (Inr \<lparr>rl_allowed = False, rl_retry_after_seconds = 1\<rparr>, r') \<and> 10 \<le> hits_of ref_counter r' ''k'')"
  using refused_check_decides [OF ref_redis.redis_server_axioms,
      where r = "\<lparr>rs_clock = 0, rs_keys = [''ratelimit:k'' \<mapsto> (10, Some 42000)]\<rparr>"
        and window = 60 and limit = 10 and key = "''k''"]
    refused_check_decides [OF ref_redis.redis_server_axioms,
      where r = "\<lparr>rs_clock = 0, rs_keys = [''ratelimit:k'' \<mapsto> (10, None)]\<rparr>"
        and window = 60 and limit = 10 and key = "''k''"]
  by (auto simp: hits_of_def ref_counter_def ref_deadline_def key_alive_def key_prefix_def)

text \<open>C31. A rate-limited registration or login is answered 429 with a Retry-After header before the handler
  runs: neither the database nor the log, the clock or the password hasher is touched.\<close>

theorem limited_endpoints_touch_nothing:
  assumes "redis_server R counter deadline clk up" and "up (cache w)"
    and "0 < rls_auth_window_seconds (set_rate_limit config)"
    and "rls_auth_requests (set_rate_limit config) \<le> hits_of counter (cache w) (rate_limit_key request)"
  shows "\<exists>retry c. 1 \<le> retry \<and>
    register_endpoint S P (redis_check R) config request registration w =
      (Inl (Http_Exception 429 ''Too many requests; try again later.''
        (Some [(''Retry-After'', str_int retry)])), w\<lparr>cache := c\<rparr>) \<and>
    login_endpoint S J P (redis_check R) config request credentials w =
      (Inl (Http_Exception 429 ''Too many requests; try again later.''
        (Some [(''Retry-After'', str_int retry)])), w\<lparr>cache := c\<rparr>)"
proof -
  obtain retry c where "1 \<le> retry" "rate_limit_auth (redis_check R) (set_rate_limit config) request (cache w) =
      (Inl (Http_Exception 429 ''Too many requests; try again later.''
        (Some [(''Retry-After'', str_int retry)])), c)"
    using rate_limiter_laws.limited_request [OF redis_server.fulfils_limiter_port [OF assms(1)] assms(2-4)]
    by blast
  then show ?thesis
    by (intro exI [of _ retry] exI [of _ c]) (simp add: register_endpoint_def login_endpoint_def io_simps)
qed

lemma limited_endpoints_touch_nothing_witness:
  "\<exists>retry c. 1 \<le> retry \<and>
    login_endpoint mem_session ref_pyjwt ref_pwdlib (redis_check ref_redis) default_settings
      \<lparr>rq_path = ''/l'', rq_client_host = None\<rparr> \<lparr>lgr_email = ''a@b.c'', lgr_password = ''guess''\<rparr>
      \<lparr>store = store example_world, cache = \<lparr>rs_clock = 0, rs_keys =
        [''ratelimit:/l:unknown'' \<mapsto> (10, Some 60000)]\<rparr>, env = example_env\<rparr> =
      (Inl (Http_Exception 429 ''Too many requests; try again later.''
        (Some [(''Retry-After'', str_int retry)])),
       \<lparr>store = store example_world, cache = c, env = example_env\<rparr>)"
proof -
  let ?w = "\<lparr>store = store example_world, cache = \<lparr>rs_clock = 0, rs_keys =
        [''ratelimit:/l:unknown'' \<mapsto> (10, Some 60000)]\<rparr>, env = example_env\<rparr>"
  let ?rq = "\<lparr>rq_path = ''/l'', rq_client_host = None\<rparr>"
  have "0 < rls_auth_window_seconds (set_rate_limit default_settings)"
      "rls_auth_requests (set_rate_limit default_settings) \<le>
        hits_of ref_counter (cache ?w) (rate_limit_key ?rq)"
    by (simp_all add: default_settings_def default_rate_limit_settings_def rate_limit_key_def hits_of_def
        ref_counter_def key_alive_def key_prefix_def)
  from limited_endpoints_touch_nothing [OF ref_redis.redis_server_axioms TrueI this,
      where S = mem_session and P = ref_pwdlib and J = ref_pyjwt
        and registration = "\<lparr>reg_email = ''a@b.c'', reg_password = ''guess-again''\<rparr>"
        and credentials = "\<lparr>lgr_email = ''a@b.c'', lgr_password = ''guess''\<rparr>"]
  obtain retry c where "1 \<le> retry" "login_endpoint mem_session ref_pyjwt ref_pwdlib (redis_check ref_redis)
      default_settings ?rq \<lparr>lgr_email = ''a@b.c'', lgr_password = ''guess''\<rparr> ?w =
      (Inl (Http_Exception 429 ''Too many requests; try again later.''
        (Some [(''Retry-After'', str_int retry)])), ?w\<lparr>cache := c\<rparr>)"
    by blast
  then show ?thesis
    by (intro exI [of _ retry] exI [of _ c]) simp
qed

section \<open>Answers to exceptions\<close>


section \<open>Middleware\<close>



text \<open>C34. When the inner application raises, the log entry of the catch-all handler carries no request id: the
  context has been cleared before that handler runs. The comment in the handler says the id is already
  bound to the context.\<close>

theorem error_log_has_no_request_id:
  assumes "sc_type scope = ''http''"
    and "request_context_middleware duration app scope receive send c = (Inl x, c1)"
  shows "\<exists>c2 r. unhandled_in_context request x c1 = (Inr r, c2) \<and>
    logs (cn_env c2) = logs (cn_env c1) @ [Log_Entry ''error'' ''request.unhandled_error''
      [(''error'', exn_name x), (''method'', er_method request), (''path'', er_path request)]]"
proof -
  have "cn_context c1 = []"
    using request_context_clears [OF assms(1), of duration app receive send c] assms(2) by simp
  then show ?thesis
    by (rule unhandled_in_context_run)
qed

lemma error_log_has_no_request_id_witness:
  "\<exists>c1 c2 r. request_context_middleware ''1.5'' (\<lambda>_ _ _. raiseM (Python_Error ''RuntimeError''))
      \<lparr>sc_type = ''http'', sc_method = ''GET'', sc_path = ''/'', sc_headers = [(''x-request-id'', ''abc'')]\<rparr>
      inbox_receive collect_send
      \<lparr>cn_env = example_env, cn_context = [], cn_request_id = None, cn_status_code = 0, cn_received = 0,
       cn_inbox = [], cn_sent = []\<rparr> = (Inl (Python_Error ''RuntimeError''), c1) \<and>
    unhandled_in_context \<lparr>er_method = ''GET'', er_path = ''/'', er_request_id = Some ''abc''\<rparr>
      (Python_Error ''RuntimeError'') c1 = (Inr r, c2) \<and>
    logs (cn_env c2) = logs (cn_env c1) @ [Log_Entry ''error'' ''request.unhandled_error''
      [(''error'', ''RuntimeError''), (''method'', ''GET''), (''path'', ''/'')]]"
proof -
  obtain c1 where run: "request_context_middleware ''1.5'' (\<lambda>_ _ _. raiseM (Python_Error ''RuntimeError''))
      \<lparr>sc_type = ''http'', sc_method = ''GET'', sc_path = ''/'', sc_headers = [(''x-request-id'', ''abc'')]\<rparr>
      inbox_receive collect_send
      \<lparr>cn_env = example_env, cn_context = [], cn_request_id = None, cn_status_code = 0, cn_received = 0,
       cn_inbox = [], cn_sent = []\<rparr> = (Inl (Python_Error ''RuntimeError''), c1)"
    using request_context_run [where duration = "''1.5''" and receive = inbox_receive
      and app = "\<lambda>_ _ _. raiseM (Python_Error ''RuntimeError'')" and send = collect_send
      and scope = "\<lparr>sc_type = ''http'', sc_method = ''GET'', sc_path = ''/'',
        sc_headers = [(''x-request-id'', ''abc'')]\<rparr>"
      and c = "\<lparr>cn_env = example_env, cn_context = [], cn_request_id = None, cn_status_code = 0,
        cn_received = 0, cn_inbox = [], cn_sent = []\<rparr>"]
    by auto
  from error_log_has_no_request_id [OF _ run,
      of "\<lparr>er_method = ''GET'', er_path = ''/'', er_request_id = Some ''abc''\<rparr>"] run
  show ?thesis by auto
qed



text \<open>C36. An application that reads a request body through the cap gets it unchanged when all of it is within the
  limit, and is interrupted with a 413 otherwise, before it uses anything it read.\<close>

theorem body_is_capped:
  assumes "sc_type scope = ''http''" and "0 \<le> max_bytes" and "n \<le> length (cn_inbox c)"
  shows "fst (body_size_limit_middleware max_bytes
      (\<lambda>_ receive _. bindM (read_messages receive n) (\<lambda>ms. use ms)) scope inbox_receive send c) =
    (if sum_list (map body_bytes (take n (cn_inbox c))) \<le> max_bytes
     then fst (use (take n (cn_inbox c)) (c\<lparr>cn_received := sum_list (map body_bytes (take n (cn_inbox c))),
       cn_inbox := drop n (cn_inbox c)\<rparr>))
     else Inl (Http_Exception 413 ''Request body too large.'' None))"
  using assms by (rule capped_body)

lemma body_is_capped_witness:
  "fst (body_size_limit_middleware 5
      (\<lambda>_ receive _. bindM (read_messages receive 2) (\<lambda>ms. raiseM (Python_Error ''reached'')))
      \<lparr>sc_type = ''http'', sc_method = ''POST'', sc_path = ''/'', sc_headers = []\<rparr> inbox_receive collect_send
      \<lparr>cn_env = example_env, cn_context = [], cn_request_id = None, cn_status_code = 0, cn_received = 0,
       cn_inbox = [Http_Request ''abc'', Http_Request ''def''], cn_sent = []\<rparr>) =
    Inl (Http_Exception 413 ''Request body too large.'' None)"
  using body_is_capped [of "\<lparr>sc_type = ''http'', sc_method = ''POST'', sc_path = ''/'', sc_headers = []\<rparr>" 5 2
      "\<lparr>cn_env = example_env, cn_context = [], cn_request_id = None, cn_status_code = 0, cn_received = 0,
       cn_inbox = [Http_Request ''abc'', Http_Request ''def''], cn_sent = []\<rparr>"
      "\<lambda>ms. raiseM (Python_Error ''reached'')" collect_send]
  by simp

section \<open>The API\<close>



end
