(* ===== verification/Race.thy ===== *)
theory Race
  imports Example_World
begin

text \<open>
  Two requests at the same time. The contract \<open>sqlalchemy_session\<close> speaks of one transaction at a time;
  \<open>race_session\<close> is a session of a database at the isolation level READ COMMITTED, where another
  transaction commits between the reads of this one and its commit: reads see the committed rows,
  writes are kept until the commit and then applied, row by row, to the rows committed by then. It models
  no line of the program; the handlers of the program are run on it: a refresh, which overlooks what was
  committed meanwhile, and a registration, which does not, thanks to the unique index.
\<close>

section \<open>A session with interference\<close>

record race_state =
  rc_disk :: tables
  rc_writes :: "(tables \<Rightarrow> tables) list"
  rc_other :: "tables \<Rightarrow> tables"

definition race_write :: "(tables \<Rightarrow> tables) \<Rightarrow> (exn, race_state, unit) io" where
  "race_write f s = (Inr (), s\<lparr>rc_writes := rc_writes s @ [f]\<rparr>)"

definition race_commit :: "(exn, race_state, unit) io" where
  "race_commit s =
     (case mem_commit \<lparr>ms_pending = fold (\<lambda>f. f) (rc_writes s) (rc_other s (rc_disk s)),
         ms_disk = rc_other s (rc_disk s)\<rparr> of
        (r, m) \<Rightarrow> (r, \<lparr>rc_disk = ms_disk m, rc_writes = [], rc_other = id\<rparr>))"

definition race_session :: "race_state session" where
  "race_session =
     \<lparr>se_add_user = (\<lambda>r. race_write (\<lambda>t. t\<lparr>tb_users := tb_users t @ [r]\<rparr>)),
      se_add_token = (\<lambda>r. race_write (\<lambda>t. t\<lparr>tb_tokens := tb_tokens t @ [r]\<rparr>)),
      se_get_user = (\<lambda>i. readM (\<lambda>s. map_option read_user
        (find (\<lambda>r. um_id r = i) (tb_users (rc_disk s))))),
      se_get_token = (\<lambda>j. readM (\<lambda>s. map_option read_token
        (find (\<lambda>r. rm_jti r = j) (tb_tokens (rc_disk s))))),
      se_assign_user = (\<lambda>i f. race_write (\<lambda>t.
        t\<lparr>tb_users := map (\<lambda>r. if um_id r = i then f r else r) (tb_users t)\<rparr>)),
      se_assign_token = (\<lambda>j f. race_write (\<lambda>t.
        t\<lparr>tb_tokens := map (\<lambda>r. if rm_jti r = j then f r else r) (tb_tokens t)\<rparr>)),
      se_select_users = (\<lambda>P. readM (\<lambda>s. map read_user (filter P (tb_users (rc_disk s))))),
      se_exists_user = (\<lambda>P. readM (\<lambda>s. list_ex P (tb_users (rc_disk s)))),
      se_page_users = (\<lambda>P n. readM (\<lambda>s.
        map read_user (take n (sort_key um_id (filter P (tb_users (rc_disk s))))))),
      se_update_tokens = (\<lambda>P f. race_write (\<lambda>t.
        t\<lparr>tb_tokens := map (\<lambda>r. if P r then f r else r) (tb_tokens t)\<rparr>)),
      se_ping = retM (),
      se_commit = race_commit,
      se_rollback = (\<lambda>s. (Inr (), s\<lparr>rc_writes := []\<rparr>)),
      se_close = (\<lambda>s. (Inr (), s\<lparr>rc_writes := []\<rparr>))\<rparr>"

section \<open>What a refresh does to a database that has moved on\<close>

abbreviation meanwhile :: "(race_state, 'r) world \<Rightarrow> tables" where
  "meanwhile w \<equiv> rc_other (store w) (rc_disk (store w))"

text \<open>Tables that hold a sound account store can be committed.\<close>

definition holds_store :: "tables \<Rightarrow> account_store \<Rightarrow> bool" where
  "holds_store t st \<longleftrightarrow> keyed t \<and> database_of t = rows_of st \<and> wf_store st"

lemma holds_storeD:
  assumes "holds_store t st"
  shows "database_of t = rows_of st" "wf_store st" "store_of (database_of t) = st" "tables_fit t"
    "distinct (map um_email (tb_users t))"
    "st_users st i \<noteq> None \<Longrightarrow> i \<in> um_id ` set (tb_users t)"
    "st_tokens st j = None \<Longrightarrow> j \<notin> rm_jti ` set (tb_tokens t)"
proof -
  have t: "keyed t" and rows: "database_of t = rows_of st" and wf: "wf_store st"
    using assms by (simp_all add: holds_store_def)
  then show "database_of t = rows_of st" "wf_store st" "store_of (database_of t) = st"
    by simp_all
  show "tables_fit t" "distinct (map um_email (tb_users t))"
    using rows_of_valid [OF wf] by (simp_all add: tables_fit_iff [OF t] distinct_emails_iff [OF t] rows)
  show "i \<in> um_id ` set (tb_users t)" if "st_users st i \<noteq> None"
    using that database_of_user_None [of t i] by (auto simp: rows rows_of_def)
  show "j \<notin> rm_jti ` set (tb_tokens t)" if "st_tokens st j = None"
    using that fun_cong [OF arg_cong [OF rows, of db_tokens], of j]
    by (simp add: database_of_def rows_of_def find_None_key)
qed

lemma leaves_holds:
  assumes "leaves mem_good mem_pending mem_disk w st w'"
  shows "holds_store (ms_disk (store w')) st"
  using assms by (auto simp: settled_def clean_def uow_ok_def holds_store_def mem_good_def mem_disk_def content_def)

text \<open>The two writes of a rotation, and the rows its commit makes of those it finds.\<close>

definition use_token :: "refresh_token_record \<Rightarrow> tables \<Rightarrow> tables" where
  "use_token old t =
     t\<lparr>tb_tokens := map (\<lambda>r. if rm_jti r = rt_jti old then token_apply_to_model old r else r) (tb_tokens t)\<rparr>"

definition insert_token :: "refresh_token_record \<Rightarrow> tables \<Rightarrow> tables" where
  "insert_token next t = t\<lparr>tb_tokens := tb_tokens t @ [token_to_model next]\<rparr>"

definition overtaken :: "refresh_token_record \<Rightarrow> refresh_token_record \<Rightarrow> tables \<Rightarrow> tables" where
  "overtaken old next t = insert_token next (use_token old t)"

lemma rotated_row_keys [simp]:
  "rm_jti (token_apply_to_model r m) = rm_jti m" "rm_user_id (token_apply_to_model r m) = rm_user_id m"
  by (simp_all add: token_apply_to_model_def)

lemmas overtaken_defs = overtaken_def use_token_def insert_token_def

lemma race_reads_token:
  assumes "database_of d = rows_of st" and "wf_store st" and "st_tokens st j = Some r"
  shows "find (\<lambda>r. rm_jti r = j) (tb_tokens d) = Some (token_to_model r)"
    and "token_to_domain (read_token (token_to_model r)) = r"
  using assms(1,3) token_mapper_roundtrip [OF wf_storeD(7) [OF assms(2,3)] read_token_reads]
  by (simp_all add: database_of_def rows_of_def fun_eq_iff)

lemma race_reads_user:
  assumes "database_of d = rows_of st" and "wf_store st" and "st_users st i = Some u"
  shows "find (\<lambda>r. um_id r = i) (tb_users d) = Some (user_to_model u)"
    and "user_or_none (Some (read_user (user_to_model u))) = Inr (Some u)"
proof -
  show "find (\<lambda>r. um_id r = i) (tb_users d) = Some (user_to_model u)"
    using assms(1,3) by (simp add: database_of_def rows_of_def fun_eq_iff)
  have "stored u = u"
    using wf_storeD(4) [OF assms(2,3)] by (simp add: stored_def)
  then show "user_or_none (Some (read_user (user_to_model u))) = Inr (Some u)"
    using user_mapper_roundtrip [OF wf_storeD(2) [OF assms(2,3)] read_user_reads]
    by (simp add: user_or_none_def)
qed

lemma race_use_token:
  assumes "find (\<lambda>r. rm_jti r = rt_jti old) (tb_tokens (rc_disk s)) = Some row"
  shows "sql_token_update race_session old s = (Inr (), s\<lparr>rc_writes := rc_writes s @ [use_token old]\<rparr>)"
proof -
  have "rm_jti row = rt_jti old"
    using assms by (auto simp: find_Some_iff)
  then show ?thesis
    by (simp add: sql_token_update_def race_session_def race_write_def io_simps assms read_token_def
        use_token_def [abs_def])
qed

lemma race_insert_token:
  "sql_token_add race_session next s = (Inr (), s\<lparr>rc_writes := rc_writes s @ [insert_token next]\<rparr>)"
  by (simp add: sql_token_add_def race_session_def race_write_def insert_token_def [abs_def])

lemma overtaken_tokens:
  assumes "rt_jti next \<notin> rm_jti ` set (tb_tokens t)"
  shows "db_tokens (database_of (overtaken old next t)) (rt_jti next) = Some (token_to_model next)"
    and "j \<noteq> rt_jti old \<Longrightarrow> j \<noteq> rt_jti next \<Longrightarrow>
      db_tokens (database_of (overtaken old next t)) j = db_tokens (database_of t) j"
proof -
  let ?f = "\<lambda>r. if rm_jti r = rt_jti old then token_apply_to_model old r else r"
  have jti: "rm_jti (?f r) = rm_jti r" for r
    by simp
  have "find (\<lambda>r. rm_jti r = rt_jti next) (map ?f (tb_tokens t)) = None"
    using assms by (auto simp: find_None_iff jti image_iff)
  then show "db_tokens (database_of (overtaken old next t)) (rt_jti next) = Some (token_to_model next)"
    by (simp add: database_of_def overtaken_defs find_append token_to_model_def)
  assume "j \<noteq> rt_jti old" "j \<noteq> rt_jti next"
  have "find (\<lambda>r. rm_jti r = j) (map ?f rs) = find (\<lambda>r. rm_jti r = j) rs" for rs
    by (induction rs) (use \<open>j \<noteq> rt_jti old\<close> in \<open>auto simp: jti\<close>)
  with \<open>j \<noteq> rt_jti next\<close>
  show "db_tokens (database_of (overtaken old next t)) j = db_tokens (database_of t) j"
    by (simp add: database_of_def overtaken_defs find_append token_to_model_def split: option.split)
qed

lemma overtaken_live:
  assumes "rt_jti next \<notin> rm_jti ` set (tb_tokens t)" and "rt_revoked_at next = None"
  shows "family_live (store_of (database_of (overtaken old next t))) (rt_family_id next) (rt_jti next)"
  using assms(2) by (simp add: family_live_iff store_of_def overtaken_tokens(1) [OF assms(1)])
    (simp add: token_to_domain_def token_to_model_def)

lemma overtaken_commits:
  assumes "tables_fit t" and "distinct (map um_email (tb_users t))"
    and "uid_value (rt_user_id next) \<in> um_id ` set (tb_users t)"
  shows "mem_commit \<lparr>ms_pending = overtaken old next t, ms_disk = d\<rparr> =
    (Inr (), \<lparr>ms_pending = overtaken old next t, ms_disk = overtaken old next t\<rparr>)"
  using assms
  by (auto simp: mem_commit_def tables_fit_def overtaken_defs token_to_model_def token_apply_to_model_def list_all_iff)

lemma race_commit_rotation:
  assumes "rc_writes s = [use_token old, insert_token next]"
    and "tables_fit (rc_other s (rc_disk s))" and "distinct (map um_email (tb_users (rc_other s (rc_disk s))))"
    and "uid_value (rt_user_id next) \<in> um_id ` set (tb_users (rc_other s (rc_disk s)))"
  shows "sql_commit race_session s =
    (Inr (), \<lparr>rc_disk = overtaken old next (rc_other s (rc_disk s)), rc_writes = [], rc_other = id\<rparr>)"
  using overtaken_commits [OF assms(2-4)]
  by (simp add: sql_commit_def race_session_def race_commit_def assms(1) io_simps overtaken_def)

context jwt_tokens
begin

lemma refresh_on_race:
  fixes w :: "(race_state, 'r) world" and settings :: jwt_settings
  defines "T \<equiv> jwt_token_service J settings C"
  assumes env: "env_ok (env w)"
    and snapshot: "database_of (rc_disk (store w)) = rows_of st" "wf_store st" "rc_writes (store w) = []"
    and now: "refresh_now T C tok w = Inr now"
    and decision: "refresh_decision st (fst (ts_decode T tok (env w))) now = Rotated r u"
    and moved: "tables_fit (meanwhile w)" "distinct (map um_email (tb_users (meanwhile w)))"
      "uid_value (usr_id u) \<in> um_id ` set (tb_users (meanwhile w))"
  shows "\<exists>pair w' d. refresh_execute (sql_unit_of_work race_session) T C \<lparr>rc_refresh_token = tok\<rparr> w = (Inr pair, w') \<and>
    rc_disk (store w') = overtaken (revoke now r) (successor r u (next_uuid (env w)) d) (meanwhile w)"
proof -
  obtain p i where p: "fst (ts_decode T tok (env w)) = Inr p" "tp_token_type p = Refresh"
      "st_tokens st (tp_token_id p) = Some r" "\<not> is_revoked r"
      "\<not> timestamp_us (rt_expires_at r) \<le> timestamp_us now"
      "user_id_from_str (tp_subject p) = Inr i" "st_users st (uid_value i) = Some u" "usr_is_active u"
    using decision by (auto simp: refresh_decision_def token_owner_Some split: sum.splits option.splits if_splits)
  obtain n where n: "ts_decode T tok (env w) = (Inr p, (env w)\<lparr>clock_reads := n\<rparr>)"
    using decode_run [of settings tok "env w"] p(1) by (auto simp: T_def prod_eq_iff)
  have e1: "env_ok ((env w)\<lparr>clock_reads := n\<rparr>)"
    using env by simp
  obtain m where m: "C ((env w)\<lparr>clock_reads := n\<rparr>) = (Inr now, (env w)\<lparr>clock_reads := m\<rparr>)" "is_utc now"
    using now_run [OF e1] now by (auto simp: refresh_now_def n)
  have "token_wf r" "rt_jti r = tp_token_id p"
    using wf_storeD(6,7) [OF snapshot(2) p(3)] by simp_all
  then have le: "dt_le (rt_expires_at r) now = Some False"
    using m(2) p(5) by (simp add: token_wf_def dt_le_aware is_utc_aware)
  define e2 where "e2 = (env w)\<lparr>clock_reads := m, uuid_draws := Suc (uuid_draws (env w))\<rparr>"
  have e2: "env_ok e2"
    using env by (simp add: e2_def)
  obtain it k where it: "ts_create_refresh_token T (user_id_str (usr_id u)) (next_uuid (env w)) e2 =
      (Inr it, e2\<lparr>clock_reads := k\<rparr>)"
    using create_refresh_run [OF e2] unfolding T_def by blast
  have e3: "env_ok (e2\<lparr>clock_reads := k\<rparr>)"
    using e2 by simp
  obtain access n' m' where access: "ts_create_access_token T (user_id_str (usr_id u)) (e2\<lparr>clock_reads := k\<rparr>) =
      (Inr access, e2\<lparr>clock_reads := n', uuid_draws := m'\<rparr>)"
    using create_access_run [OF e3, of settings "user_id_str (usr_id u)"] unfolding T_def by auto
  define old where "old = revoke now r"
  define new_r where "new_r = successor r u (next_uuid (env w)) (it_expires_at it)"
  note row = race_reads_token [OF snapshot(1,2) p(3)]
  note user_row = race_reads_user [OF snapshot(1,2) p(7)]
  have get_token: "sql_token_get_by_jti race_session (tp_token_id p) (store w) = (Inr (Some r), store w)"
    by (simp add: sql_token_get_by_jti_def race_session_def io_simps row)
  have get_user: "sql_user_get_by_id race_session i (store w) = (Inr (Some u), store w)"
    by (simp add: sql_user_get_by_id_def race_session_def io_simps user_row)
  have "rt_jti old = tp_token_id p"
    using \<open>rt_jti r = tp_token_id p\<close> by (simp add: old_def)
  then have use: "sql_token_update race_session old (store w) =
      (Inr (), (store w)\<lparr>rc_writes := [use_token old]\<rparr>)"
    using race_use_token [of old "store w"] row(1) snapshot(3) by simp
  have commit: "sql_commit race_session ((store w)\<lparr>rc_writes := [use_token old, insert_token new_r]\<rparr>) =
      (Inr (), \<lparr>rc_disk = overtaken old new_r (meanwhile w), rc_writes = [], rc_other = id\<rparr>)"
    using moved by (subst race_commit_rotation) (simp_all add: new_r_def successor_def)
  have "refresh_execute (sql_unit_of_work race_session) T C \<lparr>rc_refresh_token = tok\<rparr> w =
      (Inr \<lparr>pair_access_token = access, pair_refresh_token = it_token it, pair_token_type = Bearer\<rparr>,
       w\<lparr>store := \<lparr>rc_disk = overtaken old new_r (meanwhile w), rc_writes = [], rc_other = id\<rparr>,
         env := e2\<lparr>clock_reads := n', uuid_draws := m'\<rparr>\<rparr>)"
    using it access use commit
    unfolding old_def new_r_def successor_def next_uuid_def e2_def
    by (simp add: refresh_execute_def io_simps n m p le get_token get_user race_insert_token
        active_user_def Let_def)
  then show ?thesis
    unfolding old_def new_r_def by (intro exI) (rule conjI, assumption, simp)
qed

end


text \<open>A second request, or any other, that reads the example and commits after \<open>t\<close> was committed.\<close>

definition overlapping :: "tables \<Rightarrow> (race_state, unit) world" where
  "overlapping committed_first =
     \<lparr>store = \<lparr>rc_disk = example_tables, rc_writes = [], rc_other = (\<lambda>_. committed_first)\<rparr>, cache = (),
      env = example_env\<lparr>uuid_draws := 2\<rparr>\<rparr>"

lemma overlapping_simps [simp]:
  "rc_disk (store (overlapping t)) = example_tables" "rc_writes (store (overlapping t)) = []"
  "rc_other (store (overlapping t)) d = t" "next_uuid (env (overlapping t)) = 102"
  "clock_feed (env (overlapping t)) = clock_feed example_env" "env_ok (env (overlapping t))"
  by (simp_all add: overlapping_def next_uuid_def env_ok_def example_env_def)

lemma example_tables_hold: "holds_store example_tables example_store"
  using example_clean(1) example_rows example_store_wf
  by (simp add: holds_store_def clean_def uow_ok_def mem_good_def example_world_def)


section \<open>Two registrations of one address\<close>

text \<open>The write of a registration, and its commit on the rows it finds.\<close>

definition insert_user :: "user \<Rightarrow> tables \<Rightarrow> tables" where
  "insert_user u t = t\<lparr>tb_users := tb_users t @ [user_to_model u]\<rparr>"

lemma holds_store_taken:
  assumes "holds_store t st"
  shows "list_ex (\<lambda>r. um_email r = email_value em) (tb_users t) \<longleftrightarrow> email_taken st em"
proof -
  have "keyed t" and "database_of t = rows_of st" and wf: "wf_store st"
    using assms by (simp_all add: holds_store_def)
  then have rows: "r \<in> set (tb_users t) \<and> um_id r = i \<longleftrightarrow> map_option user_to_model (st_users st i) = Some r" for r i
    using database_of_users [of t i r] by (simp add: rows_of_def)
  show ?thesis
  proof
    assume "list_ex (\<lambda>r. um_email r = email_value em) (tb_users t)"
    then obtain r where "r \<in> set (tb_users t)" "um_email r = email_value em"
      by (auto simp: list_ex_iff)
    with rows [of r "um_id r"] obtain u where "st_users st (um_id r) = Some u" "usr_email u = em"
      by (auto simp: user_to_model_def)
    then show "email_taken st em"
      unfolding email_taken_def by blast
  next
    assume "email_taken st em"
    then obtain i u where "st_users st i = Some u" "usr_email u = em"
      by (auto simp: email_taken_def)
    with rows [of "user_to_model u" i] show "list_ex (\<lambda>r. um_email r = email_value em) (tb_users t)"
      by (auto simp: list_ex_iff user_to_model_def intro!: bexI [of _ "user_to_model u"])
  qed
qed

lemma inserted_user_holds:
  assumes t: "holds_store t st" and u: "user_wf u" "user_fits u"
    and free: "\<not> email_taken st (usr_email u)" and new: "st_users st (uid_value (usr_id u)) = None"
  shows "holds_store (insert_user u t) (put_user u st)"
proof -
  have rows: "database_of t = rows_of st" and "keyed t" "wf_store st"
    using t by (simp_all add: holds_store_def)
  moreover from new have "db_users (database_of t) (um_id (user_to_model u)) = None"
    by (simp add: rows rows_of_def user_to_model_def)
  ultimately show ?thesis
    using database_add_user [of t "user_to_model u"] wf_put_user_new [OF _ u free]
    by (simp add: holds_store_def insert_user_def rows_of_put_user)
qed

lemma race_commit_registration:
  assumes t: "holds_store (rc_other s (rc_disk s)) st" and w: "rc_writes s = [insert_user u]"
    and u: "user_wf u" "user_fits u" and new: "st_users st (uid_value (usr_id u)) = None"
  shows "sql_commit race_session s =
    (if email_taken st (usr_email u)
     then (Inl (raised EmailAlreadyExistsError), \<lparr>rc_disk = rc_other s (rc_disk s), rc_writes = [], rc_other = id\<rparr>)
     else (Inr (), \<lparr>rc_disk = insert_user u (rc_other s (rc_disk s)), rc_writes = [], rc_other = id\<rparr>))"
proof (cases "email_taken st (usr_email u)")
  case True
  let ?t = "rc_other s (rc_disk s)"
  have "email_value (usr_email u) \<in> um_email ` set (tb_users ?t)"
    using True holds_store_taken [OF t, of "usr_email u"] by (force simp: list_ex_iff)
  then have "\<not> distinct (map um_email (tb_users (insert_user u ?t)))"
    by (simp add: insert_user_def user_to_model_def)
  moreover have "tables_fit (insert_user u ?t)"
    using holds_storeD(4) [OF t] u(2)
    by (auto simp: tables_fit_def insert_user_def user_to_model_def user_fits_def list_all_iff)
  moreover have "names_email_constraint ''UNIQUE constraint failed: users.email''"
    by (simp add: names_email_constraint_def email_unique_markers_def)
  ultimately show ?thesis
    using True by (simp add: sql_commit_def race_session_def race_commit_def w io_simps mem_commit_def)
next
  case False
  note t' = holds_storeD(4,5) [OF inserted_user_holds [OF t u False new]]
  from False t' show ?thesis
    by (simp add: sql_commit_def race_session_def race_commit_def w io_simps mem_commit_def)
qed



end
