(* ===== verification/Seed.thy ===== *)
theory Seed
  imports Example_World Application
begin

text \<open>
  The seed script (\<^verbatim>\<open>scripts/seed.py\<close>): settings, logging and the container first, then the registration
  handler, resolved from the container and driven outside a request in a session of its own, with the
  container closed at the end. What the script configures and makes is data (\<open>startup_call\<close>); the
  libraries that are called with it are the argument \<open>call\<close>, and the closing of the container, which is
  Dishka's, is the argument \<open>close\<close>.
\<close>

definition demo_email :: string where
  "demo_email = ''demo@example.com''"

definition demo_password :: string where
  "demo_password = ''demo-password-change-me''"

text \<open>\<^verbatim>\<open>request_scope.get(CreateUserHandler)\<close>; the depth is enough for every component, as \<open>Container\<close> shows.\<close>

definition resolve_handler :: "factory list \<Rightarrow> (exn, 'w, component_key list) io" where
  "resolve_handler registry =
     (case build registry 8 Request_Scope [Create_User_Key] [] of
        None \<Rightarrow> raiseM (Python_Error ''NoFactoryError'')
      | Some made \<Rightarrow> retM made)"

text \<open>What happens in the scope of the session, once the handler is there.\<close>

definition seed_body :: "'s session \<Rightarrow> pwdlib \<Rightarrow> (exn, ('s, 'r) world, unit) io" where
  "seed_body S P =
     with_session S
       (tryM
         (bindM (create_user_handler S P \<lparr>cu_email = demo_email, cu_password = demo_password\<rparr>) (\<lambda>view.
          on_env (log_at ''info'' ''seed.user_created''
            [(''user_id'', uuid_str (uv_id view)), (''email'', uv_email view)])))
         (\<lambda>x. if is_domain EmailAlreadyExistsError x
              then on_env (log_at ''info'' ''seed.user_exists'' [(''email'', demo_email)])
              else raiseM x))"

definition seed ::
  "'s session \<Rightarrow> pwdlib \<Rightarrow> string + settings \<Rightarrow> (startup_call \<Rightarrow> (exn, ('s, 'r) world, unit) io) \<Rightarrow>
   (exn, ('s, 'r) world, unit) io \<Rightarrow> (exn, ('s, 'r) world, unit) io" where
  "seed S P read call close =
     (case fst (get_settings read None) of
        Inl _ \<Rightarrow> raiseM (Python_Error ''ValidationError'')
      | Inr settings \<Rightarrow>
          thenM (call (Configure_Logging (configure_logging settings)))
          (thenM (call (Make_Container (create_container []) settings))
          (finallyM
            (bindM (resolve_handler (create_container [])) (\<lambda>_. seed_body S P))
            close)))"

lemma resolve_handler_run: "\<exists>made. resolve_handler (create_container []) w = (Inr made, w)"
proof -
  have "Create_User_Key \<in> set all_keys"
    by (simp add: all_keys_complete)
  then obtain made where "build (create_container []) 8 Request_Scope [Create_User_Key] [] = Some made"
    using builds_all_keys unfolding list_all_iff by (metis option.exhaust option.simps(4))
  then show ?thesis
    by (simp add: resolve_handler_def retM_def)
qed

lemma seed_run:
  assumes "\<And>c w. call c w = (Inr (), w)" and "\<And>w. close w = (Inr (), w)"
  shows "seed S P read call close w =
    (case settings_init read of Inl _ \<Rightarrow> (Inl (Python_Error ''ValidationError''), w) | Inr _ \<Rightarrow> seed_body S P w)"
proof -
  obtain made where resolve: "resolve_handler (create_container []) w = (Inr made, w)"
    using resolve_handler_run [of w] ..
  have get: "fst (get_settings read None) = settings_init read"
    by (simp add: get_settings_def split: sum.split)
  have "finallyM (bindM (resolve_handler (create_container [])) (\<lambda>_. seed_body S P)) close w = seed_body S P w"
    by (simp add: finallyM_def bindM_def resolve assms(2) split: prod.split)
  then show ?thesis
    unfolding seed_def get
    by (simp only: thenM_def bindM_def raiseM_def assms(1) prod.case sum.case split: sum.split) simp
qed

lemma demo_email_new: "email_new demo_email = Inr (Email demo_email)"
  by code_simp

lemma quiet_close:
  assumes "sqlalchemy_session S good pending disk" and "quiet good pending disk w"
  shows "\<exists>w'. on_store (se_close S) w = (Inr (), w') \<and> quiet good pending disk w' \<and>
    committed disk w' = committed disk w \<and> env w' = env w \<and> cache w' = cache w"
proof -
  have ok: "uow_ok good pending disk (store w)" "env_ok (env w)"
    using assms(2) by (simp_all add: clean_def)
  obtain s where "se_close S (store w) = (Inr (), s)" "good s" "pending s = disk (store w)"
      "disk s = disk (store w)"
    using sqlalchemy_session.session_close [OF assms(1), of "store w"] ok(1)
    by (auto simp: uow_ok_def elim!: yieldsE)
  with ok show ?thesis
    by (auto simp: on_store_def clean_def uow_ok_def content_def)
qed

lemma seed_fresh:
  assumes tp: "third_party S good pending disk J P matches known" and q: "quiet good pending disk w"
    and free: "\<not> email_taken (committed disk w) (Email demo_email)"
    and new: "st_users (committed disk w) (next_uuid (env w)) = None"
  shows "\<exists>u w'. seed_body S P w = (Inr (), w') \<and> quiet good pending disk w' \<and>
    usr_email u = Email demo_email \<and> usr_is_active u \<and> matches demo_password (hp_value (usr_hashed_password u)) \<and>
    committed disk w' = put_user u (committed disk w) \<and>
    logs (env w') = logs (env w) @
      registration_logs (UserRegistered (uid_value (usr_id u)) demo_email (usr_created_at u)) @
      [Log_Entry ''info'' ''seed.user_created''
        [(''user_id'', uuid_str (uid_value (usr_id u))), (''email'', demo_email)]]"
proof -
  let ?c = "\<lparr>cu_email = demo_email, cu_password = demo_password\<rparr>"
  have em: "email_new (cu_email ?c) = Inr (Email demo_email)" and len: "length (email_value (Email demo_email)) \<le> 320"
    by (simp_all add: demo_email_new) (simp add: demo_email_def)
  obtain u w1 where u: "usr_id u = UserId (next_uuid (env w))" "usr_email u = Email demo_email" "usr_is_active u"
      "matches demo_password (hp_value (usr_hashed_password u))"
    and w1: "leaves good pending disk w (put_user u (committed disk w)) w1"
    and run: "create_user_handler S P ?c w =
      thenM (on_env (default_event_dispatcher
          [UserRegistered (next_uuid (env w)) demo_email (usr_created_at u)]))
        (retM \<lparr>uv_id = next_uuid (env w), uv_email = demo_email, uv_is_active = True,
               uv_created_at = usr_created_at u\<rparr>) w1"
    using auth_ports.create_user_registers [OF third_party.ports [OF tp] q em len free new]
    unfolding create_user_handler_def by (metis create_user_command.select_convs(2) email.sel)
  let ?w2 = "w1\<lparr>env := (env w1)\<lparr>logs := logs (env w) @
      registration_logs (UserRegistered (next_uuid (env w)) demo_email (usr_created_at u)) @
      [Log_Entry ''info'' ''seed.user_created''
        [(''user_id'', uuid_str (next_uuid (env w))), (''email'', demo_email)]]\<rparr>\<rparr>"
  have q2: "quiet good pending disk ?w2"
    using w1 by (simp add: settled_def clean_def)
  obtain w3 where "on_store (se_close S) ?w2 = (Inr (), w3)" "quiet good pending disk w3"
      "committed disk w3 = committed disk ?w2" "env w3 = env ?w2"
    using quiet_close [OF third_party.axioms(1) [OF tp] q2] by blast
  with u w1 run show ?thesis
    by (intro exI [of _ u] exI [of _ w3])
       (simp add: seed_body_def with_session_def io_simps default_dispatch_run settled_def)
qed

lemma seed_again:
  assumes tp: "third_party S good pending disk J P matches known" and q: "quiet good pending disk w"
    and taken: "email_taken (committed disk w) (Email demo_email)"
  shows "\<exists>w'. seed_body S P w = (Inr (), w') \<and> quiet good pending disk w' \<and>
    committed disk w' = committed disk w \<and>
    logs (env w') = logs (env w) @ [Log_Entry ''info'' ''seed.user_exists'' [(''email'', demo_email)]]"
proof -
  let ?c = "\<lparr>cu_email = demo_email, cu_password = demo_password\<rparr>"
  have em: "email_new (cu_email ?c) = Inr (Email demo_email)"
    by (simp add: demo_email_new)
  obtain w1 where run: "create_user_handler S P ?c w = (Inl (raised EmailAlreadyExistsError), w1)"
    and w1: "leaves good pending disk w (committed disk w) w1"
    using auth_ports.create_user_duplicate [OF third_party.ports [OF tp] q em taken,
      where D = default_event_dispatcher]
    unfolding create_user_handler_def by (auto elim: raisesE)
  let ?w2 = "w1\<lparr>env := (env w1)\<lparr>logs := logs (env w) @
      [Log_Entry ''info'' ''seed.user_exists'' [(''email'', demo_email)]]\<rparr>\<rparr>"
  have q2: "quiet good pending disk ?w2"
    using w1 by (simp add: settled_def clean_def)
  obtain w3 where "on_store (se_close S) ?w2 = (Inr (), w3)" "quiet good pending disk w3"
      "committed disk w3 = committed disk ?w2" "env w3 = env ?w2"
    using quiet_close [OF third_party.axioms(1) [OF tp] q2] by blast
  with w1 run show ?thesis
    by (intro exI [of _ w3])
       (simp add: seed_body_def with_session_def io_simps settled_def)
qed



end
