(* ===== verification/Spec2Isabelle.thy ===== *)
theory Spec2Isabelle
  imports Data_Properties Http_Properties Race Seed Container
begin

text \<open>
  A verification development for the FastAPI clean-architecture starter under \<^verbatim>\<open>src/app\<close>: user accounts
  with password login, short-lived access tokens, rotating refresh tokens with replay detection, and the
  HTTP layer around them.

  \<^bold>\<open>Style of the model.\<close> The program is asynchronous Python that raises exceptions. A computation is a
  function from a world to an outcome (\<open>Inl\<close> of an exception, \<open>Inr\<close> of a result) and the world it leaves
  (theory \<open>Prelude\<close>); every handler, repository method, middleware and endpoint is one definition, line by
  line, built with \<open>bindM\<close>, \<open>thenM\<close>, \<open>tryM\<close> and \<open>finallyM\<close>. The world of a request is the database session,
  the Redis cache, and the environment: the readings of the clock and the values of \<^verbatim>\<open>uuid4\<close> still to come,
  the number of password-hash runs, and the log (\<open>Ports\<close>).

  \<^bold>\<open>Theories, from the inside out.\<close>
  \<open>Python_Text\<close>, \<open>Python_Re\<close>, \<open>Python_Uuid\<close>, \<open>Python_Time\<close>, \<open>Python_Base64\<close>: what the source uses of the
  standard library (\<^verbatim>\<open>str\<close>, \<^verbatim>\<open>re\<close>, \<^verbatim>\<open>uuid.UUID\<close> on 128-bit words, \<^verbatim>\<open>datetime\<close>, \<^verbatim>\<open>base64\<close> and UTF-8).
  \<open>Domain_Errors\<close>, \<open>Value_Objects\<close>, \<open>Entities\<close>: \<^verbatim>\<open>app/domain\<close>.
  \<open>Ports\<close>: the Protocol classes of \<^verbatim>\<open>app/application/shared/interfaces.py\<close> and of the repositories as records,
  the abstract account store, and the contracts of the ports as locales.
  \<open>Use_Cases_Users\<close>, \<open>Use_Cases_Auth\<close>: the command handlers of \<^verbatim>\<open>app/application\<close>, with one lemma per branch
  inside the locale \<open>auth_ports\<close>.
  \<open>Auth_Spec\<close>: what refresh and logout decide, as functions of the committed store, and the refinement.
  \<open>System\<close>: the state machine of committed stores (\<open>auth_step\<close>), reachability, token families, and the
  lemmas that every handler takes at most one step.
  \<open>Orm_Mappers\<close>, \<open>Sql_Repositories\<close>, \<open>Query_Service\<close>: \<^verbatim>\<open>app/infrastructure/database\<close> and the query handlers.
  \<open>Config\<close>, \<open>Jwt_Service\<close>, \<open>Password_Hasher\<close>, \<open>Event_Dispatch\<close>, \<open>Rate_Limiter\<close>: settings and the other
  adapters.
  \<open>Assembly\<close>: the handlers on the program's own adapters and the session of a request; \<open>Container\<close>: the
  providers and the container of \<^verbatim>\<open>app/ioc\<close> as data; \<open>Seed\<close>: \<^verbatim>\<open>scripts/seed.py\<close>.
  \<open>Error_Handlers\<close>, \<open>Middleware\<close>, \<open>Endpoints\<close>: \<^verbatim>\<open>app/api\<close>; \<open>Startup\<close>, \<open>Application\<close>: \<^verbatim>\<open>app/core\<close> and
  \<^verbatim>\<open>app/main.py\<close> with the calls of the application factory in their order.
  \<open>Middleware_Stack\<close>: the installed layers together, and which headers a response has when it leaves them.
  \<open>Answers\<close>, \<open>Http_Api\<close>: the errors a handler can end with, by status; and a request with its dependencies,
  the validation of its fields, its endpoint and its answer (\<open>serve\<close>), in the order FastAPI documents:
  dependencies first, then the report on invalid fields, then the endpoint. \<open>api_step\<close> is one request of
  a sequence.
  \<open>Schema\<close>: the models and the migrations; \<open>Config_Parser\<close>, \<open>Migration_Runner\<close>: \<^verbatim>\<open>migrations/env.py\<close> and the
  interpolation of \<^verbatim>\<open>configparser\<close> its options go through.
  \<open>Reference_Session\<close>, \<open>Reference_Libraries\<close>, \<open>Reference_Redis\<close>, \<open>Example_World\<close>, \<open>Example_Api\<close>, \<open>Race\<close>:
  instances of the contracts and a small world to evaluate the properties on; they model no line of the program.

  \<^bold>\<open>Code that is not part of the program.\<close> SQLAlchemy, PyJWT, pwdlib, Redis and the
  layers of Starlette are records of the functions the source calls, and arguments of the definitions. What
  their documentation promises is stated by the locales \<open>sqlalchemy_session\<close>,
  \<open>pyjwt_library\<close>, \<open>pwdlib_library\<close>, \<open>redis_server\<close>,
  \<open>alembic_environment\<close> and \<open>starlette_layers\<close>. From these the contracts of the
  ports (\<open>unit_of_work_laws\<close>, \<open>token_service_laws\<close>,
  \<open>password_hasher_laws\<close>, \<open>clock_laws\<close>, \<open>user_query_laws\<close>,
  \<open>rate_limiter_laws\<close>) are derived for the adapters of the program by \<open>sublocale\<close>,
  and everything is interpreted on the program's own adapters over the reference libraries, so no contract
  is empty. \<open>third_party\<close> collects the contracts the authentication code stands on; it is the
  first hypothesis of the properties about handlers. \<open>api_services\<close> extends it by the limiter
  and what FastAPI and pydantic do with a request: \<^verbatim>\<open>HTTPBearer\<close>,
  \<^verbatim>\<open>EmailStr\<close> and the list of issues of an invalid request are parameters.

  \<^bold>\<open>What is shown.\<close> Sessions and tokens: refresh and logout implement their
  specifications; a token that is used twice takes its family down, however much later; a session that
  a logout or a change of password ended stays ended under any sequence of requests; the invariants of the
  stores that sequences of requests reach; every handler steps the store. Accounts: login does not tell why it
  refuses; login, registration and change of password do exactly what they should on every branch; events
  follow the commit. Access: the decision on bearer tokens and what the endpoints behind it answer. Data
  (\<open>Data_Properties\<close>): the unit of work keeps its port's contract; round trips of rows,
  tokens and cursors; the language of email addresses; pagination is complete; the application starts only
  on safe production settings; migrations build the models, and what a run of them does to a database.
  HTTP (\<open>Http_Properties\<close>): limits, answers to exceptions, request ids, body cap, the headers
  of every response that leaves the middleware, and that every request is answered with a documented
  status and leaves the store in order. \<open>Race\<close>: a refresh and a registration that overlap with
  another commit, at the isolation level READ COMMITTED, for every store committed meanwhile.
  \<open>Seed\<close>: seeding is idempotent, from the settings to the closing of the container. \<open>Container\<close>: every component can be built, in an order that respects what
  each needs.

  \<^bold>\<open>Bounds.\<close> Interpolation of an option recurses to the depth of ten that
  \<^verbatim>\<open>configparser\<close> allows. Two functions have fuel. \<open>list_all_pages\<close> is
  a client that follows cursors; the number of users plus one is enough. \<open>build\<close> resolves
  nested dependencies of the container; a depth of eight is enough for every component (the longest chain is
  a command handler, unit of work, session, session factory, engine, database settings, settings). Both are
  part of the properties. Every other loop of the program is structural.

  \<^bold>\<open>Not modelled.\<close> Routing, the reading of request bodies and the rendering of responses
  (FastAPI, pydantic; the constraints of the request schemas are modelled, with pydantic's
  \<^verbatim>\<open>EmailStr\<close> as a parameter), Dishka beyond the documented order of resolution, and
  the reading of the environment (pydantic-settings) are calls of libraries; so are the migration scripts'
  rendering to SQL and their execution. Texts are lists of Latin-1 code points, so case mapping and white
  space beyond them are out of scope; the range limits of \<^verbatim>\<open>datetime\<close> and the
  columns the database maintains by itself (\<^verbatim>\<open>updated_at\<close> of users,
  \<^verbatim>\<open>created_at\<close> of tokens) are left out of the rows. Apart from \<open>Race\<close>,
  requests run one transaction at a time.
\<close>

section \<open>Sessions and tokens\<close>

text \<open>C1. The refresh handler implements the specification \<open>refresh_decision\<close>. Over any SQLAlchemy session,
  PyJWT and pwdlib that keep their documented contracts, a refresh request that starts with nothing
  pending either is refused with the error the specification names and leaves the committed store as it
  was; or finds a token that was used before, answers InvalidTokenError and has revoked the whole family;
  or rotates: the presented token is revoked, one successor of the same family is stored under a fresh
  identifier, and the refresh token returned decodes to that successor while it is valid.\<close>

theorem refresh_handler_decides:
  assumes "third_party S good pending disk J P matches known"
    and "quiet good pending disk w"
    and "refresh_now (provided_token_service J config) system_clock tok w = Inr now"
    and "st_tokens (committed disk w) (next_uuid (env w)) = None"
  shows "refresh_outcome (provided_token_service J config) (jwt_fresh (refresh_lifetime (set_jwt config)))
    (leaves good pending disk w) (committed disk w) (next_uuid (env w))
    (refresh_decision (committed disk w)
      (fst (ts_decode (provided_token_service J config) tok (env w))) now)
    (refresh_handler S J config \<lparr>rc_refresh_token = tok\<rparr> w)"
  using auth_ports.refresh_refines [OF third_party.ports [OF assms(1)] assms(2-4)]
  by (simp add: refresh_handler_def)

lemma refresh_handler_decides_witness:
  "refresh_outcome (provided_token_service ref_pyjwt default_settings)
    (jwt_fresh (refresh_lifetime default_jwt_settings))
    (leaves mem_good mem_pending mem_disk example_world) example_store 100 (Rotated live_record alice)
    (refresh_handler mem_session ref_pyjwt default_settings
      \<lparr>rc_refresh_token = example_token Refresh (user_id_str (UserId 1)) 7\<rparr> example_world)"
proof -
  show ?thesis
    using refresh_handler_decides [OF example_third_party example_clean(1) example_now,
      of "example_token Refresh (user_id_str (UserId 1)) 7"]
    by (simp add: example_clean(2) example_next example_payload example_decision)
       (simp add: default_settings_def)
qed

text \<open>C2. Replay detection. If a refresh token has been exchanged successfully and is presented a second time, at
  once or after any number of other requests (and still decodes to the same payload), the second request is
  answered with InvalidTokenError, and the store it commits has no usable token left in the family of that
  token: whatever successor the family had got to is revoked with it.\<close>

theorem reused_token_kills_family:
  assumes "third_party S good pending disk J P matches known"
    and "quiet good pending disk w" and "fresh_ids (committed disk w) (env w)"
    and "refresh_handler S J config \<lparr>rc_refresh_token = tok\<rparr> w = (Inr pair, w1)"
    and "quiet good pending disk w2" and "auth_step\<^sup>*\<^sup>* (committed disk w1) (committed disk w2)"
    and "fst (ts_decode (provided_token_service J config) tok (env w2)) =
      fst (ts_decode (provided_token_service J config) tok (env w))"
  shows "\<exists>p r now. fst (ts_decode (provided_token_service J config) tok (env w)) = Inr p \<and>
    live_token (committed disk w) (tp_token_id p) r \<and> is_utc now \<and>
    raises (refresh_handler S J config \<lparr>rc_refresh_token = tok\<rparr> w2) (raised InvalidTokenError)
      (\<lambda>w3. leaves good pending disk w2 (revoke_family (rt_family_id r) now (committed disk w2)) w3 \<and>
        family_dead (committed disk w3) (rt_family_id r))"
  using auth_ports.refresh_again [OF third_party.ports [OF assms(1)] assms(2,3) _ assms(5-7)] assms(4)
  by (simp add: refresh_handler_def)

lemma reused_token_kills_family_witness:
  "\<exists>pair w1 w2. refresh_handler mem_session ref_pyjwt default_settings
      \<lparr>rc_refresh_token = live_text\<rparr> example_world = (Inr pair, w1) \<and>
    refresh_handler mem_session ref_pyjwt default_settings \<lparr>rc_refresh_token = live_text\<rparr> w1 =
      (Inl (raised InvalidTokenError), w2) \<and> family_dead (committed mem_disk w2) 70"
proof -
  obtain pair w1 now d where run: "refresh_handler mem_session ref_pyjwt default_settings
      \<lparr>rc_refresh_token = live_text\<rparr> example_world = (Inr pair, w1)"
    and w1: "leaves mem_good mem_pending mem_disk example_world (rotate live_record alice now 100 d example_store) w1"
    using example_rotation by blast
  have "clock_feed (env w1) = clock_feed example_env"
    using w1 by (simp add: settled_def example_world_def)
  note same = example_payload_at [OF this, of Refresh "user_id_str (UserId 1)" 7]
  have "rt_family_id r = 70" if "live_token example_store 7 r" for r
    using that by (auto simp: live_token_def live_record_def)
  moreover have "quiet mem_good mem_pending mem_disk w1"
    using w1 by (simp add: settled_def)
  ultimately show ?thesis
    using reused_token_kills_family [OF example_third_party example_clean(1) example_fresh run
        _ rtranclp.rtrancl_refl] run
    by (auto simp: same example_payload example_clean(2) elim!: raisesE)
qed

text \<open>C3. Any sequence of requests to the API, each answered before the next starts and drawing new identifiers,
  takes a store that registrations, logins, rotations, revocations and password changes can produce from
  the empty database to another such store, step by step of the state machine. Every such store is well
  formed (rows under their keys, value objects valid, email addresses unique, every refresh token owned by
  an existing user) and has at most one usable refresh token per family.\<close>

theorem reachable_stores_sound:
  assumes "api_services V good pending disk matches known hits up"
    and "quiet good pending disk w" and "up (cache w)" and "all_known known (committed disk w)"
    and "reachable (committed disk w)" and "(api_step phrase V disk)\<^sup>*\<^sup>* w w'"
  shows "quiet good pending disk w' \<and> auth_step\<^sup>*\<^sup>* (committed disk w) (committed disk w') \<and>
    reachable (committed disk w') \<and> wf_store (committed disk w') \<and> one_live_token (committed disk w') \<and>
    (\<forall>st. reachable st \<longrightarrow> wf_store st \<and> one_live_token st)"
proof -
  have start: "api_services.settled_world good pending disk known up w"
    using assms(2-4) by (simp add: api_services.settled_world_def [OF assms(1)])
  then have "quiet good pending disk w'" and steps: "auth_step\<^sup>*\<^sup>* (committed disk w) (committed disk w')"
    using api_services.api_steps_sound [OF assms(1,6) start]
    by (simp_all add: api_services.settled_world_def [OF assms(1)])
  moreover have "reachable (committed disk w')"
    using steps assms(5) by (induction rule: rtranclp.induct) (auto intro: reachable.step)
  ultimately show ?thesis
    by (simp add: reachable_wf reachable_one_live)
qed

lemma reachable_stores_sound_witness:
  "\<exists>w'. api_step (\<lambda>_. None) example_services mem_disk alice_world w' \<and>
    reachable (committed mem_disk w') \<and> one_live_token (committed mem_disk w')"
proof -
  let ?w = "snd (serve (\<lambda>_. None) example_services \<lparr>er_method = ''POST'', er_path = ''/'', er_request_id = None\<rparr>
      (Post_Login \<lparr>rq_path = ''/api/v1/auth/login'', rq_client_host = None\<rparr> ''alice@example.com'' ''secret'')
      alice_world)"
  have step: "api_step (\<lambda>_. None) example_services mem_disk alice_world ?w"
    unfolding api_step_def using alice_clean(4) by blast
  have "reachable (committed mem_disk alice_world)"
    by (simp add: alice_clean(2) alice_store_reachable)
  from reachable_stores_sound [OF example_api.api_services_axioms alice_clean(1) _ alice_clean(3) this
      r_into_rtranclp, OF _ step] step
  show ?thesis by blast
qed



text \<open>C5. Whatever the outcome of a request to one of the five handlers that write (errors included), the store
  it leaves committed is the store it found or one step of the state machine \<open>auth_step\<close> further, and
  no write is left pending. Identifiers drawn from \<^verbatim>\<open>uuid4\<close> are assumed to be new.\<close>

theorem handlers_step_the_store:
  assumes "third_party S good pending disk J P matches known"
    and "quiet good pending disk w"
    and "fresh_ids (committed disk w) (env w)" and "all_known known (committed disk w)"
    and "\<And>em. email_new (cu_email reg) = Inr em \<Longrightarrow> length (email_value em) \<le> 320"
  shows "\<forall>w' \<in> {snd (refresh_handler S J config \<lparr>rc_refresh_token = tok\<rparr> w),
      snd (logout_handler S J config \<lparr>lo_refresh_token = tok\<rparr> w), snd (login_handler S J P config cred w),
      snd (change_password_handler S P chg w), snd (create_user_handler S P reg w)}.
    quiet good pending disk w' \<and> steps_to (committed disk w) (committed disk w')"
proof -
  note ports = third_party.ports [OF assms(1)]
  have D: "env_ok e \<Longrightarrow> env_ok (snd (default_event_dispatcher events e))" for events e
    by (simp add: default_dispatch_run)
  show ?thesis
    using auth_ports.refresh_step [OF ports assms(2,3)] auth_ports.logout_step [OF ports assms(2)]
      auth_ports.login_step [OF ports assms(2,4,3)] auth_ports.change_password_step [OF ports assms(2,4)]
      auth_ports.create_user_step [OF ports assms(2,3,5) D]
    by (simp add: left_by_def refresh_handler_def logout_handler_def login_handler_def
        change_password_handler_def create_user_handler_def)
qed

lemma handlers_step_the_store_witness:
  "steps_to example_store (committed mem_disk (snd (logout_handler mem_session ref_pyjwt default_settings
     \<lparr>lo_refresh_token = example_token Refresh (user_id_str (UserId 1)) 7\<rparr> example_world)))"
proof -
  have "case email_new [] of Inl _ \<Rightarrow> True | Inr _ \<Rightarrow> False"
    by code_simp
  then have "email_new [] \<noteq> Inr em" for em
    by (auto split: sum.splits)
  then show ?thesis
    using handlers_step_the_store [OF example_third_party example_clean(1) example_fresh example_known,
      of "\<lparr>cu_email = [], cu_password = []\<rparr>"]
    by (simp add: example_clean(2))
qed

section \<open>Login, logout and passwords\<close>

text \<open>C6. A refused login does not tell why: for a well-formed address, an unknown account, an inactive account
  and a wrong password get the same InvalidCredentialsError, leave the store untouched, and cost exactly
  one run of the password-hashing function.\<close>

theorem login_refusals_are_uniform:
  assumes "third_party S good pending disk J P matches known"
    and "quiet good pending disk w" and "all_known known (committed disk w)"
    and "email_new (lc_email c) = Inr em"
    and "\<nexists>u. login_user matches (committed disk w) c u"
  shows "raises (login_handler S J P config c w) (raised InvalidCredentialsError)
    (\<lambda>w'. leaves good pending disk w (committed disk w) w' \<and>
          argon_runs (env w') = Suc (argon_runs (env w)))"
  using auth_ports.login_refused [OF third_party.ports [OF assms(1)] assms(2-5)]
  by (simp add: login_handler_def)

lemma login_refusals_are_uniform_witness:
  "raises (login_handler mem_session ref_pyjwt ref_pwdlib default_settings
      \<lparr>lc_email = ''nobody@example.com'', lc_password = ''secret''\<rparr> example_world)
    (raised InvalidCredentialsError)
    (\<lambda>w'. leaves mem_good mem_pending mem_disk example_world example_store w' \<and>
          argon_runs (env w') = 1)"
proof -
  have em: "email_new ''nobody@example.com'' = Inr (Email ''nobody@example.com'')"
    by code_simp
  have "\<nexists>u. login_user ref_matches example_store \<lparr>lc_email = ''nobody@example.com'', lc_password = ''secret''\<rparr> u"
    by (auto simp: login_user_def has_email_def em alice_def split: if_splits)
  then show ?thesis
    using login_refusals_are_uniform [OF example_third_party example_clean(1) example_known,
      of "\<lparr>lc_email = ''nobody@example.com'', lc_password = ''secret''\<rparr>"] em
    by (simp add: example_clean(2)) (simp add: example_world_def example_env_def)
qed

text \<open>C7. A login with the right password of an active user stores exactly one refresh token, the first of a new
  family with its own fresh identifier, and returns a pair whose refresh token decodes, while it is
  valid, to that user and that record.\<close>

theorem login_opens_a_family:
  assumes "third_party S good pending disk J P matches known"
    and "quiet good pending disk w" and "all_known known (committed disk w)"
    and "login_user matches (committed disk w) c u"
    and "st_tokens (committed disk w) (next_uuid (env w)) = None"
  shows "\<exists>it access. is_utc (it_expires_at it) \<and>
    (\<forall>e. jwt_fresh (refresh_lifetime (set_jwt config)) it e \<longrightarrow>
       fst (ts_decode (provided_token_service J config) (it_token it) e) =
       Inr \<lparr>tp_subject = user_id_str (usr_id u), tp_token_type = Refresh,
            tp_token_id = next_uuid (env w)\<rparr>) \<and>
    yields (login_handler S J P config c w)
      \<lparr>pair_access_token = access, pair_refresh_token = it_token it, pair_token_type = Bearer\<rparr>
      (\<lambda>w'. leaves good pending disk w (put_token (first_token u (next_uuid (env w))
              (next_family (env w)) (it_expires_at it)) (committed disk w)) w' \<and>
            argon_runs (env w') = Suc (argon_runs (env w)))"
  using auth_ports.login_succeeds [OF third_party.ports [OF assms(1)] assms(2-5), of config]
  unfolding login_handler_def by blast

lemma login_opens_a_family_witness:
  "\<exists>tokens w'. login_handler mem_session ref_pyjwt ref_pwdlib default_settings
      \<lparr>lc_email = '' ALICE@Example.com'', lc_password = ''secret''\<rparr> example_world = (Inr tokens, w') \<and>
    family_live (committed mem_disk w') 101 100"
proof -
  let ?c = "\<lparr>lc_email = '' ALICE@Example.com'', lc_password = ''secret''\<rparr>"
  have em: "email_new '' ALICE@Example.com'' = Inr (Email ''alice@example.com'')"
    by code_simp
  have u: "login_user ref_matches (committed mem_disk example_world) ?c alice"
    by (simp add: login_user_def has_email_def em example_clean(2) alice_def ref_matches_def)
  obtain it :: issued_token and access where
    "yields (login_handler mem_session ref_pyjwt ref_pwdlib default_settings ?c example_world)
      \<lparr>pair_access_token = access, pair_refresh_token = it_token it, pair_token_type = Bearer\<rparr>
      (\<lambda>w'. leaves mem_good mem_pending mem_disk example_world
              (put_token (first_token alice 100 101 (it_expires_at it)) example_store) w' \<and>
            argon_runs (env w') = Suc (argon_runs (env example_world)))"
    using login_opens_a_family [OF example_third_party example_clean(1) example_known u,
        where config = default_settings]
    by (auto simp: example_clean(2) example_next)
  then show ?thesis
    by (auto elim!: yieldsE simp: settled_def family_live_iff first_token_def)
qed

text \<open>C8. The logout handler implements \<open>logout_target\<close>: an undecodable token or one of the wrong type is refused
  and nothing changes; an unknown token is accepted and nothing changes; a known one (used before or not)
  has every token of its family revoked.\<close>

theorem logout_handler_decides:
  assumes "third_party S good pending disk J P matches known"
    and "quiet good pending disk w"
  shows "logout_outcome (leaves good pending disk w) (committed disk w)
    (logout_target (committed disk w) (fst (ts_decode (provided_token_service J config) tok (env w))))
    (logout_handler S J config \<lparr>lo_refresh_token = tok\<rparr> w)"
  using auth_ports.logout_refines [OF third_party.ports [OF assms(1)] assms(2)]
  by (simp add: logout_handler_def)

lemma logout_handler_decides_witness:
  "\<exists>now w'. logout_handler mem_session ref_pyjwt default_settings
      \<lparr>lo_refresh_token = example_token Refresh (user_id_str (UserId 1)) 7\<rparr> example_world = (Inr (), w') \<and>
    committed mem_disk w' = revoke_family 70 now example_store"
proof -
  have "logout_outcome (leaves mem_good mem_pending mem_disk example_world) example_store
    (Inr (Some live_record)) (logout_handler mem_session ref_pyjwt default_settings
      \<lparr>lo_refresh_token = example_token Refresh (user_id_str (UserId 1)) 7\<rparr> example_world)"
    using logout_handler_decides [OF example_third_party example_clean(1),
      where config = default_settings and tok = "example_token Refresh (user_id_str (UserId 1)) 7"]
    by (simp add: example_payload example_clean(2) logout_target_def)
  then show ?thesis
    by (auto simp: logout_outcome_def settled_def live_record_def elim!: yieldsE)
qed

text \<open>C9. A change of password distinguishes exactly three cases: an unknown user (UserNotFoundError, nothing
  changes), a wrong current password (InvalidCredentialsError, nothing changes), and success, which stores
  a hash of the new password and revokes every refresh token of that user and no other.\<close>

theorem change_password_decides:
  assumes "third_party S good pending disk J P matches known"
    and "quiet good pending disk w" and "all_known known (committed disk w)"
  shows "case st_users (committed disk w) (cp_user_id c) of
      None \<Rightarrow> raises (change_password_handler S P c w) (raised UserNotFoundError)
        (leaves good pending disk w (committed disk w))
    | Some u \<Rightarrow>
        (if matches (cp_current_password c) (hp_value (usr_hashed_password u))
         then \<exists>h now. matches (cp_new_password c) h \<and> is_utc now \<and>
           yields (change_password_handler S P c w) ()
             (leaves good pending disk w (revoke_where (\<lambda>r. rt_user_id r = usr_id u) now
               (put_user (user_change_password (HashedPassword h) u) (committed disk w))))
         else raises (change_password_handler S P c w) (raised InvalidCredentialsError)
           (leaves good pending disk w (committed disk w)))"
proof (cases "st_users (committed disk w) (cp_user_id c)")
  case None
  then show ?thesis
    using auth_ports.change_password_unknown_user [OF third_party.ports [OF assms(1)] assms(2)]
    by (simp add: change_password_handler_def)
next
  case (Some u)
  then have "known (hp_value (usr_hashed_password u))"
    using assms(3) by (auto simp: all_known_def)
  note branches = auth_ports.change_password_wrong_current [OF third_party.ports [OF assms(1)] assms(2) Some this]
    auth_ports.change_password_succeeds [OF third_party.ports [OF assms(1)] assms(2) Some this]
  show ?thesis
    using branches Some unfolding change_password_handler_def by auto
qed

lemma change_password_decides_witness:
  "\<exists>w'. change_password_handler mem_session ref_pwdlib
      \<lparr>cp_user_id = 1, cp_current_password = ''secret'', cp_new_password = ''changed''\<rparr> example_world =
      (Inr (), w') \<and>
    (\<forall>j r. st_tokens (committed mem_disk w') j = Some r \<longrightarrow> is_revoked r)"
proof -
  have "ref_matches ''secret'' (hp_value (usr_hashed_password alice))"
    by (simp add: alice_def ref_matches_def)
  then obtain h now where
    "yields (change_password_handler mem_session ref_pwdlib
      \<lparr>cp_user_id = 1, cp_current_password = ''secret'', cp_new_password = ''changed''\<rparr> example_world) ()
      (leaves mem_good mem_pending mem_disk example_world (revoke_where (\<lambda>r. rt_user_id r = usr_id alice) now
        (put_user (user_change_password (HashedPassword h) alice) example_store)))"
    using change_password_decides [OF example_third_party example_clean(1) example_known,
      of "\<lparr>cp_user_id = 1, cp_current_password = ''secret'', cp_new_password = ''changed''\<rparr>"]
    by (auto simp: example_clean(2))
  then show ?thesis
    by (auto elim!: yieldsE simp: settled_def live_record_def used_record_def alice_def revoke_def
        is_revoked_def split: if_splits)
qed

text \<open>C10. An ended session stays ended. After a successful change of password no refresh token of that user, and
  after a successful logout no refresh token of the family of the token presented, can ever be exchanged
  again: whatever requests follow, every such token that still decodes is answered with InvalidTokenError.\<close>

theorem ended_sessions_stay_ended:
  assumes "third_party S good pending disk J P matches known"
    and "quiet good pending disk w" and "all_known known (committed disk w)"
    and "st_tokens (committed disk w) (tp_token_id p) = Some r"
    and "change_password_handler S P c w = (Inr (), w1) \<and> uid_value (rt_user_id r) = cp_user_id c \<or>
      logout_handler S J config \<lparr>lo_refresh_token = old\<rparr> w = (Inr (), w1) \<and>
      (\<exists>q. logout_target (committed disk w) (fst (ts_decode (provided_token_service J config) old (env w))) =
        Inr (Some q) \<and> rt_family_id r = rt_family_id q)"
    and "quiet good pending disk w2" and "auth_step\<^sup>*\<^sup>* (committed disk w1) (committed disk w2)"
    and "fst (ts_decode (provided_token_service J config) tok (env w2)) = Inr p"
  shows "fst (refresh_handler S J config \<lparr>rc_refresh_token = tok\<rparr> w2) = Inl (raised InvalidTokenError)"
proof -
  note ports = third_party.ports [OF assms(1)]
  obtain now where w1: "quiet good pending disk w1"
      "st_tokens (committed disk w1) (tp_token_id p) = Some (revoke now r)"
    using assms(5) auth_ports.change_password_revokes [OF ports assms(2,3) _ assms(4)]
      auth_ports.logout_revokes_record [OF ports assms(2) _ _ assms(4)]
    unfolding change_password_handler_def logout_handler_def by blast
  show ?thesis
    unfolding refresh_handler_def
    by (rule auth_ports.refresh_revoked_later [OF ports w1(1) assms(6,7) w1(2) _ assms(8)]) simp
qed

lemma ended_sessions_stay_ended_witness:
  "\<exists>w1. change_password_handler mem_session ref_pwdlib
      \<lparr>cp_user_id = 1, cp_current_password = ''secret'', cp_new_password = ''changed''\<rparr> example_world =
      (Inr (), w1) \<and>
    fst (refresh_handler mem_session ref_pyjwt default_settings \<lparr>rc_refresh_token = live_text\<rparr> w1) =
      Inl (raised InvalidTokenError)"
proof -
  let ?c = "\<lparr>cp_user_id = 1, cp_current_password = ''secret'', cp_new_password = ''changed''\<rparr>"
  obtain w1 where run: "change_password_handler mem_session ref_pwdlib ?c example_world = (Inr (), w1)"
    and feed: "clock_feed (env w1) = clock_feed example_env" and w1: "quiet mem_good mem_pending mem_disk w1"
    using example_password_change by blast
  from ended_sessions_stay_ended [OF example_third_party example_clean(1) example_known _ _ w1
      rtranclp.rtrancl_refl example_payload_at [OF feed], where c = ?c] run
  show ?thesis
    by (force simp: example_clean(2) live_record_def)
qed

section \<open>Registration\<close>

lemma registration_commits:
  assumes "third_party S good pending disk J P matches known"
    and "quiet good pending disk w"
    and "email_new (cu_email c) = Inr em"
    and "\<not> email_taken (committed disk w) em" and "length (email_value em) \<le> 320"
    and "st_users (committed disk w) (next_uuid (env w)) = None"
  shows "\<exists>u. usr_id u = UserId (next_uuid (env w)) \<and> usr_email u = em \<and> usr_is_active u \<and>
    matches (cu_password c) (hp_value (usr_hashed_password u)) \<and>
    yields (create_user_handler S P c w)
      \<lparr>uv_id = next_uuid (env w), uv_email = email_value em, uv_is_active = True,
       uv_created_at = usr_created_at u\<rparr>
      (\<lambda>w'. quiet good pending disk w' \<and> committed disk w' = put_user u (committed disk w) \<and>
        cache w' = cache w \<and> uuid_feed (env w') = uuid_feed (env w) \<and>
        logs (env w') = logs (env w) @
          registration_logs (UserRegistered (next_uuid (env w)) (email_value em) (usr_created_at u)))"
proof -
  obtain u w' where u: "usr_id u = UserId (next_uuid (env w))" "usr_email u = em" "usr_is_active u"
      "matches (cu_password c) (hp_value (usr_hashed_password u))"
    and w': "leaves good pending disk w (put_user u (committed disk w)) w'"
    and run: "create_user_handler S P c w =
      thenM (on_env (default_event_dispatcher
          [UserRegistered (next_uuid (env w)) (email_value em) (usr_created_at u)]))
        (retM \<lparr>uv_id = next_uuid (env w), uv_email = email_value em, uv_is_active = True,
               uv_created_at = usr_created_at u\<rparr>) w'"
    using auth_ports.create_user_registers [OF third_party.ports [OF assms(1)] assms(2,3,5,4,6)]
    unfolding create_user_handler_def by metis
  with w' show ?thesis
    by (intro exI [of _ u])
       (simp add: run io_simps default_dispatch_run yields_def settled_def clean_def)
qed

text \<open>C11. Registration distinguishes exactly three cases: a malformed address (the ValidationError of the value
  object) and a registered one (EmailAlreadyExistsError) leave the store, the cache and the log untouched;
  a free one stores one new active user under the drawn identifier, with a hash that matches the password,
  returns that user's view, and announces exactly that user in the log.\<close>

theorem registration_decides:
  assumes "third_party S good pending disk J P matches known"
    and "quiet good pending disk w"
  shows "case email_new (cu_email c) of
      Inl x \<Rightarrow> raises (create_user_handler S P c w) x (leaves good pending disk w (committed disk w))
    | Inr em \<Rightarrow>
        if email_taken (committed disk w) em
        then raises (create_user_handler S P c w) (raised EmailAlreadyExistsError)
               (leaves good pending disk w (committed disk w))
        else length (email_value em) \<le> 320 \<and>
             st_users (committed disk w) (next_uuid (env w)) = None \<longrightarrow>
          (\<exists>u. usr_id u = UserId (next_uuid (env w)) \<and> usr_email u = em \<and> usr_is_active u \<and>
            matches (cu_password c) (hp_value (usr_hashed_password u)) \<and>
            yields (create_user_handler S P c w)
              \<lparr>uv_id = next_uuid (env w), uv_email = email_value em, uv_is_active = True,
               uv_created_at = usr_created_at u\<rparr>
              (\<lambda>w'. quiet good pending disk w' \<and>
                committed disk w' = put_user u (committed disk w) \<and>
                cache w' = cache w \<and> uuid_feed (env w') = uuid_feed (env w) \<and>
                logs (env w') = logs (env w) @
                  registration_logs (UserRegistered (next_uuid (env w)) (email_value em)
                    (usr_created_at u))))"
proof (cases "email_new (cu_email c)")
  case (Inl x)
  then show ?thesis
    using auth_ports.create_user_invalid_email [OF third_party.ports [OF assms(1)] Inl,
      where D = default_event_dispatcher and w = w] assms(2)
    by (simp add: create_user_handler_def raises_def settled_def clean_def)
next
  case (Inr em)
  show ?thesis
  proof (cases "email_taken (committed disk w) em")
    case True
    then show ?thesis
      using auth_ports.create_user_duplicate [OF third_party.ports [OF assms(1)] assms(2) Inr,
        where D = default_event_dispatcher] Inr
      by (simp add: create_user_handler_def)
  next
    case False
    then show ?thesis
      using registration_commits [OF assms Inr False] Inr by simp
  qed
qed

lemma registration_decides_witness:
  "(\<exists>v w'. create_user_handler mem_session ref_pwdlib
      \<lparr>cu_email = ''Bob@Example.com'', cu_password = ''bob-secret''\<rparr> example_world = (Inr v, w') \<and>
    uv_email v = ''bob@example.com'' \<and> st_users (committed mem_disk w') 100 \<noteq> None) \<and>
   fst (create_user_handler mem_session ref_pwdlib
      \<lparr>cu_email = '' ALICE@example.com'', cu_password = ''other''\<rparr> example_world) =
     Inl (Domain EmailAlreadyExistsError ''A user with this email already exists.'')"
proof
  have em: "email_new ''Bob@Example.com'' = Inr (Email ''bob@example.com'')"
    by code_simp
  have "\<not> email_taken example_store (Email ''bob@example.com'')"
    by (simp add: email_taken_def alice_def)
  then show "\<exists>v w'. create_user_handler mem_session ref_pwdlib
      \<lparr>cu_email = ''Bob@Example.com'', cu_password = ''bob-secret''\<rparr> example_world = (Inr v, w') \<and>
    uv_email v = ''bob@example.com'' \<and> st_users (committed mem_disk w') 100 \<noteq> None"
    using registration_decides [OF example_third_party example_clean(1),
      of "\<lparr>cu_email = ''Bob@Example.com'', cu_password = ''bob-secret''\<rparr>"] em
    by (auto simp: example_clean(2) example_next elim!: yieldsE)
next
  have em: "email_new '' ALICE@example.com'' = Inr (Email ''alice@example.com'')"
    by code_simp
  have "email_taken example_store (Email ''alice@example.com'')"
    by (auto simp: email_taken_def alice_def intro: exI [of _ 1])
  then show "fst (create_user_handler mem_session ref_pwdlib
      \<lparr>cu_email = '' ALICE@example.com'', cu_password = ''other''\<rparr> example_world) =
     Inl (Domain EmailAlreadyExistsError ''A user with this email already exists.'')"
    using registration_decides [OF example_third_party example_clean(1),
      of "\<lparr>cu_email = '' ALICE@example.com'', cu_password = ''other''\<rparr>"] em
    by (simp add: example_clean(2) raises_def domain_error_init_def)
qed

text \<open>C12. Registration and login fit together: whoever has registered can log in with the same address (as typed)
  and password.\<close>

theorem registered_user_can_login:
  assumes "third_party S good pending disk J P matches known"
    and "quiet good pending disk w" and "all_known known (committed disk w)"
    and "email_new (cu_email c) = Inr em" and "length (email_value em) \<le> 320"
    and "st_users (committed disk w) (next_uuid (env w)) = None"
    and "create_user_handler S P c w = (Inr v, w1)"
    and "st_tokens (committed disk w) (next_uuid (env w1)) = None"
  shows "\<exists>pair w2. login_handler S J P config
      \<lparr>lc_email = cu_email c, lc_password = cu_password c\<rparr> w1 = (Inr pair, w2)"
proof -
  note ports = third_party.ports [OF assms(1)]
  let ?c = "\<lparr>lc_email = cu_email c, lc_password = cu_password c\<rparr>"
  have free: "\<not> email_taken (committed disk w) em"
    using auth_ports.create_user_duplicate [OF ports assms(2,4), where D = default_event_dispatcher] assms(7)
    by (auto simp: create_user_handler_def raises_def)
  obtain u w' where u: "usr_id u = UserId (next_uuid (env w))" "usr_email u = em" "usr_is_active u"
      "known (hp_value (usr_hashed_password u))"
      "matches (cu_password c) (hp_value (usr_hashed_password u))"
    and w': "leaves good pending disk w (put_user u (committed disk w)) w'"
    and run: "create_user_handler S P c w =
      thenM (on_env (default_event_dispatcher
          [UserRegistered (next_uuid (env w)) (email_value em) (usr_created_at u)]))
        (retM \<lparr>uv_id = next_uuid (env w), uv_email = email_value em, uv_is_active = True,
               uv_created_at = usr_created_at u\<rparr>) w'"
    using auth_ports.create_user_registers [OF ports assms(2,4,5) free assms(6)]
    unfolding create_user_handler_def by metis
  then have w1: "quiet good pending disk w1" "committed disk w1 = put_user u (committed disk w)"
    using assms(7) by (auto simp: io_simps default_dispatch_run settled_def clean_def)
  have "all_known known (committed disk w1)"
    using assms(3) u(4) by (simp add: w1(2) all_known_def)
  moreover have "login_user matches (committed disk w1) ?c (stored u)"
    using assms(4) u(1,2,3,5) by (simp add: w1(2) login_user_def has_email_def)
  moreover have "st_tokens (committed disk w1) (next_uuid (env w1)) = None"
    using assms(8) by (simp add: w1(2))
  ultimately have "\<exists>pair Q. yields (login_handler S J P config ?c w1) pair Q"
    using auth_ports.login_succeeds [OF ports w1(1), of ?c "stored u" config]
    unfolding login_handler_def by metis
  then show ?thesis
    by (auto elim: yieldsE)
qed

lemma registered_user_can_login_witness:
  "\<exists>v w1 pair w2. create_user_handler mem_session ref_pwdlib
      \<lparr>cu_email = ''Bob@Example.com'', cu_password = ''bob-secret''\<rparr> steady_world = (Inr v, w1) \<and>
    login_handler mem_session ref_pyjwt ref_pwdlib default_settings
      \<lparr>lc_email = ''Bob@Example.com'', lc_password = ''bob-secret''\<rparr> w1 = (Inr pair, w2)"
proof -
  let ?c = "\<lparr>cu_email = ''Bob@Example.com'', cu_password = ''bob-secret''\<rparr>"
  have em: "email_new (cu_email ?c) = Inr (Email ''bob@example.com'')"
    by code_simp
  have free: "\<not> email_taken (committed mem_disk steady_world) (Email ''bob@example.com'')"
    by (simp add: email_taken_def alice_def steady_clean)
  have new: "st_users (committed mem_disk steady_world) (next_uuid (env steady_world)) = None"
    by (simp add: steady_clean steady_next)
  have len: "length (email_value (Email ''bob@example.com'')) \<le> 320"
    by simp
  obtain v w1 where run: "create_user_handler mem_session ref_pwdlib ?c steady_world = (Inr v, w1)"
      and feed: "uuid_feed (env w1) = uuid_feed (env steady_world)"
    using auth_ports.create_user_registers [OF third_party.ports [OF example_third_party]
        steady_clean(1) em len free new, of default_event_dispatcher]
    unfolding create_user_handler_def
    by (auto simp: io_simps default_dispatch_run settled_def)
  have "st_tokens (committed mem_disk steady_world) (next_uuid (env w1)) = None"
    by (simp add: steady_clean steady_next [OF feed])
  from registered_user_can_login [OF example_third_party steady_clean(1,3) em len new run this] run
  show ?thesis
    by fastforce
qed

text \<open>C13. Domain events follow the commit, for any session whatsoever: a registration that fails has logged no
  event, and one that succeeds has just committed its transaction and logs the event of the user it
  returns.\<close>

theorem events_follow_the_commit:
  "case create_user_handler S P c w of
     (Inl x, w') \<Rightarrow> logs (env w') = logs (env w)
   | (Inr v, w') \<Rightarrow>
       (\<exists>s. sql_commit S s = (Inr (), store w')) \<and>
       (\<exists>at. logs (env w') = logs (env w) @ registration_logs (UserRegistered (uv_id v) (uv_email v) at))"
  unfolding create_user_handler_def
  by (rule create_user_events)



section \<open>Who may do what\<close>

text \<open>C16. The dependency behind every protected endpoint implements \<open>current_user_decision\<close>: exactly the access
  tokens of existing, active users are accepted, a refresh token never is, and the store is only read.\<close>

theorem bearer_decides:
  assumes "third_party S good pending disk J P matches known"
    and "quiet good pending disk w"
  shows "fst (current_user S J config tok w) =
      current_user_decision (committed disk w) (fst (ts_decode (provided_token_service J config) tok (env w))) \<and>
    leaves good pending disk w (committed disk w) (snd (current_user S J config tok w))"
  using auth_ports.current_user_refines [OF third_party.ports [OF assms(1)] assms(2)]
  by (simp add: current_user_def)

lemma bearer_decides_witness:
  "fst (current_user mem_session ref_pyjwt default_settings
      (example_token Access (user_id_str (UserId 1)) 55) example_world) = Inr alice \<and>
   fst (current_user mem_session ref_pyjwt default_settings live_text example_world) =
      Inl (raised InvalidTokenError)"
  using bearer_decides [OF example_third_party example_clean(1), of default_settings]
  by (simp add: example_clean(2) example_payload current_user_decision_def token_owner_def
      active_user_def alice_def)

text \<open>C17. The decision on the bearer token rules the protected endpoints. When the token is not accepted, each of
  the four answers with the error of that decision and changes nothing. When it is accepted for a user,
  \<^verbatim>\<open>/users/me\<close> answers that user, and \<^verbatim>\<open>/users/{user_id}\<close> the user of that identifier or UserNotFoundError;
  both leave the committed store as it was.\<close>

theorem protected_endpoints_decide:
  assumes "third_party S good pending disk J P matches known"
    and "quiet good pending disk w"
  shows "case current_user_decision (committed disk w)
      (fst (ts_decode (provided_token_service J config) tok (env w))) of
    Inl x \<Rightarrow>
      raises (read_me_endpoint S J config tok w) x (leaves good pending disk w (committed disk w)) \<and>
      raises (get_user_endpoint S J config tok i w) x (leaves good pending disk w (committed disk w)) \<and>
      raises (list_users_endpoint wide S J config tok limit cursor w) x
        (leaves good pending disk w (committed disk w)) \<and>
      raises (change_password_endpoint S J P config tok body w) x
        (leaves good pending disk w (committed disk w))
  | Inr u \<Rightarrow>
      yields (read_me_endpoint S J config tok w)
        \<lparr>urs_id = uid_value (usr_id u), urs_email = email_value (usr_email u),
         urs_is_active = usr_is_active u, urs_created_at = usr_created_at u\<rparr>
        (leaves good pending disk w (committed disk w)) \<and>
      (case st_users (committed disk w) i of
         None \<Rightarrow> raises (get_user_endpoint S J config tok i w) (raised UserNotFoundError)
           (leaves good pending disk w (committed disk w))
       | Some v \<Rightarrow> \<exists>view. view_of v view \<and>
           yields (get_user_endpoint S J config tok i w) (user_response_of_view view)
             (leaves good pending disk w (committed disk w)))"
proof (cases "current_user_decision (committed disk w)
    (fst (ts_decode (provided_token_service J config) tok (env w)))")
  case (Inl x)
  then obtain w' where "current_user S J config tok w = (Inl x, w')"
      "leaves good pending disk w (committed disk w) w'"
    using bearer_run [OF assms, of config tok] by metis
  with Inl show ?thesis
    by (simp add: read_me_endpoint_def get_user_endpoint_def list_users_endpoint_def
        change_password_endpoint_def io_simps raises_def)
next
  case (Inr u)
  then obtain w' where "current_user S J config tok w = (Inr u, w')"
      "leaves good pending disk w (committed disk w) w'"
    using bearer_run [OF assms, of config tok] by metis
  then have "yields (read_me_endpoint S J config tok w)
      \<lparr>urs_id = uid_value (usr_id u), urs_email = email_value (usr_email u),
       urs_is_active = usr_is_active u, urs_created_at = usr_created_at u\<rparr>
      (leaves good pending disk w (committed disk w))"
    by (simp add: read_me_endpoint_def io_simps yields_def)
  with get_user_endpoint_run [OF assms Inr, of i] show ?thesis
    unfolding Inr sum.case by blast
qed

lemma protected_endpoints_decide_witness:
  "fst (list_users_endpoint Map.empty mem_session ref_pyjwt default_settings live_text 20 None example_world) =
    Inl (raised InvalidTokenError) \<and>
   fst (get_user_endpoint mem_session ref_pyjwt default_settings alice_bearer 2 example_world) =
    Inl (raised UserNotFoundError)"
  using protected_endpoints_decide [OF example_third_party example_clean(1),
      of default_settings live_text]
    protected_endpoints_decide [OF example_third_party example_clean(1),
      of default_settings alice_bearer 2]
  by (simp add: example_payload example_clean(2) alice_decision)
     (simp add: current_user_decision_def raises_def)

text \<open>C18. A change of password does not end the access tokens of the user: a bearer token accepted before the
  change is accepted after it, as long as it decodes, for the user with the new password. The comment in
  the handler, "A changed password ends every existing session", holds for refresh tokens only.\<close>

theorem access_token_survives_password_change:
  assumes "third_party S good pending disk J P matches known"
    and "quiet good pending disk w" and "all_known known (committed disk w)"
    and "fst (current_user S J config tok w) = Inr u"
    and "cp_user_id c = uid_value (usr_id u)"
    and "change_password_handler S P c w = (Inr (), w1)"
    and "fst (ts_decode (provided_token_service J config) tok (env w1)) =
      fst (ts_decode (provided_token_service J config) tok (env w))"
  shows "\<exists>h. matches (cp_new_password c) (hp_value h) \<and>
    fst (current_user S J config tok w1) = Inr (user_change_password h u)"
proof -
  note ports = third_party.ports [OF assms(1)]
  let ?d = "fst (ts_decode (provided_token_service J config) tok (env w))"
  have now: "current_user_decision (committed disk w) ?d = Inr u"
    using auth_ports.current_user_refines(1) [OF ports assms(2), of config tok] assms(4)
    by (simp add: current_user_def)
  have wf: "wf_store (committed disk w)"
    using auth_ports.clean_parts(4) [OF ports assms(2)] .
  obtain i where i: "st_users (committed disk w) i = Some u" "usr_is_active u"
    using current_user_stored [OF now] by blast
  have u: "i = uid_value (usr_id u)" "stored (user_change_password h u) = user_change_password h u" for h
    using wf_storeD(1,4) [OF wf i(1)] by (simp_all add: stored_def user_change_password_def)
  obtain u0 h at where "st_users (committed disk w) (cp_user_id c) = Some u0"
    and h: "matches (cp_new_password c) h"
    and w1: "leaves good pending disk w (revoke_where (\<lambda>r. rt_user_id r = usr_id u0) at
      (put_user (user_change_password (HashedPassword h) u0) (committed disk w))) w1"
    using auth_ports.change_password_effect [OF ports assms(2,3)] assms(6)
    unfolding change_password_handler_def by metis
  then have "u0 = u"
    using i u(1) assms(5) by simp
  let ?v = "user_change_password (HashedPassword h) u"
  have "current_user_decision (committed disk w1) ?d = Inr ?v"
    using now by (rule current_user_replaced)
      (use w1 wf i u in \<open>auto simp: settled_def \<open>u0 = u\<close> user_change_password_def\<close>)
  moreover have "quiet good pending disk w1"
    using w1 by (simp add: settled_def)
  ultimately have "fst (current_user S J config tok w1) = Inr ?v"
    using auth_ports.current_user_refines(1) [OF ports, of w1 config tok] assms(7)
    by (simp add: current_user_def)
  with h show ?thesis
    by (intro exI [of _ "HashedPassword h"]) simp
qed

lemma access_token_survives_password_change_witness:
  "\<exists>w1 u. change_password_handler mem_session ref_pwdlib
      \<lparr>cp_user_id = 1, cp_current_password = ''secret'', cp_new_password = ''changed''\<rparr> example_world =
      (Inr (), w1) \<and>
    fst (current_user mem_session ref_pyjwt default_settings
      (example_token Access (user_id_str (UserId 1)) 55) w1) = Inr u \<and>
    ref_matches ''changed'' (hp_value (usr_hashed_password u))"
proof -
  let ?tok = "example_token Access (user_id_str (UserId 1)) 55"
  obtain w1 where run: "change_password_handler mem_session ref_pwdlib
      \<lparr>cp_user_id = 1, cp_current_password = ''secret'', cp_new_password = ''changed''\<rparr> example_world =
      (Inr (), w1)" and "clock_feed (env w1) = clock_feed example_env"
    using example_password_change by blast
  note same = example_payload_at [OF this(2), of Access "user_id_str (UserId 1)" 55]
  have me: "fst (current_user mem_session ref_pyjwt default_settings ?tok example_world) = Inr alice"
    using auth_ports.current_user_refines(1) [OF third_party.ports [OF example_third_party]
        example_clean(1), of default_settings ?tok]
    by (simp add: current_user_def example_clean(2) example_payload current_user_decision_def
        token_owner_def active_user_def alice_def)
  have id: "cp_user_id \<lparr>cp_user_id = 1, cp_current_password = ''secret'', cp_new_password = ''changed''\<rparr> =
      uid_value (usr_id alice)"
    by (simp add: alice_def)
  show ?thesis
    using access_token_survives_password_change [OF example_third_party example_clean(1) example_known
        me id run] run
    by (auto simp: same example_payload user_change_password_def)
qed

end
